(* ===== verification/Prelude.thy ===== *)
theory Prelude
  imports Main "HOL-Library.Code_Target_Nat" "HOL-Library.Multiset"
begin

text \<open>
  Shared ground of the development: Python strings as lists of code points, the exception values
  of the backend, Python slices and stable sorting, and the generic list and sum lemmas the
  component theories use. Nothing here is specific to one component.

  Collections: \<open>py_simps\<close> (string literals and slices), \<open>exn_simps\<close> (exception classes),
  \<open>store_simps\<close> (record and store updates) are filled by the component theories as well.
\<close>

named_theorems py_simps
named_theorems exn_simps
named_theorems store_simps

section \<open>Python strings and bytes\<close>

text \<open>
  A Python \<open>str\<close> is a sequence of Unicode code points and \<open>len\<close> counts code points; \<open>bytes\<close> is a
  sequence of numbers below 256. Both are lists of naturals. \<open>py\<close> turns an ASCII literal into a
  \<open>pystr\<close>.
\<close>

type_synonym pystr = "nat list"
type_synonym bytes = "nat list"

definition py :: "string \<Rightarrow> pystr" where
  "py cs = map of_char cs"

lemma py_eq_iff [simp, py_simps]: "py a = py b \<longleftrightarrow> a = b"
proof -
  have "inj (of_char :: char \<Rightarrow> nat)" by (simp add: inj_def)
  then show ?thesis by (simp add: py_def inj_map_eq_map)
qed

lemma py_Nil [simp, py_simps]: "py [] = []"
  by (simp add: py_def)

lemma py_eq_Nil_iff [simp, py_simps]: "py a = [] \<longleftrightarrow> a = []" "[] = py a \<longleftrightarrow> a = []"
  by (simp_all add: py_def)

lemma length_py [simp, py_simps]: "length (py a) = length a"
  by (simp add: py_def)

text \<open>A time-zone aware \<open>datetime\<close>: microseconds since the epoch, UTC.\<close>

type_synonym timestamp = int

section \<open>Python slices, sorting, dictionaries\<close>

text \<open>\<open>xs[:k]\<close> and \<open>xs[-k:]\<close> for any Python int \<open>k\<close>; a negative bound counts from the end.\<close>

definition slice_to :: "int \<Rightarrow> 'a list \<Rightarrow> 'a list" where
  "slice_to k xs = (if 0 \<le> k then take (nat k) xs else take (nat (int (length xs) + k)) xs)"

definition slice_from :: "int \<Rightarrow> 'a list \<Rightarrow> 'a list" where
  "slice_from k xs = (if 0 \<le> k then drop (nat k) xs else drop (nat (int (length xs) + k)) xs)"

definition slice :: "nat \<Rightarrow> nat \<Rightarrow> 'a list \<Rightarrow> 'a list" where
  "slice i j xs = take (j - i) (drop i xs)"

lemma set_slice_to: "set (slice_to k xs) \<subseteq> set xs"
  by (auto simp: slice_to_def dest: in_set_takeD)

lemma length_slice_to: "0 \<le> k \<Longrightarrow> int (length (slice_to k xs)) \<le> k"
  by (simp add: slice_to_def)

lemma slice_to_filter_sorted_wrt: "sorted_wrt P xs \<Longrightarrow> sorted_wrt P (slice_to k xs)"
  by (simp add: slice_to_def sorted_wrt_take)

lemma distinct_slice_to: "distinct xs \<Longrightarrow> distinct (slice_to k xs)"
  by (simp add: slice_to_def)

lemma length_slice [simp]: "length (slice i j xs) = min (length xs - i) (j - i)"
  by (simp add: slice_def min.commute)

lemma nth_slice: "i + k < j \<Longrightarrow> j \<le> length xs \<Longrightarrow> slice i j xs ! k = xs ! (i + k)"
  by (simp add: slice_def)

text \<open>
  \<open>sorted(xs, key=k, reverse=True)\<close> is stable: elements with equal keys keep their order. Sorting
  the reversed list in ascending order and reversing again gives exactly that.
\<close>

definition sorted_desc :: "('a \<Rightarrow> 'k::linorder) \<Rightarrow> 'a list \<Rightarrow> 'a list" where
  "sorted_desc k xs = rev (sort_key k (rev xs))"

lemma set_sorted_desc [simp]: "set (sorted_desc k xs) = set xs"
  by (simp add: sorted_desc_def)

lemma mset_sorted_desc [simp]: "mset (sorted_desc k xs) = mset xs"
  by (simp add: sorted_desc_def)

lemma length_sorted_desc [simp]: "length (sorted_desc k xs) = length xs"
  by (simp add: sorted_desc_def)

lemma sorted_wrt_sorted_desc: "sorted_wrt (\<lambda>a b. k b \<le> k a) (sorted_desc k xs)"
proof -
  have "sorted (map k (sort_key k (rev xs)))" by simp
  then have "sorted_wrt (\<lambda>a b. k a \<le> k b) (sort_key k (rev xs))"
    by (simp add: sorted_map)
  then show ?thesis by (simp add: sorted_desc_def sorted_wrt_rev)
qed

lemma sorted_desc_stable:
  "filter (\<lambda>x. k x = v) (sorted_desc k xs) = filter (\<lambda>x. k x = v) xs"
proof -
  have "filter (\<lambda>x. k x = v) (sort_key k (rev xs)) = filter (\<lambda>x. k x = v) (rev xs)"
    by (rule sort_key_stable)
  then have "rev (filter (\<lambda>x. k x = v) (sort_key k (rev xs))) = filter (\<lambda>x. k x = v) xs"
    by (simp add: rev_filter)
  then show ?thesis by (simp add: sorted_desc_def rev_filter)
qed

text \<open>A Python truth test on an optional list or string: \<open>None\<close> and empty are both false.\<close>

definition truthy :: "'a list option \<Rightarrow> bool" where
  "truthy x \<longleftrightarrow> (case x of None \<Rightarrow> False | Some xs \<Rightarrow> xs \<noteq> [])"

lemma truthy_simps [simp]: "\<not> truthy None" "truthy (Some xs) \<longleftrightarrow> xs \<noteq> []"
  by (simp_all add: truthy_def)

lemma truthyE: "truthy x \<Longrightarrow> (\<And>xs. x = Some xs \<Longrightarrow> xs \<noteq> [] \<Longrightarrow> P) \<Longrightarrow> P"
  by (cases x) auto

section \<open>Decimal rendering of integers\<close>

fun nat_digits :: "nat \<Rightarrow> pystr" where
  "nat_digits n = (if n < 10 then [48 + n] else nat_digits (n div 10) @ [48 + n mod 10])"

declare nat_digits.simps [simp del]

definition str_int :: "int \<Rightarrow> pystr" where
  "str_int i = (if i < 0 then 45 # nat_digits (nat (- i)) else nat_digits (nat i))"

lemma nat_digits_small [simp]: "n < 10 \<Longrightarrow> nat_digits n = [48 + n]"
  by (subst nat_digits.simps) simp

lemma nat_digits_nonempty [simp]: "nat_digits n \<noteq> []"
  by (subst nat_digits.simps) simp

lemma nat_digits_range: "c \<in> set (nat_digits n) \<Longrightarrow> 48 \<le> c \<and> c \<le> 57"
proof (induction n rule: nat_digits.induct)
  case (1 n)
  then show ?case by (cases "n < 10") (auto simp: nat_digits.simps [of n])
qed

section \<open>Exceptions\<close>

text \<open>
  One constructor per exception class the backend raises or handles, each with its message; a
  service, driver or library that is not part of the repository raises \<open>ExternalError\<close>.
  A fallible function returns \<open>exn + 'a\<close>.
\<close>

datatype exn =
    ValueError pystr
  | KeyError pystr
  | TypeError pystr
  | IndexError pystr
  | AttributeError pystr
  | AuthError pystr
  | DuplicateUserError pystr
  | InvalidCredentialsError pystr
  | InvalidTokenError pystr
  | DocumentNotFoundError pystr
  | DocumentSecurityPermissionError pystr
  | UnsupportedDocumentTypeError pystr
  | EmptyDocumentError pystr
  | CorruptDocumentError pystr
  | DocumentTooLargeError pystr
  | EmbeddingProviderError pystr
  | LLMProviderError pystr
  | RerankerProviderError pystr
  | ChatContextNotFoundError pystr
  | RateLimitBackendUnavailable pystr
  | RedisTimeoutError pystr
  | ExternalError pystr
  | HTTPException int pystr pystr

type_synonym 'a res = "exn + 'a"

definition quoted :: "pystr \<Rightarrow> pystr" where
  "quoted s = [39] @ s @ [39]"

text \<open>\<open>str(exc)\<close>: the message; an \<open>HTTPException\<close> prints its status and its detail dictionary.\<close>

fun str_exn :: "exn \<Rightarrow> pystr" where
  "str_exn (ValueError m) = m"
| "str_exn (KeyError m) = m"
| "str_exn (TypeError m) = m"
| "str_exn (IndexError m) = m"
| "str_exn (AttributeError m) = m"
| "str_exn (AuthError m) = m"
| "str_exn (DuplicateUserError m) = m"
| "str_exn (InvalidCredentialsError m) = m"
| "str_exn (InvalidTokenError m) = m"
| "str_exn (DocumentNotFoundError m) = m"
| "str_exn (DocumentSecurityPermissionError m) = m"
| "str_exn (UnsupportedDocumentTypeError m) = m"
| "str_exn (EmptyDocumentError m) = m"
| "str_exn (CorruptDocumentError m) = m"
| "str_exn (DocumentTooLargeError m) = m"
| "str_exn (EmbeddingProviderError m) = m"
| "str_exn (LLMProviderError m) = m"
| "str_exn (RerankerProviderError m) = m"
| "str_exn (ChatContextNotFoundError m) = m"
| "str_exn (RateLimitBackendUnavailable m) = m"
| "str_exn (RedisTimeoutError m) = m"
| "str_exn (ExternalError m) = m"
| "str_exn (HTTPException s c m) =
     str_int s @ py '': {'' @ quoted (py ''code'') @ py '': '' @ quoted c @ py '', ''
     @ quoted (py ''message'') @ py '': '' @ quoted m @ py ''}''"

section \<open>Generic lemmas\<close>

lemma filter_neq_append_filter [simp]:
  "filter (\<lambda>x. \<not> P x) (xs @ filter P ys) = filter (\<lambda>x. \<not> P x) xs"
  by simp

lemma map_of_map_key: "map_of (map (\<lambda>x. (f x, x)) xs) k = find (\<lambda>x. f x = k) xs"
  by (induction xs) auto

lemma find_filter_neq: "k \<noteq> k' \<Longrightarrow> find (\<lambda>x. f x = k) (filter (\<lambda>x. f x \<noteq> k') xs) = find (\<lambda>x. f x = k) xs"
  by (induction xs) auto

lemma find_filter_same: "find (\<lambda>x. f x = k) (filter (\<lambda>x. f x \<noteq> k) xs) = None"
  by (auto simp: find_None_iff)

lemma find_append: "find P (xs @ ys) = (case find P xs of None \<Rightarrow> find P ys | Some x \<Rightarrow> Some x)"
  by (induction xs) auto

lemma find_SomeD: "find P xs = Some x \<Longrightarrow> x \<in> set xs \<and> P x"
  by (induction xs) (auto split: if_splits)

lemma filter_find_None: "find P xs = None \<Longrightarrow> filter (\<lambda>x. \<not> P x) xs = xs"
  by (simp add: find_None_iff)

text \<open>Reading a summary of a run: the result is a value, and the summary is computed from it.\<close>

lemma map_sum_InrD: "map_sum f g x = Inr b \<Longrightarrow> \<exists>y. x = Inr y \<and> g y = b"
  by (cases x) auto

lemma summary_Inr:
  "map_prod (map_sum f g) h x = (Inr a, b) \<Longrightarrow> \<exists>y z. x = (Inr y, z) \<and> g y = a \<and> h z = b"
  by (cases x; cases "fst x") auto

end
