(* ===== verification/PyStr.thy ===== *)
theory PyStr
  imports Prelude
begin

text \<open>
  The string methods of the Python standard library the backend calls, on lists of code points:
  \<open>strip\<close>, \<open>split\<close>, \<open>partition\<close>, \<open>join\<close>, \<open>replace\<close>, \<open>rfind\<close>, \<open>startswith\<close>, \<open>in\<close>. White space is the
  full set of code points \<open>str.isspace\<close> accepts.

  What depends on the rest of the Unicode character database (lower-casing, the class \<open>\w\<close>, the
  decimal digits \<open>\d\<close>) is a field of the record \<open>ucd\<close>, passed to the definitions that use it;
  \<open>ascii_ucd\<close> is its restriction to ASCII text.
\<close>

section \<open>White space and strip\<close>

definition is_space :: "nat \<Rightarrow> bool" where
  "is_space c \<longleftrightarrow> (9 \<le> c \<and> c \<le> 13) \<or> (28 \<le> c \<and> c \<le> 32) \<or> c = 133 \<or> c = 160 \<or> c = 5760
     \<or> (8192 \<le> c \<and> c \<le> 8202) \<or> c = 8232 \<or> c = 8233 \<or> c = 8239 \<or> c = 8287 \<or> c = 12288"

lemma is_space_32 [simp]: "is_space 32"
  by (simp add: is_space_def)

definition rstrip_while :: "(nat \<Rightarrow> bool) \<Rightarrow> pystr \<Rightarrow> pystr" where
  "rstrip_while P s = rev (dropWhile P (rev s))"

definition strip :: "pystr \<Rightarrow> pystr" where
  "strip s = rstrip_while is_space (dropWhile is_space s)"

lemma rstrip_while_split: "\<exists>t. s = rstrip_while P s @ t \<and> (\<forall>c \<in> set t. P c)"
proof -
  have "rev s = takeWhile P (rev s) @ dropWhile P (rev s)" by simp
  then have "s = rev (dropWhile P (rev s)) @ rev (takeWhile P (rev s))"
    by (metis rev_append rev_rev_ident)
  moreover have "\<forall>c \<in> set (rev (takeWhile P (rev s))). P c" by (auto dest: set_takeWhileD)
  ultimately show ?thesis unfolding rstrip_while_def by blast
qed

lemma rstrip_while_last: "rstrip_while P s \<noteq> [] \<Longrightarrow> \<not> P (last (rstrip_while P s))"
  using hd_dropWhile [of P "rev s"] by (auto simp: rstrip_while_def last_rev)

lemma rstrip_while_idem [simp]: "rstrip_while P (rstrip_while P s) = rstrip_while P s"
  by (simp add: rstrip_while_def)

lemma strip_decomp:
  obtains l r where "s = l @ strip s @ r" "\<forall>c \<in> set l. is_space c" "\<forall>c \<in> set r. is_space c"
proof -
  let ?d = "dropWhile is_space s"
  obtain r where r: "?d = strip s @ r" "\<forall>c \<in> set r. is_space c"
    using rstrip_while_split [of ?d is_space] by (auto simp: strip_def)
  have "s = takeWhile is_space s @ strip s @ r" by (metis r(1) takeWhile_dropWhile_id)
  with r(2) that show ?thesis by (metis set_takeWhileD)
qed

lemma strip_ends:
  assumes "strip s \<noteq> []"
  shows "\<not> is_space (hd (strip s))" and "\<not> is_space (last (strip s))"
proof -
  let ?d = "dropWhile is_space s"
  obtain r where r: "?d = strip s @ r"
    using rstrip_while_split [of ?d is_space] by (auto simp: strip_def)
  from r assms have "?d \<noteq> []" and "hd (strip s) = hd ?d" by (auto simp: hd_append)
  then show "\<not> is_space (hd (strip s))" by (metis hd_dropWhile)
  show "\<not> is_space (last (strip s))"
    using assms rstrip_while_last by (simp add: strip_def)
qed

lemma strip_empty_iff: "strip s = [] \<longleftrightarrow> (\<forall>c \<in> set s. is_space c)"
proof
  assume "strip s = []"
  then show "\<forall>c \<in> set s. is_space c" by (metis strip_decomp append_Nil set_append Un_iff)
next
  assume all: "\<forall>c \<in> set s. is_space c"
  show "strip s = []"
  proof (rule ccontr)
    assume ne: "strip s \<noteq> []"
    obtain l r where "s = l @ strip s @ r" by (rule strip_decomp)
    then have "hd (strip s) \<in> set s"
      using ne by (metis Un_iff hd_in_set set_append)
    with all strip_ends(1) [OF ne] show False by blast
  qed
qed

lemma set_strip: "set (strip s) \<subseteq> set s"
  by (metis strip_decomp set_append Un_iff subsetI)

lemma length_strip: "length (strip s) \<le> length s"
  by (metis strip_decomp length_append le_add1 le_add2 order_trans add.left_commute)

lemma strip_id: "s = [] \<or> \<not> is_space (hd s) \<and> \<not> is_space (last s) \<Longrightarrow> strip s = s"
proof -
  assume s: "s = [] \<or> \<not> is_space (hd s) \<and> \<not> is_space (last s)"
  then have "dropWhile is_space s = s" and "dropWhile is_space (rev s) = rev s"
    by (auto simp: dropWhile_eq_self_iff hd_rev)
  then show ?thesis by (simp add: strip_def rstrip_while_def)
qed

lemma strip_idem [simp]: "strip (strip s) = strip s"
  using strip_ends [of s] by (intro strip_id) auto

section \<open>Maximal runs: split() and findall\<close>

text \<open>
  \<open>runs P s\<close> is the list of maximal runs of code points satisfying \<open>P\<close>, in order: \<open>s.split()\<close> is
  the runs of non-space code points, \<open>re.findall(r"\w+", s)\<close> the runs of word characters.
\<close>

function runs :: "(nat \<Rightarrow> bool) \<Rightarrow> pystr \<Rightarrow> pystr list" where
  "runs P s = (case dropWhile (\<lambda>c. \<not> P c) s of
     [] \<Rightarrow> []
   | c # cs \<Rightarrow> (c # takeWhile P cs) # runs P (dropWhile P cs))"
  by pat_completeness auto
termination
proof (relation "measure (\<lambda>(P, s). length s)")
  fix P :: "nat \<Rightarrow> bool" and s c cs
  assume "dropWhile (\<lambda>c. \<not> P c) s = c # cs"
  then have "length (c # cs) \<le> length s" by (metis length_dropWhile_le)
  with length_dropWhile_le [of P cs]
  show "((P, dropWhile P cs), P, s) \<in> measure (\<lambda>(P, s). length s)" by simp
qed simp

declare runs.simps [simp del]

definition split_ws :: "pystr \<Rightarrow> pystr list" where
  "split_ws = runs (\<lambda>c. \<not> is_space c)"

lemma runs_stop: "dropWhile (\<lambda>c. \<not> P c) s = [] \<Longrightarrow> runs P s = []"
  by (subst runs.simps) (simp only: list.case)

lemma runs_step:
  "dropWhile (\<lambda>c. \<not> P c) s = c # cs \<Longrightarrow> runs P s = (c # takeWhile P cs) # runs P (dropWhile P cs)"
  by (subst runs.simps) (simp only: list.case)

lemma dropWhile_hd: "dropWhile (\<lambda>c. \<not> P c) s = c # cs \<Longrightarrow> P c"
  using hd_dropWhile [of "\<lambda>c. \<not> P c" s] by simp

lemma filter_dropWhile_not: "filter P (dropWhile (\<lambda>c. \<not> P c) s) = filter P s"
  by (induction s) auto

lemma takeWhile_filter_dropWhile: "takeWhile P s @ filter P (dropWhile P s) = filter P s"
  by (induction s) auto

lemma runs_words: "w \<in> set (runs P s) \<Longrightarrow> w \<noteq> [] \<and> (\<forall>c \<in> set w. P c)"
proof (induction P s rule: runs.induct)
  case (1 P s)
  show ?case
  proof (cases "dropWhile (\<lambda>c. \<not> P c) s")
    case Nil
    with "1.prems" show ?thesis by (simp add: runs_stop)
  next
    case (Cons c cs)
    from "1.prems" have "w = c # takeWhile P cs \<or> w \<in> set (runs P (dropWhile P cs))"
      unfolding runs_step [OF Cons] by simp
    then show ?thesis
    proof
      assume "w = c # takeWhile P cs"
      with dropWhile_hd [OF Cons] show ?thesis by (auto dest: set_takeWhileD)
    qed (rule "1.IH" [OF Cons])
  qed
qed

lemma concat_runs: "concat (runs P s) = filter P s"
proof (induction P s rule: runs.induct)
  case (1 P s)
  show ?case
  proof (cases "dropWhile (\<lambda>c. \<not> P c) s")
    case Nil
    then show ?thesis using filter_dropWhile_not [of P s] by (simp add: runs_stop)
  next
    case (Cons c cs)
    have "filter P s = filter P (c # cs)" using filter_dropWhile_not [of P s] Cons by simp
    also have "\<dots> = c # filter P cs" using dropWhile_hd [OF Cons] by simp
    finally show ?thesis
      by (simp add: runs_step [OF Cons] "1.IH" [OF Cons] takeWhile_filter_dropWhile)
  qed
qed

lemma runs_empty_iff: "runs P s = [] \<longleftrightarrow> (\<forall>c \<in> set s. \<not> P c)"
proof
  assume "runs P s = []"
  then have "filter P s = []" using concat_runs [of P s] by simp
  then show "\<forall>c \<in> set s. \<not> P c" by (simp add: filter_empty_conv)
next
  assume "\<forall>c \<in> set s. \<not> P c"
  then show "runs P s = []" by (intro runs_stop) (simp add: dropWhile_eq_Nil_conv)
qed

section \<open>join, split, partition, replace\<close>

fun join :: "pystr \<Rightarrow> pystr list \<Rightarrow> pystr" where
  "join sep [] = []"
| "join sep [w] = w"
| "join sep (w # ws) = w @ sep @ join sep ws"

lemma join_Cons: "ws \<noteq> [] \<Longrightarrow> join sep (w # ws) = w @ sep @ join sep ws"
  by (cases ws) simp_all

lemma set_join: "c \<in> set (join sep ws) \<Longrightarrow> c \<in> set sep \<or> (\<exists>w \<in> set ws. c \<in> set w)"
  by (induction sep ws rule: join.induct) auto

lemma join_empty_iff: "\<forall>w \<in> set ws. w \<noteq> [] \<Longrightarrow> join sep ws = [] \<longleftrightarrow> ws = []"
  by (induction sep ws rule: join.induct) auto

lemma join_hd: "ws \<noteq> [] \<Longrightarrow> hd ws \<noteq> [] \<Longrightarrow> hd (join sep ws) = hd (hd ws)"
  by (cases "(sep, ws)" rule: join.cases) (auto simp: hd_append)

lemma join_last: "ws \<noteq> [] \<Longrightarrow> \<forall>w \<in> set ws. w \<noteq> [] \<Longrightarrow> last (join sep ws) = last (last ws)"
  by (induction sep ws rule: join.induct) (auto simp: join_empty_iff)

lemma filter_join:
  "\<forall>c \<in> set sep. \<not> P c \<Longrightarrow> filter P (join sep ws) = filter P (concat ws)"
  by (induction sep ws rule: join.induct) auto

fun split_on :: "nat \<Rightarrow> pystr \<Rightarrow> pystr list" where
  "split_on c [] = [[]]"
| "split_on c (x # xs) = (if x = c then [] # split_on c xs
     else case split_on c xs of [] \<Rightarrow> [[x]] | p # ps \<Rightarrow> (x # p) # ps)"

lemma split_on_nonempty [simp]: "split_on c s \<noteq> []"
  by (cases s) (auto split: list.splits)

lemma join_split_on: "join [c] (split_on c s) = s"
proof (induction s)
  case (Cons x xs)
  obtain p ps where p: "split_on c xs = p # ps" by (cases "split_on c xs") auto
  with Cons have "join [c] (p # ps) = xs" by simp
  then show ?case using p by (cases ps) (auto simp: join_Cons)
qed simp

lemma split_on_no_sep: "p \<in> set (split_on c s) \<Longrightarrow> c \<notin> set p"
  by (induction s arbitrary: p) (auto split: list.splits if_splits)

lemma split_on_absent: "c \<notin> set s \<Longrightarrow> split_on c s = [s]"
  by (induction s) auto

lemma split_on_append: "c \<notin> set a \<Longrightarrow> split_on c (a @ c # b) = a # split_on c b"
  by (induction a) auto

text \<open>\<open>s.partition(c)\<close> and \<open>s.split(c, 1)\<close> for a single code point \<open>c\<close>.\<close>

definition before :: "nat \<Rightarrow> pystr \<Rightarrow> pystr" where
  "before c s = takeWhile (\<lambda>x. x \<noteq> c) s"

definition after :: "nat \<Rightarrow> pystr \<Rightarrow> pystr" where
  "after c s = drop 1 (dropWhile (\<lambda>x. x \<noteq> c) s)"

lemma before_append [simp]: "c \<notin> set a \<Longrightarrow> before c (a @ c # b) = a"
  by (induction a) (auto simp: before_def)

lemma after_append [simp]: "c \<notin> set a \<Longrightarrow> after c (a @ c # b) = b"
  by (induction a) (auto simp: after_def)

fun replace_crlf :: "pystr \<Rightarrow> pystr" where
  "replace_crlf [] = []"
| "replace_crlf (c # s) = (case s of [] \<Rightarrow> [c]
     | d # s' \<Rightarrow> if c = 13 \<and> d = 10 then 10 # replace_crlf s' else c # replace_crlf s)"

definition replace_char :: "nat \<Rightarrow> nat \<Rightarrow> pystr \<Rightarrow> pystr" where
  "replace_char a b s = map (\<lambda>c. if c = a then b else c) s"

definition startswith :: "pystr \<Rightarrow> pystr \<Rightarrow> bool" where
  "startswith p s \<longleftrightarrow> take (length p) s = p"

fun py_in :: "pystr \<Rightarrow> pystr \<Rightarrow> bool" where
  "py_in q [] = (q = [])"
| "py_in q (c # cs) = (startswith q (c # cs) \<or> py_in q cs)"

lemma startswith_append [simp]: "startswith p (p @ s)"
  by (simp add: startswith_def)

lemma startswith_iff: "startswith p s \<longleftrightarrow> (\<exists>t. s = p @ t)"
  by (metis startswith_def append_take_drop_id startswith_append)

lemma py_in_iff: "py_in q s \<longleftrightarrow> (\<exists>a b. s = a @ q @ b)"
proof (induction s)
  case (Cons c cs)
  have "(\<exists>a b. c # cs = a @ q @ b) \<longleftrightarrow> (\<exists>b. c # cs = q @ b) \<or> (\<exists>a b. cs = a @ q @ b)"
    by (metis append_Cons append_Nil list.inject neq_Nil_conv)
  with Cons show ?case by (simp add: startswith_iff)
qed auto

text \<open>\<open>s.rfind(c)\<close> for a single code point: the last position, or -1.\<close>

definition rfind :: "nat \<Rightarrow> pystr \<Rightarrow> int" where
  "rfind c s = (case dropWhile (\<lambda>x. x \<noteq> c) (rev s) of [] \<Rightarrow> -1 | _ # r \<Rightarrow> int (length r))"

lemma rfind_bounds: "rfind c s < int (length s)"
proof -
  have "length (dropWhile (\<lambda>x. x \<noteq> c) (rev s)) \<le> length s"
    using length_dropWhile_le [of "\<lambda>x. x \<noteq> c" "rev s"] by simp
  then show ?thesis by (auto simp: rfind_def split: list.splits)
qed

section \<open>The Unicode character database\<close>

record ucd =
  ucd_lower :: "pystr \<Rightarrow> pystr"
  ucd_word :: "nat \<Rightarrow> bool"
  ucd_digit :: "nat \<Rightarrow> nat option"

definition ascii_lower :: "pystr \<Rightarrow> pystr" where
  "ascii_lower s = map (\<lambda>c. if 65 \<le> c \<and> c \<le> 90 then c + 32 else c) s"

definition ascii_ucd :: ucd where
  "ascii_ucd = \<lparr> ucd_lower = ascii_lower,
     ucd_word = (\<lambda>c. (48 \<le> c \<and> c \<le> 57) \<or> (65 \<le> c \<and> c \<le> 90) \<or> (97 \<le> c \<and> c \<le> 122) \<or> c = 95),
     ucd_digit = (\<lambda>c. if 48 \<le> c \<and> c \<le> 57 then Some (c - 48) else None) \<rparr>"

text \<open>
  \<open>int(s)\<close> on a string of decimal digits; the interpreter refuses more than 4300 digits.
\<close>

definition digits_value :: "ucd \<Rightarrow> pystr \<Rightarrow> int" where
  "digits_value U s =
     foldl (\<lambda>n c. 10 * n + (case ucd_digit U c of None \<Rightarrow> 0 | Some d \<Rightarrow> int d)) 0 s"

definition int_of_digits :: "ucd \<Rightarrow> pystr \<Rightarrow> int res" where
  "int_of_digits U s = (if length s > 4300
     then Inl (ValueError (py ''Exceeds the limit (4300 digits) for integer string conversion: value has ''
       @ str_int (int (length s)) @ py '' digits; use sys.set_int_max_str_digits() to increase the limit''))
     else Inr (digits_value U s))"

text \<open>\<open>int(s)\<close>: surrounding space, a sign, and digits with single underscores between them.\<close>

fun int_groups :: "ucd \<Rightarrow> pystr list \<Rightarrow> pystr option" where
  "int_groups U [] = Some []"
| "int_groups U (g # gs) =
     (if g \<noteq> [] \<and> list_all (\<lambda>c. ucd_digit U c \<noteq> None) g then map_option ((@) g) (int_groups U gs) else None)"

definition int_of_str :: "ucd \<Rightarrow> pystr \<Rightarrow> int res" where
  "int_of_str U text =
     (let s = strip text; negative = (s \<noteq> [] \<and> hd s = 45);
          digits = (if s \<noteq> [] \<and> (hd s = 43 \<or> hd s = 45) then tl s else s)
      in case int_groups U (split_on 95 digits) of
           None \<Rightarrow> Inl (ValueError (py ''invalid literal for int() with base 10''))
         | Some ds \<Rightarrow> (case int_of_digits U ds of
             Inl e \<Rightarrow> Inl e | Inr n \<Rightarrow> Inr (if negative then - n else n)))"

end
