(* ===== verification/Security.thy ===== *)
theory Security
  imports PyStr
begin

text \<open>
  Roles and document security levels: \<open>auth/models.py\<close> (roles), \<open>documents/models.py\<close> (levels) and
  \<open>documents/security.py\<close>. Every document, search and chat operation of the backend goes through
  \<open>ensure_document_security_level_allowed\<close> or \<open>filter_document_security_levels_for_role\<close>.

  Results: both functions are characterised on every input (\<open>ensure_allowed_iff\<close>,
  \<open>filter_levels_Some_iff\<close>, \<open>filter_levels_None_iff\<close>), and a role other than admin never obtains
  an unrestricted or a confidential filter (\<open>filter_levels_non_admin\<close>).
\<close>

section \<open>Roles and levels\<close>

definition MEMBER_ROLE :: pystr where "MEMBER_ROLE = py ''member''"
definition ADMIN_ROLE :: pystr where "ADMIN_ROLE = py ''admin''"
definition SUPPORTED_ROLES :: "pystr list" where "SUPPORTED_ROLES = [MEMBER_ROLE, ADMIN_ROLE]"

definition GENERAL_SECURITY_LEVEL :: pystr where "GENERAL_SECURITY_LEVEL = py ''general''"
definition INTERNAL_SECURITY_LEVEL :: pystr where "INTERNAL_SECURITY_LEVEL = py ''internal''"
definition CONFIDENTIAL_SECURITY_LEVEL :: pystr where
  "CONFIDENTIAL_SECURITY_LEVEL = py ''confidential''"
definition RESTRICTED_SECURITY_LEVEL :: pystr where "RESTRICTED_SECURITY_LEVEL = py ''restricted''"

lemmas level_defs = GENERAL_SECURITY_LEVEL_def INTERNAL_SECURITY_LEVEL_def
  CONFIDENTIAL_SECURITY_LEVEL_def RESTRICTED_SECURITY_LEVEL_def

definition SUPPORTED_DOCUMENT_SECURITY_LEVELS :: "pystr list" where
  "SUPPORTED_DOCUMENT_SECURITY_LEVELS =
     [GENERAL_SECURITY_LEVEL, INTERNAL_SECURITY_LEVEL, CONFIDENTIAL_SECURITY_LEVEL,
      RESTRICTED_SECURITY_LEVEL]"

definition MEMBER_SECURITY_LEVELS :: "pystr list" where
  "MEMBER_SECURITY_LEVELS = [GENERAL_SECURITY_LEVEL, INTERNAL_SECURITY_LEVEL]"

definition ADMIN_SECURITY_LEVELS :: "pystr list" where
  "ADMIN_SECURITY_LEVELS =
     [GENERAL_SECURITY_LEVEL, INTERNAL_SECURITY_LEVEL, CONFIDENTIAL_SECURITY_LEVEL,
      RESTRICTED_SECURITY_LEVEL]"

lemmas levels_defs = SUPPORTED_DOCUMENT_SECURITY_LEVELS_def MEMBER_SECURITY_LEVELS_def
  ADMIN_SECURITY_LEVELS_def

section \<open>Validation\<close>

definition invalid_security_level :: exn where
  "invalid_security_level = HTTPException 400 (py ''DOCUMENT_INVALID_SECURITY_LEVEL'')
     (py ''Document security level must be general, internal, confidential, or restricted.'')"

definition normalize_security_level :: "pystr \<Rightarrow> pystr" where
  "normalize_security_level level = (if strip level = [] then INTERNAL_SECURITY_LEVEL else strip level)"

definition validate_document_security_level :: "pystr \<Rightarrow> pystr res" where
  "validate_document_security_level level =
     (let normalized = normalize_security_level level in
      if normalized \<notin> set SUPPORTED_DOCUMENT_SECURITY_LEVELS then Inl invalid_security_level
      else Inr normalized)"

fun validate_levels_loop :: "pystr list \<Rightarrow> pystr list \<Rightarrow> pystr list res" where
  "validate_levels_loop validated [] = Inr validated"
| "validate_levels_loop validated (level # levels) =
     (case validate_document_security_level level of
        Inl e \<Rightarrow> Inl e
      | Inr normalized \<Rightarrow>
          validate_levels_loop
            (if normalized \<notin> set validated then validated @ [normalized] else validated) levels)"

definition validate_document_security_levels :: "pystr list option \<Rightarrow> pystr list option res" where
  "validate_document_security_levels levels =
     (case levels of
        None \<Rightarrow> Inr None
      | Some ls \<Rightarrow>
          if ls = [] then Inr None
          else (case validate_levels_loop [] ls of Inl e \<Rightarrow> Inl e | Inr v \<Rightarrow> Inr (Some v)))"

section \<open>The policy\<close>

definition allowed_document_security_levels :: "pystr \<Rightarrow> pystr list" where
  "allowed_document_security_levels role =
     (if role = ADMIN_ROLE then ADMIN_SECURITY_LEVELS else MEMBER_SECURITY_LEVELS)"

definition ensure_document_security_level_allowed :: "pystr \<Rightarrow> pystr \<Rightarrow> unit res" where
  "ensure_document_security_level_allowed role level =
     (case validate_document_security_level level of
        Inl e \<Rightarrow> Inl e
      | Inr validated \<Rightarrow>
          if validated \<notin> set (allowed_document_security_levels role)
          then Inl (DocumentSecurityPermissionError
            (py ''Role '' @ role @ py '' cannot access document security level: '' @ validated))
          else Inr ())"

definition filter_document_security_levels_for_role ::
  "pystr \<Rightarrow> pystr list option \<Rightarrow> pystr list option res" where
  "filter_document_security_levels_for_role role requested =
     (case validate_document_security_levels requested of
        Inl e \<Rightarrow> Inl e
      | Inr validated \<Rightarrow>
          if role = ADMIN_ROLE \<and> validated = None then Inr None
          else (let allowed = allowed_document_security_levels role in
            case validated of
              None \<Rightarrow> Inr (Some allowed)
            | Some levels \<Rightarrow>
                (let disallowed = filter (\<lambda>level. level \<notin> set allowed) levels in
                 if disallowed \<noteq> [] then Inl (DocumentSecurityPermissionError
                   (py ''Requested document security levels are not allowed for this role.''))
                 else Inr (Some levels))))"

section \<open>Facts about validation\<close>

lemma validate_level_Inr_iff:
  "validate_document_security_level level = Inr l \<longleftrightarrow>
     l = normalize_security_level level \<and> l \<in> set SUPPORTED_DOCUMENT_SECURITY_LEVELS"
  by (auto simp: validate_document_security_level_def Let_def)

lemma validate_level_Inl_iff:
  "validate_document_security_level level = Inl e \<longleftrightarrow>
     e = invalid_security_level
     \<and> normalize_security_level level \<notin> set SUPPORTED_DOCUMENT_SECURITY_LEVELS"
  by (auto simp: validate_document_security_level_def Let_def)

lemma normalize_supported:
  "l \<in> set SUPPORTED_DOCUMENT_SECURITY_LEVELS \<Longrightarrow> normalize_security_level l = l"
proof -
  have "\<forall>l \<in> set SUPPORTED_DOCUMENT_SECURITY_LEVELS. normalize_security_level l = l" by code_simp
  then show "l \<in> set SUPPORTED_DOCUMENT_SECURITY_LEVELS \<Longrightarrow> ?thesis" by blast
qed

text \<open>The accumulating loop returns the first occurrences of the normalised levels.\<close>

definition first_occurrences :: "'a list \<Rightarrow> 'a list" where
  "first_occurrences xs = rev (remdups (rev xs))"

lemma set_first_occurrences [simp]: "set (first_occurrences xs) = set xs"
  by (simp add: first_occurrences_def)

lemma distinct_first_occurrences [simp]: "distinct (first_occurrences xs)"
  by (simp add: first_occurrences_def)

lemma first_occurrences_empty_iff [simp]: "first_occurrences xs = [] \<longleftrightarrow> xs = []"
  by (simp add: first_occurrences_def)

lemma first_occurrences_snoc:
  "first_occurrences (xs @ [x]) =
     (if x \<in> set xs then first_occurrences xs else first_occurrences xs @ [x])"
  by (simp add: first_occurrences_def)

lemma validate_levels_loop_eq:
  "validate_levels_loop (first_occurrences (map normalize_security_level done_levels)) ls =
     (if \<forall>l \<in> set ls. normalize_security_level l \<in> set SUPPORTED_DOCUMENT_SECURITY_LEVELS
      then Inr (first_occurrences (map normalize_security_level (done_levels @ ls)))
      else Inl invalid_security_level)"
proof (induction ls arbitrary: done_levels)
  case (Cons l ls)
  show ?case
  proof (cases "validate_document_security_level l")
    case (Inl e)
    from validate_level_Inl_iff [THEN iffD1, OF Inl] Inl show ?thesis by simp
  next
    case (Inr n)
    have "validate_levels_loop (first_occurrences (map normalize_security_level done_levels)) (l # ls)
      = validate_levels_loop (first_occurrences (map normalize_security_level (done_levels @ [l]))) ls"
      using validate_level_Inr_iff [THEN iffD1, OF Inr] by (auto simp: Inr first_occurrences_snoc)
    moreover have "normalize_security_level l \<in> set SUPPORTED_DOCUMENT_SECURITY_LEVELS"
      using validate_level_Inr_iff [THEN iffD1, OF Inr] by blast
    ultimately show ?thesis by (simp only: Cons.IH) simp
  qed
qed simp

lemma validate_levels_eq:
  "ls \<noteq> [] \<Longrightarrow> validate_document_security_levels (Some ls) =
     (if \<forall>l \<in> set ls. normalize_security_level l \<in> set SUPPORTED_DOCUMENT_SECURITY_LEVELS
      then Inr (Some (first_occurrences (map normalize_security_level ls)))
      else Inl invalid_security_level)"
  using validate_levels_loop_eq [of "[]" ls]
  by (auto simp: validate_document_security_levels_def first_occurrences_def)

lemma validate_levels_untruthy: "\<not> truthy req \<Longrightarrow> validate_document_security_levels req = Inr None"
  by (cases req) (simp_all add: validate_document_security_levels_def)

section \<open>Facts about the policy\<close>

lemma allowed_subset_supported:
  "set (allowed_document_security_levels role) \<subseteq> set SUPPORTED_DOCUMENT_SECURITY_LEVELS"
  by (auto simp: allowed_document_security_levels_def levels_defs)

lemma allowed_nonempty [simp]: "allowed_document_security_levels role \<noteq> []"
  by (simp add: allowed_document_security_levels_def levels_defs)

lemma allowed_admin: "set (allowed_document_security_levels ADMIN_ROLE) = set SUPPORTED_DOCUMENT_SECURITY_LEVELS"
  by (simp add: allowed_document_security_levels_def levels_defs)

lemma allowed_non_admin:
  "role \<noteq> ADMIN_ROLE \<Longrightarrow> set (allowed_document_security_levels role) =
     {GENERAL_SECURITY_LEVEL, INTERNAL_SECURITY_LEVEL}"
  by (simp add: allowed_document_security_levels_def levels_defs)

lemma ensure_allowed_iff:
  "ensure_document_security_level_allowed role level = Inr () \<longleftrightarrow>
     normalize_security_level level \<in> set (allowed_document_security_levels role)"
  using allowed_subset_supported [of role]
  by (auto simp: ensure_document_security_level_allowed_def validate_level_Inr_iff
      validate_level_Inl_iff split: sum.splits)

lemma ensure_allowed_errors:
  "ensure_document_security_level_allowed role level = Inl e \<Longrightarrow>
     e = invalid_security_level \<or> (\<exists>m. e = DocumentSecurityPermissionError m)"
  by (auto simp: ensure_document_security_level_allowed_def validate_level_Inl_iff
      split: sum.splits if_splits)

lemma filter_levels_None_iff:
  "filter_document_security_levels_for_role role req = Inr None \<longleftrightarrow> role = ADMIN_ROLE \<and> \<not> truthy req"
  by (cases "truthy req")
    (auto elim!: truthyE simp: filter_document_security_levels_for_role_def Let_def
      validate_levels_eq validate_levels_untruthy split: sum.splits option.splits if_splits)

lemma filter_levels_requested:
  assumes "ls \<noteq> []"
  shows "filter_document_security_levels_for_role role (Some ls) =
    (if \<exists>l \<in> set ls. normalize_security_level l \<notin> set SUPPORTED_DOCUMENT_SECURITY_LEVELS
     then Inl invalid_security_level
     else if \<exists>l \<in> set ls. normalize_security_level l \<notin> set (allowed_document_security_levels role)
     then Inl (DocumentSecurityPermissionError
       (py ''Requested document security levels are not allowed for this role.''))
     else Inr (Some (first_occurrences (map normalize_security_level ls))))"
  using assms
  by (auto simp: filter_document_security_levels_for_role_def validate_levels_eq Let_def
      filter_empty_conv)

lemma filter_levels_unrequested:
  "\<not> truthy req \<Longrightarrow> filter_document_security_levels_for_role role req =
     (if role = ADMIN_ROLE then Inr None else Inr (Some (allowed_document_security_levels role)))"
  by (simp add: filter_document_security_levels_for_role_def validate_levels_untruthy Let_def)

text \<open>What a filter that was granted to a role lets through.\<close>

lemma filter_levels_sound:
  assumes "filter_document_security_levels_for_role role req = Inr (Some levels)"
  shows "levels \<noteq> [] \<and> set levels \<subseteq> set (allowed_document_security_levels role)"
proof (cases "truthy req")
  case True
  then obtain ls where ls: "req = Some ls" "ls \<noteq> []" by (rule truthyE)
  with assms have "levels = first_occurrences (map normalize_security_level ls)"
    and "\<forall>l \<in> set ls. normalize_security_level l \<in> set (allowed_document_security_levels role)"
    by (auto simp: filter_levels_requested split: if_splits)
  with ls show ?thesis by auto
next
  case False
  with assms show ?thesis by (auto simp: filter_levels_unrequested split: if_splits)
qed

lemma filter_levels_non_admin:
  assumes "role \<noteq> ADMIN_ROLE" and "filter_document_security_levels_for_role role req = Inr r"
  shows "\<exists>levels. r = Some levels \<and> levels \<noteq> []
    \<and> set levels \<subseteq> {GENERAL_SECURITY_LEVEL, INTERNAL_SECURITY_LEVEL}"
proof (cases r)
  case None
  with assms show ?thesis by (simp add: filter_levels_None_iff)
next
  case (Some levels)
  with assms filter_levels_sound [of role req levels] show ?thesis
    by (simp add: allowed_non_admin)
qed

end
