(* ===== verification/Auth_Models.thy ===== *)
theory Auth_Models
  imports Security
begin

text \<open>
  \<open>auth/models.py\<close>: API key records, user records and the workspace context that every protected
  operation of the backend receives.
\<close>

record api_key_record =
  ak_api_key :: pystr
  ak_workspace_id :: pystr
  ak_workspace_name :: pystr
  ak_role :: pystr

record user_record =
  us_employee_id :: pystr
  us_password_hash :: pystr
  us_workspace_id :: pystr
  us_workspace_name :: pystr
  us_role :: pystr
  us_display_name :: "pystr option"

record workspace_context =
  wc_request_id :: pystr
  wc_workspace_id :: pystr
  wc_workspace_name :: pystr
  wc_role :: pystr
  wc_employee_id :: "pystr option"
  wc_display_name :: "pystr option"

end
