(* ===== verification/Events.thy ===== *)
theory Events
  imports PyStr
begin

text \<open>
  \<open>core/operation_events.py\<close>: the operation events shown to administrators and the bounded
  in-memory store that keeps the newest \<open>max_events\<close> of them. The \<open>event_id\<close> and the
  \<open>occurred_at\<close> of an event are generated when it is built and are read by no operation; they are
  left out of the record.

  The protocol \<open>OperationEventStore\<close> is the record of functions \<open>event_store\<close> with the locale
  \<open>operation_event_store\<close>; the store is a window on the history of recorded events.
\<close>

datatype severity = Info | Warning | Error

record operation_event =
  ev_event_type :: pystr
  ev_severity :: severity
  ev_source :: pystr
  ev_message :: pystr
  ev_details :: "(pystr \<times> pystr) list"

record 's event_store =
  es_record :: "operation_event \<Rightarrow> 's \<Rightarrow> 's"
  es_list :: "int \<Rightarrow> 's \<Rightarrow> operation_event list"

text \<open>
  The contract: \<open>kept s\<close> are the stored events, oldest first, at most \<open>cap\<close> of them; recording
  appends and drops the oldest above the bound; listing shows the newest first.
\<close>

locale operation_event_store =
  fixes st :: "'s event_store" and kept :: "'s \<Rightarrow> operation_event list" and cap :: "'s \<Rightarrow> nat"
  assumes kept_record: "0 < cap s \<Longrightarrow> length (kept s) \<le> cap s \<Longrightarrow> kept (es_record st e s) =
      drop (Suc (length (kept s)) - cap s) (kept s @ [e])"
    and cap_record: "cap (es_record st e s) = cap s"
    and list_kept: "0 < k \<Longrightarrow> es_list st k s = take (nat k) (rev (kept s))"
begin

lemma newest_first: "0 < cap s \<Longrightarrow> length (kept s) \<le> cap s \<Longrightarrow> 0 < k \<Longrightarrow>
    \<exists>older. es_list st k (es_record st e s) = e # older"
  by (cases "nat k") (auto simp: list_kept kept_record)

lemma bounded_record: "0 < cap s \<Longrightarrow> length (kept s) \<le> cap s \<Longrightarrow> length (kept (es_record st e s)) \<le> cap s"
  by (simp add: kept_record)

text \<open>Recording a sequence of events keeps its newest \<open>cap\<close> elements.\<close>

lemma kept_run:
  assumes "0 < cap s" "kept s = []"
  shows "kept (fold (es_record st) es s) = drop (length es - cap s) es \<and> cap (fold (es_record st) es s) = cap s"
proof (induction es rule: rev_induct)
  case Nil
  with assms show ?case by simp
next
  case (snoc e es)
  let ?s = "fold (es_record st) es s"
  have IH: "kept ?s = drop (length es - cap s) es" "cap ?s = cap s" using snoc by simp_all
  then have len: "length (kept ?s) = min (length es) (cap s)" by simp
  have "kept (es_record st e ?s) = drop (Suc (length (kept ?s)) - cap s) (kept ?s @ [e])"
    using kept_record [of ?s e] IH(2) assms(1) len by simp
  also have "\<dots> = drop (length (es @ [e]) - cap s) (es @ [e])"
    using IH(1) len assms(1) by (cases "length es < cap s") (simp_all add: min_def Suc_diff_le)
  finally show ?case by (simp add: cap_record IH(2))
qed

end

section \<open>InMemoryOperationEventStore\<close>

record mem_events =
  me_max_events :: int
  me_events :: "operation_event list"

definition new_event_store :: "int \<Rightarrow> mem_events" where
  "new_event_store max_events = \<lparr> me_max_events = max_events, me_events = [] \<rparr>"

definition mem_record_event :: "operation_event \<Rightarrow> mem_events \<Rightarrow> mem_events" where
  "mem_record_event e s =
     (let events = me_events s @ [e] in
      s\<lparr> me_events := (if me_max_events s < int (length events)
           then slice_from (- me_max_events s) events else events) \<rparr>)"

definition mem_list_events :: "int \<Rightarrow> mem_events \<Rightarrow> operation_event list" where
  "mem_list_events limit s = rev (slice_from (- limit) (me_events s))"

definition mem_event_store :: "mem_events event_store" where
  "mem_event_store = \<lparr> es_record = mem_record_event, es_list = mem_list_events \<rparr>"

lemma slice_from_neg: "0 < k \<Longrightarrow> slice_from (- k) xs = drop (length xs - nat k) xs"
proof -
  assume "0 < k"
  then have "nat (int (length xs) - k) = length xs - nat k" by arith
  with \<open>0 < k\<close> show ?thesis by (simp add: slice_from_def)
qed

interpretation mem_events: operation_event_store mem_event_store me_events "\<lambda>s. nat (me_max_events s)"
proof unfold_locales
  fix s :: mem_events and e
  assume "0 < nat (me_max_events s)" "length (me_events s) \<le> nat (me_max_events s)"
  then show "me_events (es_record mem_event_store e s) =
      drop (Suc (length (me_events s)) - nat (me_max_events s)) (me_events s @ [e])"
    by (auto simp: mem_event_store_def mem_record_event_def Let_def slice_from_neg)
next
  fix s :: mem_events and e
  show "nat (me_max_events (es_record mem_event_store e s)) = nat (me_max_events s)"
    by (simp add: mem_event_store_def mem_record_event_def Let_def)
next
  fix k :: int and s :: mem_events
  assume "0 < k"
  then show "es_list mem_event_store k s = take (nat k) (rev (me_events s))"
    by (cases "nat k \<le> length (me_events s)")
      (simp_all add: mem_event_store_def mem_list_events_def slice_from_neg rev_drop)
qed

end
