(* ===== verification/Jobs_Base.thy ===== *)
theory Jobs_Base
  imports Events
begin

text \<open>
  \<open>jobs/base.py\<close>: the indexing job, the result of dispatching one, and the protocol \<open>JobQueue\<close> as
  a locale. Both queues of the backend are interpreted in theory Queues.
\<close>

datatype job_status = Queued | Processing | Completed | Failed

fun status_str :: "job_status \<Rightarrow> pystr" where
  "status_str Queued = py ''queued''"
| "status_str Processing = py ''processing''"
| "status_str Completed = py ''completed''"
| "status_str Failed = py ''failed''"

lemma status_str_inj [simp]: "status_str a = status_str b \<longleftrightarrow> a = b"
  by (cases a; cases b) simp_all

record index_job =
  job_id :: pystr
  job_workspace_id :: pystr
  job_workspace_name :: pystr
  job_document_id :: pystr
  job_filename :: pystr
  job_content_type :: pystr
  job_storage_key :: pystr
  job_uploaded_by_employee_id :: "pystr option"
  job_security_level :: pystr
  job_attempt :: int
  job_max_attempts :: int

record dispatch_result =
  dr_job_id :: pystr
  dr_status :: job_status
  dr_chunk_count :: int
  dr_failure_reason :: "pystr option"

text \<open>
  \<open>enqueue\<close> never raises: a failure is a result. The result carries the job's identifier; it is
  \<open>Failed\<close> exactly when it has a reason, and then no chunk was indexed.
\<close>

locale job_queue =
  fixes enqueue :: "index_job \<Rightarrow> 's \<Rightarrow> dispatch_result \<times> 's"
  assumes dispatch_id: "dr_job_id (fst (enqueue j s)) = job_id j"
    and dispatch_failed: "dr_status (fst (enqueue j s)) = Failed \<longleftrightarrow> dr_failure_reason (fst (enqueue j s)) \<noteq> None"
    and dispatch_failed_count: "dr_status (fst (enqueue j s)) = Failed \<Longrightarrow> dr_chunk_count (fst (enqueue j s)) = 0"
    and dispatch_not_processing: "dr_status (fst (enqueue j s)) \<noteq> Processing"
begin

lemma dispatch_ok_no_reason:
  "dr_status (fst (enqueue j s)) \<noteq> Failed \<Longrightarrow> dr_failure_reason (fst (enqueue j s)) = None"
  by (simp add: dispatch_failed)

end

text \<open>The details both the queue and the worker attach to an event about a job.\<close>

definition job_details :: "index_job \<Rightarrow> (pystr \<times> pystr) list" where
  "job_details j = [(py ''job_id'', job_id j), (py ''workspace_id'', job_workspace_id j),
     (py ''document_id'', job_document_id j), (py ''filename'', job_filename j)]"

end
