(* ===== verification/PyFloat.thy ===== *)
theory PyFloat
  imports Prelude Complex_Main
begin

text \<open>
  Python floats. A finite binary64 number is a rational; each arithmetic operation returns the
  exact result rounded to 53 significant bits, ties to even (\<open>fl64\<close>), and \<open>round(x, 6)\<close> rounds the
  exact value of \<open>x\<close> to six decimals, ties to even, and then to the nearest float. Infinities,
  NaN, signed zeros, overflow and subnormal numbers are outside the model: the floats of the
  backend are relevance scores, weights and seconds.

  The clients only use that rounding is monotone and keeps 0 and 1: the locale
  \<open>float_rounding\<close>, interpreted below on \<open>fl64\<close>.
\<close>

type_synonym pyfloat = rat

section \<open>Rounding to an integer, ties to even\<close>

definition rhe :: "rat \<Rightarrow> int" where
  "rhe x = (let f = \<lfloor>x\<rfloor>; d = x - of_int f in
     if d < 1 / 2 then f else if 1 / 2 < d then f + 1 else if even f then f else f + 1)"

lemma rhe_of_int [simp]: "rhe (of_int n) = n"
  by (simp add: rhe_def)

lemma rhe_numeral [simp]: "rhe (numeral n) = numeral n"
  using rhe_of_int [of "numeral n"] by simp

lemma rhe_floor: "\<lfloor>x\<rfloor> \<le> rhe x \<and> rhe x \<le> \<lfloor>x\<rfloor> + 1"
  by (simp add: rhe_def Let_def)

lemma rhe_mono:
  assumes "x \<le> y"
  shows "rhe x \<le> rhe y"
proof (cases "\<lfloor>x\<rfloor> = \<lfloor>y\<rfloor>")
  case True
  then have "x - of_int \<lfloor>y\<rfloor> \<le> y - of_int \<lfloor>y\<rfloor>" using assms by simp
  with True show ?thesis by (auto simp: rhe_def Let_def)
next
  case False
  with floor_mono [OF assms] have "\<lfloor>x\<rfloor> + 1 \<le> \<lfloor>y\<rfloor>" by simp
  with rhe_floor [of x] rhe_floor [of y] show ?thesis by linarith
qed

section \<open>The binade of a positive rational\<close>

fun nlog2 :: "nat \<Rightarrow> nat" where
  "nlog2 n = (if n < 2 then 0 else Suc (nlog2 (n div 2)))"

declare nlog2.simps [simp del]

lemma nlog2_bounds: "0 < n \<Longrightarrow> 2 ^ nlog2 n \<le> n \<and> n < 2 ^ Suc (nlog2 n)"
proof (induction n rule: nlog2.induct)
  case (1 n)
  show ?case
  proof (cases "n < 2")
    case True
    with "1.prems" show ?thesis by (simp add: nlog2.simps [of n])
  next
    case False
    then have "2 ^ nlog2 (n div 2) \<le> n div 2 \<and> n div 2 < 2 ^ Suc (nlog2 (n div 2))"
      using "1.IH" by simp
    then have "2 * 2 ^ nlog2 (n div 2) \<le> n \<and> n < 2 * 2 ^ Suc (nlog2 (n div 2))" by linarith
    with False show ?thesis by (simp add: nlog2.simps [of n])
  qed
qed

abbreviation two_powi :: "int \<Rightarrow> rat" where
  "two_powi k \<equiv> 2 powi k"

definition ilog2 :: "rat \<Rightarrow> int" where
  "ilog2 x = (let (p, q) = quotient_of x; k = int (nlog2 (nat p)) - int (nlog2 (nat q)) in
     if two_powi k \<le> x then k else k - 1)"

lemma two_powi_pos [simp]: "0 < two_powi k"
  by simp

lemma two_powi_Suc: "two_powi (k + 1) = 2 * two_powi k"
  by (simp add: power_int_add)

lemma two_powi_mono: "j \<le> k \<Longrightarrow> two_powi j \<le> two_powi k"
  by (rule power_int_increasing) simp_all

lemma ilog2_bounds:
  assumes "0 < x"
  shows "two_powi (ilog2 x) \<le> x" and "x < two_powi (ilog2 x + 1)"
proof -
  obtain p q where pq: "quotient_of x = (p, q)" by (cases "quotient_of x")
  have q: "0 < q" using quotient_of_denom_pos [OF pq] .
  have x: "x = of_int p / of_int q" using quotient_of_div [OF pq] .
  with assms q have p: "0 < p" by (simp add: zero_less_divide_iff)
  define a b where "a = nlog2 (nat p)" and "b = nlog2 (nat q)"
  let ?k = "int a - int b"
  have "2 ^ a \<le> nat p \<and> nat p < 2 ^ Suc a" and "2 ^ b \<le> nat q \<and> nat q < 2 ^ Suc b"
    using p q nlog2_bounds [of "nat p"] nlog2_bounds [of "nat q"] by (simp_all add: a_def b_def)
  then have nats: "int (2 ^ a) \<le> p" "p < int (2 ^ Suc a)" "int (2 ^ b) \<le> q" "q < int (2 ^ Suc b)"
    using p q by (simp_all add: le_nat_iff nat_less_iff)
  have rp: "2 ^ a \<le> (of_int p :: rat)" "(of_int p :: rat) < 2 ^ Suc a"
    using nats(1,2) by (metis of_int_le_iff of_int_of_nat_eq of_nat_numeral of_nat_power,
      metis of_int_less_iff of_int_of_nat_eq of_nat_numeral of_nat_power)
  have rq: "2 ^ b \<le> (of_int q :: rat)" "(of_int q :: rat) < 2 ^ Suc b"
    using nats(3,4) by (metis of_int_le_iff of_int_of_nat_eq of_nat_numeral of_nat_power,
      metis of_int_less_iff of_int_of_nat_eq of_nat_numeral of_nat_power)
  have k: "two_powi ?k = 2 ^ a / 2 ^ b" by (simp add: power_int_diff)
  have up: "x < two_powi (?k + 1)"
  proof -
    have "of_int p / of_int q < (2 ^ Suc a / 2 ^ b :: rat)"
      using rp rq q p by (intro frac_less) auto
    then show ?thesis by (simp add: x two_powi_Suc k)
  qed
  have lo: "two_powi (?k - 1) \<le> x"
  proof -
    have "(2 ^ a / 2 ^ Suc b :: rat) \<le> of_int p / of_int q"
      using rp rq q p by (intro frac_le) auto
    then show ?thesis by (simp add: x power_int_diff k)
  qed
  show "two_powi (ilog2 x) \<le> x" and "x < two_powi (ilog2 x + 1)"
    using up lo by (auto simp: ilog2_def pq a_def [symmetric] b_def [symmetric] Let_def)
qed

lemma ilog2_mono:
  assumes "0 < x" "x \<le> y"
  shows "ilog2 x \<le> ilog2 y"
proof (rule ccontr)
  assume "\<not> ilog2 x \<le> ilog2 y"
  then have "two_powi (ilog2 y + 1) \<le> two_powi (ilog2 x)" by (intro two_powi_mono) simp
  with ilog2_bounds(1) [of x] ilog2_bounds(2) [of y] assms show False by simp
qed

section \<open>Rounding to binary64\<close>

definition fl_pos :: "rat \<Rightarrow> rat" where
  "fl_pos x = (let u = two_powi (ilog2 x - 52) in of_int (rhe (x / u)) * u)"

definition fl64 :: "rat \<Rightarrow> pyfloat" where
  "fl64 x = (if x = 0 then 0 else if 0 < x then fl_pos x else - fl_pos (- x))"

lemma fl_pos_le:
  assumes "0 < x" and "x \<le> two_powi (ilog2 x + 1)"
  shows "fl_pos x \<le> two_powi (ilog2 x + 1)"
proof -
  let ?u = "two_powi (ilog2 x - 52)"
  have top: "two_powi (ilog2 x + 1) = of_int (2 ^ 53) * ?u"
    using power_int_add [of "2::rat" 53 "ilog2 x - 52"] by (simp add: add.commute)
  have "x / ?u \<le> of_int (2 ^ 53)" using assms(2) top by (simp add: divide_le_eq)
  from rhe_mono [OF this] have "rhe (x / ?u) \<le> 2 ^ 53" by simp
  then have "of_int (rhe (x / ?u)) \<le> (of_int (2 ^ 53) :: rat)" by (simp only: of_int_le_iff)
  then have "of_int (rhe (x / ?u)) * ?u \<le> of_int (2 ^ 53) * ?u"
    by (rule mult_right_mono) simp
  then show ?thesis by (simp add: fl_pos_def Let_def top)
qed

lemma fl_pos_ge:
  assumes "0 < x"
  shows "two_powi (ilog2 x) \<le> fl_pos x"
proof -
  let ?u = "two_powi (ilog2 x - 52)"
  have bot: "two_powi (ilog2 x) = of_int (2 ^ 52) * ?u"
    using power_int_add [of "2::rat" 52 "ilog2 x - 52"] by simp
  have "of_int (2 ^ 52) \<le> x / ?u"
    using ilog2_bounds(1) [OF assms] bot by (simp add: le_divide_eq)
  from rhe_mono [OF this] have "2 ^ 52 \<le> rhe (x / ?u)" by simp
  then have "(of_int (2 ^ 52) :: rat) \<le> of_int (rhe (x / ?u))" by (simp only: of_int_le_iff)
  then have "of_int (2 ^ 52) * ?u \<le> of_int (rhe (x / ?u)) * ?u"
    by (rule mult_right_mono) simp
  then show ?thesis by (simp add: fl_pos_def Let_def bot)
qed

lemma fl_pos_mono:
  assumes "0 < x" "x \<le> y"
  shows "fl_pos x \<le> fl_pos y"
proof (cases "ilog2 x = ilog2 y")
  case True
  let ?u = "two_powi (ilog2 y - 52)"
  have "rhe (x / ?u) \<le> rhe (y / ?u)" using assms by (intro rhe_mono divide_right_mono) auto
  with True show ?thesis by (simp add: fl_pos_def Let_def)
next
  case False
  with ilog2_mono [OF assms] have "ilog2 x + 1 \<le> ilog2 y" by simp
  then have "two_powi (ilog2 x + 1) \<le> two_powi (ilog2 y)" by (rule two_powi_mono)
  with fl_pos_le [of x] fl_pos_ge [of y] ilog2_bounds(2) [of x] assms show ?thesis by simp
qed

lemma fl_pos_pos: "0 < x \<Longrightarrow> 0 < fl_pos x"
  using fl_pos_ge [of x] two_powi_pos [of "ilog2 x"] by (rule less_le_trans [rotated])

lemma fl64_mono: "x \<le> y \<Longrightarrow> fl64 x \<le> fl64 y"
  using fl_pos_mono [of x y] fl_pos_mono [of "- y" "- x"] fl_pos_pos [of y] fl_pos_pos [of "- x"]
  by (auto simp: fl64_def)

lemma fl64_0 [simp]: "fl64 0 = 0"
  by (simp add: fl64_def)

lemma fl64_1 [simp]: "fl64 1 = 1"
proof -
  have "ilog2 1 = 0" by code_simp
  then show ?thesis by (simp add: fl64_def fl_pos_def rhe_def power_int_minus)
qed

section \<open>The operations on floats\<close>

definition fadd :: "pyfloat \<Rightarrow> pyfloat \<Rightarrow> pyfloat" where "fadd a b = fl64 (a + b)"
definition fsub :: "pyfloat \<Rightarrow> pyfloat \<Rightarrow> pyfloat" where "fsub a b = fl64 (a - b)"
definition fmul :: "pyfloat \<Rightarrow> pyfloat \<Rightarrow> pyfloat" where "fmul a b = fl64 (a * b)"
definition idiv :: "int \<Rightarrow> int \<Rightarrow> pyfloat" where "idiv a b = fl64 (of_int a / of_int b)"

text \<open>\<open>round(x, 6)\<close> and \<open>math.ceil\<close>.\<close>

definition round6 :: "pyfloat \<Rightarrow> pyfloat" where
  "round6 x = fl64 (of_int (rhe (x * 10 ^ 6)) / 10 ^ 6)"

section \<open>The interface: a monotone rounding that keeps 0 and 1\<close>

locale float_rounding =
  fixes fl :: "rat \<Rightarrow> rat"
  assumes mono: "x \<le> y \<Longrightarrow> fl x \<le> fl y"
    and zero: "fl 0 = 0"
    and one: "fl 1 = 1"
begin

lemma nonneg: "0 \<le> x \<Longrightarrow> 0 \<le> fl x"
  using mono [of 0 x] zero by simp

lemma le_one: "x \<le> 1 \<Longrightarrow> fl x \<le> 1"
  using mono [of x 1] one by simp

lemma nonpos: "x \<le> 0 \<Longrightarrow> fl x \<le> 0"
  using mono [of x 0] zero by simp

lemma sub_mono: "a \<le> b \<Longrightarrow> fl (a - c) \<le> fl (b - c)"
  by (intro mono) simp

lemma unit_quotient: "0 \<le> a \<Longrightarrow> a \<le> b \<Longrightarrow> 0 \<le> fl (of_int a / of_int b) \<and> fl (of_int a / of_int b) \<le> 1"
  by (intro conjI nonneg le_one) (auto simp: divide_le_eq)

lemma mul_nonneg: "0 \<le> a \<Longrightarrow> 0 \<le> b \<Longrightarrow> 0 \<le> fl (a * b)"
  by (intro nonneg) simp

lemma add_nonneg: "0 \<le> a \<Longrightarrow> 0 \<le> b \<Longrightarrow> 0 \<le> fl (a + b)"
  by (intro nonneg) simp

end

interpretation fl64: float_rounding fl64
  by unfold_locales (simp_all add: fl64_mono)

lemma idiv_unit: "0 \<le> a \<Longrightarrow> a \<le> b \<Longrightarrow> 0 \<le> idiv a b \<and> idiv a b \<le> 1"
  unfolding idiv_def by (rule fl64.unit_quotient)

lemma fsub_mono: "a \<le> b \<Longrightarrow> fsub a c \<le> fsub b c"
  unfolding fsub_def by (rule fl64.sub_mono)

text \<open>\<open>int(x)\<close> of a float truncates towards zero.\<close>

definition trunc :: "pyfloat \<Rightarrow> int" where
  "trunc x = (if 0 \<le> x then \<lfloor>x\<rfloor> else - \<lfloor>- x\<rfloor>)"

lemma trunc_mono: "x \<le> y \<Longrightarrow> trunc x \<le> trunc y"
proof -
  assume xy: "x \<le> y"
  then have "\<lfloor>x\<rfloor> \<le> \<lfloor>y\<rfloor>" "\<lfloor>- y\<rfloor> \<le> \<lfloor>- x\<rfloor>" by (simp_all add: floor_mono)
  moreover have "- \<lfloor>- x\<rfloor> \<le> \<lfloor>y\<rfloor>" if "x < 0" "0 \<le> y"
  proof -
    from that have "0 \<le> \<lfloor>- x\<rfloor>" "0 \<le> \<lfloor>y\<rfloor>" by simp_all
    then show ?thesis by linarith
  qed
  ultimately show "trunc x \<le> trunc y" using xy by (auto simp: trunc_def)
qed

end
