(* ===== verification/Vector_Store.thy ===== *)
theory Vector_Store
  imports Jobs_Base PyFloat
begin

text \<open>
  \<open>retrieval/filters.py\<close> and \<open>retrieval/qdrant_store.py\<close>: the retrieval filter, its translation
  into a Qdrant filter, and the vector store over a Qdrant client.

  The Qdrant server and its client library are not part of the repository: the client is the
  record of functions \<open>qdrant\<close>, an argument of the definitions. What the code relies on is
  \<open>qdrant_ok\<close>: a query and a scroll return stored points that match the filter, at most \<open>limit\<close>
  of them; an upsert replaces points by identifier; a delete removes the matching points. The
  meaning of a filter is the documented one: every \<open>must\<close> condition holds and, when \<open>should\<close> is
  given and not empty, one of its conditions holds.
\<close>

section \<open>Filters\<close>

record retrieval_filter =
  rf_workspace_id :: pystr
  rf_document_ids :: "pystr list option"
  rf_security_levels :: "pystr list option"

datatype qfilter = QFilter "qcond list" "qcond list option"
  and qcond = FieldCondition pystr pystr | SubFilter qfilter

definition build_qdrant_filter :: "retrieval_filter \<Rightarrow> qfilter" where
  "build_qdrant_filter f =
     (let must = [FieldCondition (py ''workspace_id'') (rf_workspace_id f)];
          should = (if truthy (rf_document_ids f)
            then Some (map (FieldCondition (py ''document_id'')) (the (rf_document_ids f))) else None);
          must' = (if truthy (rf_security_levels f)
            then must @ [SubFilter (QFilter []
              (Some (map (FieldCondition (py ''security_level'')) (the (rf_security_levels f)))))]
            else must)
      in QFilter must' should)"

text \<open>A payload; points written before the field existed may lack \<open>security_level\<close>.\<close>

record payload =
  pl_workspace_id :: pystr
  pl_workspace_name :: pystr
  pl_document_id :: pystr
  pl_uploaded_by_employee_id :: "pystr option"
  pl_security_level :: "pystr option"
  pl_filename :: pystr
  pl_parser :: pystr
  pl_chunk_index :: int
  pl_chunk_text :: pystr

definition payload_field :: "payload \<Rightarrow> pystr \<Rightarrow> pystr option" where
  "payload_field p key =
     (if key = py ''workspace_id'' then Some (pl_workspace_id p)
      else if key = py ''workspace_name'' then Some (pl_workspace_name p)
      else if key = py ''document_id'' then Some (pl_document_id p)
      else if key = py ''uploaded_by_employee_id'' then pl_uploaded_by_employee_id p
      else if key = py ''security_level'' then pl_security_level p
      else if key = py ''filename'' then Some (pl_filename p)
      else if key = py ''parser'' then Some (pl_parser p)
      else if key = py ''chunk_text'' then Some (pl_chunk_text p)
      else None)"

primrec filter_matches :: "qfilter \<Rightarrow> payload \<Rightarrow> bool"
  and cond_matches :: "qcond \<Rightarrow> payload \<Rightarrow> bool" where
  "filter_matches (QFilter must should) p \<longleftrightarrow>
     list_all id (map (\<lambda>c. cond_matches c p) must) \<and>
     (case map_option (map (\<lambda>c. cond_matches c p)) should of None \<Rightarrow> True
        | Some bs \<Rightarrow> bs = [] \<or> list_ex id bs)"
| "cond_matches (FieldCondition key v) p \<longleftrightarrow> payload_field p key = Some v"
| "cond_matches (SubFilter f) p \<longleftrightarrow> filter_matches f p"

text \<open>What the filter built by the code selects.\<close>

definition filter_selects :: "retrieval_filter \<Rightarrow> payload \<Rightarrow> bool" where
  "filter_selects f p \<longleftrightarrow> pl_workspace_id p = rf_workspace_id f
     \<and> (truthy (rf_document_ids f) \<longrightarrow> pl_document_id p \<in> set (the (rf_document_ids f)))
     \<and> (truthy (rf_security_levels f) \<longrightarrow> pl_security_level p \<in> Some ` set (the (rf_security_levels f)))"

lemma payload_field_simps [simp]:
  "payload_field p (py ''workspace_id'') = Some (pl_workspace_id p)"
  "payload_field p (py ''document_id'') = Some (pl_document_id p)"
  "payload_field p (py ''security_level'') = pl_security_level p"
  by (simp_all add: payload_field_def)

lemma build_filter_matches: "filter_matches (build_qdrant_filter f) p \<longleftrightarrow> filter_selects f p"
proof -
  have docs: "(\<exists>x \<in> set ds. pl_document_id p = x) \<longleftrightarrow> pl_document_id p \<in> set ds" for ds by blast
  show ?thesis
    by (cases "rf_document_ids f"; cases "rf_security_levels f")
      (auto simp: build_qdrant_filter_def Let_def filter_selects_def list_ex_iff image_iff
        truthy_def split: if_splits)
qed

section \<open>The Qdrant client\<close>

record point =
  pt_id :: pystr
  pt_vector :: "pyfloat list"
  pt_payload :: payload

record 'q qdrant =
  qd_exists :: "pystr \<Rightarrow> 'q \<Rightarrow> bool"
  qd_create :: "pystr \<Rightarrow> int \<Rightarrow> 'q \<Rightarrow> 'q"
  qd_upsert :: "pystr \<Rightarrow> point list \<Rightarrow> 'q \<Rightarrow> 'q res"
  qd_query :: "pystr \<Rightarrow> pyfloat list \<Rightarrow> qfilter \<Rightarrow> int \<Rightarrow> 'q \<Rightarrow> (payload \<times> pyfloat) list res"
  qd_scroll :: "pystr \<Rightarrow> qfilter \<Rightarrow> int \<Rightarrow> 'q \<Rightarrow> payload list res"
  qd_delete :: "pystr \<Rightarrow> qfilter \<Rightarrow> 'q \<Rightarrow> 'q res"
  qd_points :: "pystr \<Rightarrow> 'q \<Rightarrow> point list"

text \<open>
  \<open>qd_points\<close> is not an operation of the client: it is the content of a collection, which the
  documented behaviour of the operations is stated about.
\<close>

definition qdrant_reads_ok :: "'q qdrant \<Rightarrow> bool" where
  "qdrant_reads_ok Q \<longleftrightarrow>
     (\<forall>coll vec f k q hits. qd_query Q coll vec f k q = Inr hits \<longrightarrow> 0 \<le> k \<longrightarrow>
        int (length hits) \<le> k \<and>
        (\<forall>(p, score) \<in> set hits. filter_matches f p \<and> p \<in> pt_payload ` set (qd_points Q coll q))) \<and>
     (\<forall>coll f k q hits. qd_scroll Q coll f k q = Inr hits \<longrightarrow> 0 \<le> k \<longrightarrow>
        int (length hits) \<le> k \<and>
        (\<forall>p \<in> set hits. filter_matches f p \<and> p \<in> pt_payload ` set (qd_points Q coll q)))"

definition qdrant_writes_ok :: "'q qdrant \<Rightarrow> bool" where
  "qdrant_writes_ok Q \<longleftrightarrow>
     (\<forall>coll ps q q'. qd_upsert Q coll ps q = Inr q' \<longrightarrow> distinct (map pt_id ps) \<longrightarrow>
        set (qd_points Q coll q') =
          {p \<in> set (qd_points Q coll q). pt_id p \<notin> pt_id ` set ps} \<union> set ps) \<and>
     (\<forall>coll f q q'. qd_delete Q coll f q = Inr q' \<longrightarrow>
        set (qd_points Q coll q') =
          {p \<in> set (qd_points Q coll q). \<not> filter_matches f (pt_payload p)})"

text \<open>A collection that is created is empty.\<close>

definition qdrant_create_ok :: "'q qdrant \<Rightarrow> bool" where
  "qdrant_create_ok Q \<longleftrightarrow> (\<forall>coll n q. \<not> qd_exists Q coll q \<longrightarrow> qd_points Q coll (qd_create Q coll n q) = [])"

section \<open>QdrantVectorStore\<close>

record retrieved_chunk =
  ch_workspace_id :: pystr
  ch_document_id :: pystr
  ch_filename :: pystr
  ch_parser :: pystr
  ch_chunk_index :: int
  ch_chunk_text :: pystr
  ch_score :: pyfloat
  ch_security_level :: pystr

record vector_store =
  vs_collection_name :: pystr
  vs_vector_size :: int

definition ensure_collection :: "'q qdrant \<Rightarrow> vector_store \<Rightarrow> 'q \<Rightarrow> 'q" where
  "ensure_collection Q v q =
     (if qd_exists Q (vs_collection_name v) q then q
      else qd_create Q (vs_collection_name v) (vs_vector_size v) q)"

text \<open>\<open>uuid5\<close> is the name-based identifier of the standard library, in \<open>NAMESPACE_URL\<close>.\<close>

definition chunk_point ::
  "(pystr \<Rightarrow> pystr) \<Rightarrow> index_job \<Rightarrow> pystr \<Rightarrow> nat \<Rightarrow> pystr \<Rightarrow> pyfloat list \<Rightarrow> point" where
  "chunk_point uuid5 job parser_name index piece embedding =
     \<lparr> pt_id = uuid5 (job_document_id job @ py '':'' @ str_int (int index)),
       pt_vector = embedding,
       pt_payload =
         \<lparr> pl_workspace_id = job_workspace_id job,
           pl_workspace_name = job_workspace_name job,
           pl_document_id = job_document_id job,
           pl_uploaded_by_employee_id = job_uploaded_by_employee_id job,
           pl_security_level = Some (job_security_level job),
           pl_filename = job_filename job,
           pl_parser = parser_name,
           pl_chunk_index = int index,
           pl_chunk_text = piece \<rparr> \<rparr>"

definition chunk_points ::
  "(pystr \<Rightarrow> pystr) \<Rightarrow> index_job \<Rightarrow> pystr \<Rightarrow> pystr list \<Rightarrow> pyfloat list list \<Rightarrow> point list" where
  "chunk_points uuid5 job parser_name chunks embeddings =
     map (\<lambda>(index, piece, embedding). chunk_point uuid5 job parser_name index piece embedding)
       (zip [0..<length chunks] (zip chunks embeddings))"

definition upsert_chunks ::
  "'q qdrant \<Rightarrow> (pystr \<Rightarrow> pystr) \<Rightarrow> vector_store \<Rightarrow> index_job \<Rightarrow> pystr \<Rightarrow> pystr list
     \<Rightarrow> pyfloat list list \<Rightarrow> 'q \<Rightarrow> 'q res" where
  "upsert_chunks Q uuid5 v job parser_name chunks embeddings q =
     (if chunks = [] then Inr q
      else if length embeddings < length chunks
      then Inl (ValueError (py ''zip() argument 2 is shorter than argument 1''))
      else if length chunks < length embeddings
      then Inl (ValueError (py ''zip() argument 2 is longer than argument 1''))
      else qd_upsert Q (vs_collection_name v) (chunk_points uuid5 job parser_name chunks embeddings) q)"

definition payload_chunk :: "pyfloat \<Rightarrow> payload \<Rightarrow> retrieved_chunk" where
  "payload_chunk score p =
     \<lparr> ch_workspace_id = pl_workspace_id p, ch_document_id = pl_document_id p,
       ch_filename = pl_filename p, ch_parser = pl_parser p,
       ch_chunk_index = pl_chunk_index p, ch_chunk_text = pl_chunk_text p,
       ch_score = score,
       ch_security_level =
         (case pl_security_level p of None \<Rightarrow> py ''internal'' | Some l \<Rightarrow> l) \<rparr>"

definition vs_search ::
  "'q qdrant \<Rightarrow> vector_store \<Rightarrow> pyfloat list \<Rightarrow> retrieval_filter \<Rightarrow> int \<Rightarrow> 'q \<Rightarrow> retrieved_chunk list res"
where
  "vs_search Q v query_vector filters limit q =
     (case qd_query Q (vs_collection_name v) query_vector (build_qdrant_filter filters) limit q of
        Inl e \<Rightarrow> Inl e
      | Inr hits \<Rightarrow> Inr (map (\<lambda>(p, score). payload_chunk score p) hits))"

definition vs_list_chunks ::
  "'q qdrant \<Rightarrow> vector_store \<Rightarrow> retrieval_filter \<Rightarrow> int \<Rightarrow> 'q \<Rightarrow> retrieved_chunk list res" where
  "vs_list_chunks Q v filters limit q =
     (case qd_scroll Q (vs_collection_name v) (build_qdrant_filter filters) limit q of
        Inl e \<Rightarrow> Inl e
      | Inr records \<Rightarrow> Inr (map (payload_chunk 0) records))"

definition vs_delete_document ::
  "'q qdrant \<Rightarrow> vector_store \<Rightarrow> pystr \<Rightarrow> pystr \<Rightarrow> 'q \<Rightarrow> 'q res" where
  "vs_delete_document Q v workspace_id document_id q =
     qd_delete Q (vs_collection_name v)
       (build_qdrant_filter \<lparr> rf_workspace_id = workspace_id, rf_document_ids = Some [document_id],
          rf_security_levels = None \<rparr>) q"

section \<open>What reads return\<close>

text \<open>A chunk lies within a filter: the property every retrieval path keeps.\<close>

definition chunk_within :: "retrieval_filter \<Rightarrow> retrieved_chunk \<Rightarrow> bool" where
  "chunk_within f c \<longleftrightarrow> ch_workspace_id c = rf_workspace_id f
     \<and> (truthy (rf_document_ids f) \<longrightarrow> ch_document_id c \<in> set (the (rf_document_ids f)))
     \<and> (truthy (rf_security_levels f) \<longrightarrow> ch_security_level c \<in> set (the (rf_security_levels f)))"

lemma payload_chunk_within: "filter_selects f p \<Longrightarrow> chunk_within f (payload_chunk score p)"
  by (auto simp: filter_selects_def chunk_within_def payload_chunk_def)

lemma chunk_within_score [simp]: "chunk_within f (c\<lparr>ch_score := x\<rparr>) = chunk_within f c"
  by (simp add: chunk_within_def)

lemma vs_search_ok:
  assumes "qdrant_reads_ok Q" "vs_search Q v vec f k q = Inr cs" "0 \<le> k"
  shows "int (length cs) \<le> k" and "\<forall>c \<in> set cs. chunk_within f c"
proof -
  from assms(2) obtain hits where
    hits: "qd_query Q (vs_collection_name v) vec (build_qdrant_filter f) k q = Inr hits"
    and cs: "cs = map (\<lambda>(p, score). payload_chunk score p) hits"
    by (auto simp: vs_search_def split: sum.splits)
  from assms(1,3) hits have "int (length hits) \<le> k"
    and "\<forall>(p, score) \<in> set hits. filter_matches (build_qdrant_filter f) p"
    unfolding qdrant_reads_ok_def by (blast, fastforce)
  with cs show "int (length cs) \<le> k" and "\<forall>c \<in> set cs. chunk_within f c"
    by (auto simp: build_filter_matches intro!: payload_chunk_within)
qed

lemma vs_list_chunks_ok:
  assumes "qdrant_reads_ok Q" "vs_list_chunks Q v f k q = Inr cs" "0 \<le> k"
  shows "\<forall>c \<in> set cs. chunk_within f c"
proof -
  from assms(2) obtain hits where
    hits: "qd_scroll Q (vs_collection_name v) (build_qdrant_filter f) k q = Inr hits"
    and cs: "cs = map (payload_chunk 0) hits"
    by (auto simp: vs_list_chunks_def split: sum.splits)
  from assms(1,3) hits have "\<forall>p \<in> set hits. filter_matches (build_qdrant_filter f) p"
    unfolding qdrant_reads_ok_def by blast
  with cs show ?thesis by (auto simp: build_filter_matches intro!: payload_chunk_within)
qed

text \<open>What a read shows is stored: the payload of some point, with some score.\<close>

definition shows_stored :: "point set \<Rightarrow> retrieved_chunk \<Rightarrow> bool" where
  "shows_stored ps c \<longleftrightarrow> (\<exists>p \<in> ps. \<exists>x. c = payload_chunk x (pt_payload p))"

lemma shows_stored_score: "shows_stored ps c \<Longrightarrow> shows_stored ps (c\<lparr>ch_score := x\<rparr>)"
  by (auto simp: shows_stored_def payload_chunk_def)

lemma vs_search_stored:
  assumes "qdrant_reads_ok Q" "vs_search Q v vec f k q = Inr cs" "0 \<le> k" "c \<in> set cs"
  shows "shows_stored (set (qd_points Q (vs_collection_name v) q)) c"
proof -
  from assms(2) obtain hits where
    hits: "qd_query Q (vs_collection_name v) vec (build_qdrant_filter f) k q = Inr hits"
    and cs: "cs = map (\<lambda>(p, score). payload_chunk score p) hits"
    by (auto simp: vs_search_def split: sum.splits)
  from assms(1,3) hits have "\<forall>(p, score) \<in> set hits. p \<in> pt_payload ` set (qd_points Q (vs_collection_name v) q)"
    unfolding qdrant_reads_ok_def by fastforce
  with assms(4) cs show ?thesis by (fastforce simp: shows_stored_def)
qed

lemma vs_list_chunks_stored:
  assumes "qdrant_reads_ok Q" "vs_list_chunks Q v f k q = Inr cs" "0 \<le> k" "c \<in> set cs"
  shows "shows_stored (set (qd_points Q (vs_collection_name v) q)) c"
proof -
  from assms(2) obtain hits where
    hits: "qd_scroll Q (vs_collection_name v) (build_qdrant_filter f) k q = Inr hits"
    and cs: "cs = map (payload_chunk 0) hits"
    by (auto simp: vs_list_chunks_def split: sum.splits)
  from assms(1,3) hits have "\<forall>p \<in> set hits. p \<in> pt_payload ` set (qd_points Q (vs_collection_name v) q)"
    unfolding qdrant_reads_ok_def by blast
  with assms(4) cs show ?thesis by (fastforce simp: shows_stored_def)
qed

section \<open>A client over one collection\<close>

text \<open>
  A concrete client that satisfies the documented behaviour: one collection, kept as a list of
  points; every matching point has score 1.
\<close>

definition list_qdrant :: "point list qdrant" where
  "list_qdrant = \<lparr>
     qd_exists = (\<lambda>coll q. True),
     qd_create = (\<lambda>coll size q. q),
     qd_upsert = (\<lambda>coll ps q. Inr (filter (\<lambda>p. pt_id p \<notin> pt_id ` set ps) q @ ps)),
     qd_query = (\<lambda>coll vec f k q.
       Inr (take (nat k) (map (\<lambda>p. (pt_payload p, 1)) (filter (\<lambda>p. filter_matches f (pt_payload p)) q)))),
     qd_scroll = (\<lambda>coll f k q.
       Inr (take (nat k) (map pt_payload (filter (\<lambda>p. filter_matches f (pt_payload p)) q)))),
     qd_delete = (\<lambda>coll f q. Inr (filter (\<lambda>p. \<not> filter_matches f (pt_payload p)) q)),
     qd_points = (\<lambda>coll q. q) \<rparr>"

lemma list_qdrant_reads: "qdrant_reads_ok list_qdrant"
  unfolding qdrant_reads_ok_def
  by (auto simp: list_qdrant_def dest!: in_set_takeD)

lemma list_qdrant_writes: "qdrant_writes_ok list_qdrant"
  unfolding qdrant_writes_ok_def
  by (auto simp: list_qdrant_def)

lemma list_qdrant_create: "qdrant_create_ok list_qdrant"
  by (simp add: qdrant_create_ok_def list_qdrant_def)

section \<open>What writes do\<close>

lemma ensure_collection_points:
  "qdrant_create_ok Q \<Longrightarrow> set (qd_points Q (vs_collection_name v) (ensure_collection Q v q))
     \<subseteq> set (qd_points Q (vs_collection_name v) q)"
  by (simp add: ensure_collection_def qdrant_create_ok_def)

lemma chunk_points_eq:
  "length chunks = length embeddings \<Longrightarrow> chunk_points uuid5 job parser chunks embeddings =
     map (\<lambda>i. chunk_point uuid5 job parser i (chunks ! i) (embeddings ! i)) [0..<length chunks]"
  by (intro nth_equalityI) (simp_all add: chunk_points_def)

lemma chunk_points_ids:
  "length chunks = length embeddings \<Longrightarrow> map pt_id (chunk_points uuid5 job parser chunks embeddings) =
     map (\<lambda>i. uuid5 (job_document_id job @ py '':'' @ str_int (int i))) [0..<length chunks]"
  by (simp add: chunk_points_eq chunk_point_def)

lemma vs_delete_document_points:
  assumes "qdrant_writes_ok Q" "vs_delete_document Q v w i q = Inr q'"
  shows "set (qd_points Q (vs_collection_name v) q') =
    {p \<in> set (qd_points Q (vs_collection_name v) q).
       \<not> (pl_workspace_id (pt_payload p) = w \<and> pl_document_id (pt_payload p) = i)}"
proof -
  have "set (qd_points Q (vs_collection_name v) q') = {p \<in> set (qd_points Q (vs_collection_name v) q).
      \<not> filter_matches (build_qdrant_filter \<lparr> rf_workspace_id = w, rf_document_ids = Some [i],
          rf_security_levels = None \<rparr>) (pt_payload p)}"
    using assms unfolding qdrant_writes_ok_def vs_delete_document_def by blast
  then show ?thesis by (simp add: build_filter_matches filter_selects_def)
qed

lemma upsert_chunks_Inr:
  assumes "upsert_chunks Q uuid5 v job parser chunks embeddings q = Inr q'" "chunks \<noteq> []"
  shows "length embeddings = length chunks"
    and "qd_upsert Q (vs_collection_name v) (chunk_points uuid5 job parser chunks embeddings) q = Inr q'"
  using assms by (auto simp: upsert_chunks_def split: if_splits)

end
