(* ===== verification/Http.thy ===== *)
theory Http
  imports PyStr PyFloat
begin

text \<open>
  What the three HTTP clients of the backend (embedding, reranker, LLM) share: JSON values as
  \<open>response.json()\<close> returns them, HTTP requests and responses, and the extraction of an error
  message from a failed response. The HTTP library and the remote servers are not part of the
  repository; a client receives \<open>post\<close>, the outcome of each request.
\<close>

datatype json =
    JNull
  | JBool bool
  | JInt int
  | JFloat pyfloat
  | JStr pystr
  | JList "json list"
  | JObj "(pystr \<times> json) list"

text \<open>\<open>d.get(key)\<close> on a dictionary; a missing key gives \<open>None\<close>, here \<open>JNull\<close>.\<close>

definition jget :: "pystr \<Rightarrow> (pystr \<times> json) list \<Rightarrow> json" where
  "jget key d = (case map_of d key of None \<Rightarrow> JNull | Some v \<Rightarrow> v)"

text \<open>
  \<open>isinstance(v, int)\<close> and its value: a Python \<open>bool\<close> is an \<open>int\<close>. \<open>isinstance(v, int | float)\<close> and
  \<open>float(v)\<close>.
\<close>

fun as_int :: "json \<Rightarrow> int option" where
  "as_int (JInt i) = Some i"
| "as_int (JBool b) = Some (if b then 1 else 0)"
| "as_int _ = None"

fun as_float :: "json \<Rightarrow> pyfloat option" where
  "as_float (JInt i) = Some (fl64 (of_int i))"
| "as_float (JBool b) = Some (if b then 1 else 0)"
| "as_float (JFloat x) = Some x"
| "as_float _ = None"

fun as_str :: "json \<Rightarrow> pystr option" where
  "as_str (JStr s) = Some s"
| "as_str _ = None"

fun as_obj :: "json \<Rightarrow> (pystr \<times> json) list option" where
  "as_obj (JObj d) = Some d"
| "as_obj _ = None"

fun as_list :: "json \<Rightarrow> json list option" where
  "as_list (JList l) = Some l"
| "as_list _ = None"

text \<open>\<open>v.get(...)\<close> on a value that is not a dictionary.\<close>

fun json_type :: "json \<Rightarrow> pystr" where
  "json_type JNull = py ''NoneType''"
| "json_type (JBool _) = py ''bool''"
| "json_type (JInt _) = py ''int''"
| "json_type (JFloat _) = py ''float''"
| "json_type (JStr _) = py ''str''"
| "json_type (JList _) = py ''list''"
| "json_type (JObj _) = py ''dict''"

definition no_attribute_get :: "json \<Rightarrow> exn" where
  "no_attribute_get v =
     AttributeError (quoted (json_type v) @ py '' object has no attribute '' @ quoted (py ''get''))"

record http_request =
  rq_url :: pystr
  rq_headers :: "(pystr \<times> pystr) list"
  rq_json :: json
  rq_timeout :: pyfloat

record http_response =
  rs_status_code :: int
  rs_json :: "json option"
  rs_text :: pystr

text \<open>\<open>HttpError\<close> is an \<open>httpx.HTTPError\<close> with its message.\<close>

datatype http_result = HttpError pystr | HttpResponse http_response

definition extract_error_message :: "http_response \<Rightarrow> pystr" where
  "extract_error_message response =
     (case rs_json response of
        None \<Rightarrow> rs_text response
      | Some body \<Rightarrow>
          (case as_obj body of
             None \<Rightarrow> rs_text response
           | Some d \<Rightarrow>
               (case jget (py ''error'') d of
                  JObj e \<Rightarrow> (case as_str (jget (py ''message'') e) of
                     Some m \<Rightarrow> m | None \<Rightarrow> rs_text response)
                | JStr m \<Rightarrow> m
                | _ \<Rightarrow> rs_text response)))"

text \<open>The headers of a client with an optional API key; an empty key counts as absent.\<close>

definition build_headers :: "pystr option \<Rightarrow> (pystr \<times> pystr) list" where
  "build_headers api_key =
     (let headers = [(py ''Content-Type'', py ''application/json'')] in
      if truthy api_key
      then headers @ [(py ''Authorization'', py ''Bearer '' @ the api_key)] else headers)"

text \<open>\<open>url.rstrip("/")\<close> and the optional key of a profile.\<close>

definition normalize_base_url :: "pystr \<Rightarrow> pystr" where
  "normalize_base_url u = rstrip_while (\<lambda>c. c = 47) u"

definition normalize_api_key :: "pystr option \<Rightarrow> pystr option" where
  "normalize_api_key k = (case k of None \<Rightarrow> None | Some v \<Rightarrow> if v = [] then None else Some v)"

lemma normalize_api_key_headers: "build_headers (normalize_api_key k) = build_headers k"
  by (cases k) (auto simp: normalize_api_key_def build_headers_def)

end
