(* ===== verification/UTF8.thy ===== *)
theory UTF8
  imports PyStr
begin

text \<open>
  \<open>str.encode("utf-8")\<close> and \<open>bytes.decode("utf-8")\<close> with the strict error handler: the embedder and
  the token signature encode text, the parsers and the token reader decode it. A lone surrogate
  cannot be encoded; over-long forms, surrogates and values above 0x10FFFF cannot be decoded.
  Decoding inverts encoding (\<open>utf8_decode_encode\<close>).
\<close>

definition is_surrogate :: "nat \<Rightarrow> bool" where
  "is_surrogate c \<longleftrightarrow> 55296 \<le> c \<and> c \<le> 57343"

definition encodable :: "nat \<Rightarrow> bool" where
  "encodable c \<longleftrightarrow> \<not> is_surrogate c \<and> c < 1114112"

definition encode_cp :: "nat \<Rightarrow> bytes" where
  "encode_cp c =
     (if c < 128 then [c]
      else if c < 2048 then [192 + c div 64, 128 + c mod 64]
      else if c < 65536 then [224 + c div 4096, 128 + c div 64 mod 64, 128 + c mod 64]
      else [240 + c div 262144, 128 + c div 4096 mod 64, 128 + c div 64 mod 64, 128 + c mod 64])"

definition utf8_encode :: "pystr \<Rightarrow> bytes res" where
  "utf8_encode s = (if list_all encodable s then Inr (concat (map encode_cp s))
     else Inl (ValueError (py ''surrogates not allowed'')))"

definition is_cont :: "nat \<Rightarrow> bool" where
  "is_cont b \<longleftrightarrow> 128 \<le> b \<and> b < 192"

text \<open>One code point off the front: \<open>None\<close> on malformed input.\<close>

definition decode_cp :: "bytes \<Rightarrow> (nat \<times> bytes) option" where
  "decode_cp bs = (case bs of
     [] \<Rightarrow> None
   | b # r \<Rightarrow>
       if b < 128 then Some (b, r)
       else if 194 \<le> b \<and> b < 224 then
         (case r of b1 # r1 \<Rightarrow>
            if is_cont b1 then Some ((b - 192) * 64 + (b1 - 128), r1) else None
          | _ \<Rightarrow> None)
       else if 224 \<le> b \<and> b < 240 then
         (case r of b1 # b2 # r2 \<Rightarrow>
            (let v = (b - 224) * 4096 + (b1 - 128) * 64 + (b2 - 128) in
             if is_cont b1 \<and> is_cont b2 \<and> 2048 \<le> v \<and> \<not> is_surrogate v then Some (v, r2) else None)
          | _ \<Rightarrow> None)
       else if 240 \<le> b \<and> b < 245 then
         (case r of b1 # b2 # b3 # r3 \<Rightarrow>
            (let v = (b - 240) * 262144 + (b1 - 128) * 4096 + (b2 - 128) * 64 + (b3 - 128) in
             if is_cont b1 \<and> is_cont b2 \<and> is_cont b3 \<and> 65536 \<le> v \<and> v < 1114112
             then Some (v, r3) else None)
          | _ \<Rightarrow> None)
       else None)"

lemma decode_cp_shorter: "decode_cp bs = Some (c, r) \<Longrightarrow> length r < length bs"
  by (auto simp: decode_cp_def Let_def split: list.splits if_splits)

function utf8_decode_loop :: "bytes \<Rightarrow> pystr option" where
  "utf8_decode_loop bs = (if bs = [] then Some []
     else case decode_cp bs of None \<Rightarrow> None
       | Some (c, r) \<Rightarrow> map_option (\<lambda>s. c # s) (utf8_decode_loop r))"
  by pat_completeness auto
termination
  by (relation "measure length") (auto dest: decode_cp_shorter)

declare utf8_decode_loop.simps [simp del]

definition utf8_decode :: "bytes \<Rightarrow> pystr res" where
  "utf8_decode bs = (case utf8_decode_loop bs of
     None \<Rightarrow> Inl (ValueError (py ''invalid utf-8'')) | Some s \<Rightarrow> Inr s)"

lemma base64_split:
  fixes c :: nat
  shows "c div 64 * 64 + c mod 64 = c"
    and "c div 4096 * 4096 + c div 64 mod 64 * 64 + c mod 64 = c"
    and "c div 262144 * 262144 + c div 4096 mod 64 * 4096 + c div 64 mod 64 * 64 + c mod 64 = c"
proof -
  have 1: "c = c div 64 * 64 + c mod 64" by simp
  have 2: "c div 64 = c div 4096 * 64 + c div 64 mod 64"
    using div_mult_mod_eq [of "c div 64" 64] by (simp add: div_mult2_eq [symmetric])
  have 3: "c div 4096 = c div 262144 * 64 + c div 4096 mod 64"
    using div_mult_mod_eq [of "c div 4096" 64] by (simp add: div_mult2_eq [symmetric])
  show "c div 64 * 64 + c mod 64 = c" by simp
  show "c div 4096 * 4096 + c div 64 mod 64 * 64 + c mod 64 = c" using 1 2 by linarith
  show "c div 262144 * 262144 + c div 4096 mod 64 * 4096 + c div 64 mod 64 * 64 + c mod 64 = c"
    using 1 2 3 by linarith
qed

lemma decode_encode_cp:
  assumes "encodable c"
  shows "decode_cp (encode_cp c @ r) = Some (c, r)"
proof -
  have cont: "is_cont (128 + n mod 64)" for n by (simp add: is_cont_def)
  consider "c < 128" | "128 \<le> c" "c < 2048" | "2048 \<le> c" "c < 65536" | "65536 \<le> c" by linarith
  then show ?thesis
  proof cases
    case 1
    then show ?thesis by (simp add: decode_cp_def encode_cp_def)
  next
    case 2
    then have "2 \<le> c div 64" "c div 64 < 32" by arith+
    with 2 show ?thesis using base64_split(1) [of c]
      by (simp add: decode_cp_def encode_cp_def cont less_mult_imp_div_less)
  next
    case 3
    then have "c div 4096 < 16" by auto
    with 3 assms show ?thesis using base64_split(2) [of c]
      by (simp add: decode_cp_def encode_cp_def cont encodable_def)
  next
    case 4
    with assms have "c < 1114112" by (simp add: encodable_def)
    then have "c div 262144 < 5" by auto
    with 4 \<open>c < 1114112\<close> show ?thesis using base64_split(3) [of c]
      by (simp add: decode_cp_def encode_cp_def cont)
  qed
qed

lemma encode_cp_nonempty [simp]: "encode_cp c \<noteq> []"
  by (simp add: encode_cp_def)

lemma encode_cp_bytes: "encodable c \<Longrightarrow> b \<in> set (encode_cp c) \<Longrightarrow> b < 256"
  by (auto simp: encode_cp_def encodable_def split: if_splits)

lemma utf8_decode_loop_encode:
  "list_all encodable s \<Longrightarrow> utf8_decode_loop (concat (map encode_cp s)) = Some s"
proof (induction s)
  case (Cons c s)
  then show ?case
    by (simp add: utf8_decode_loop.simps [of "encode_cp c @ concat (map encode_cp s)"]
        decode_encode_cp)
qed (simp add: utf8_decode_loop.simps)

lemma utf8_decode_encode: "utf8_encode s = Inr bs \<Longrightarrow> utf8_decode bs = Inr s"
  by (auto simp: utf8_encode_def utf8_decode_def utf8_decode_loop_encode split: if_splits)

lemma utf8_encode_bytes: "utf8_encode s = Inr bs \<Longrightarrow> b \<in> set bs \<Longrightarrow> b < 256"
  using encode_cp_bytes by (fastforce simp: utf8_encode_def list_all_iff split: if_splits)

lemma py_encodable [simp]: "list_all encodable (py cs)"
proof -
  have "encodable (of_char c)" for c
    using nat_of_char_less_256 [of c] unfolding encodable_def is_surrogate_def by linarith
  then show ?thesis by (simp add: py_def list_all_iff)
qed

end
