(* ===== verification/Embedding.thy ===== *)
theory Embedding
  imports Http UTF8 Config
begin

text \<open>
  \<open>indexing/embedder.py\<close> and \<open>indexing/embedding_profiles.py\<close>: the protocol \<open>Embedder\<close> as a locale,
  the deterministic embedder (a hash of the text) and the client of the BGE embedding server, with
  the validation of its response. SHA-256 is the library's function, an argument with the law that
  a digest has 32 bytes.
\<close>

section \<open>The protocol\<close>

text \<open>
  \<open>ok\<close> stands for the laws of the library functions an implementation relies on; an embedding has
  one vector per text, each of dimension \<open>dims\<close>.
\<close>

locale embedder =
  fixes embed :: "pystr list \<Rightarrow> pyfloat list list res" and dims :: int and ok :: bool
  assumes embed_count: "ok \<Longrightarrow> embed texts = Inr vs \<Longrightarrow> length vs = length texts"
    and embed_dims: "ok \<Longrightarrow> embed texts = Inr vs \<Longrightarrow> v \<in> set vs \<Longrightarrow> int (length v) = dims"
begin

lemma embed_one: "ok \<Longrightarrow> embed [t] = Inr vs \<Longrightarrow> \<exists>v. vs = [v] \<and> int (length v) = dims"
  using embed_count [of "[t]" vs] embed_dims [of "[t]" vs] by (cases vs) auto

end

section \<open>DeterministicEmbedder\<close>

definition make_deterministic_embedder :: "int \<Rightarrow> int res" where
  "make_deterministic_embedder vector_size =
     (if vector_size \<le> 0 then Inl (ValueError (py ''vector_size must be positive.''))
      else Inr vector_size)"

fun deterministic_embed_texts ::
  "(bytes \<Rightarrow> bytes) \<Rightarrow> int \<Rightarrow> pystr list \<Rightarrow> pyfloat list list res" where
  "deterministic_embed_texts sha256 vector_size [] = Inr []"
| "deterministic_embed_texts sha256 vector_size (t # ts) =
     (case utf8_encode t of
        Inl e \<Rightarrow> Inl e
      | Inr encoded \<Rightarrow>
          (let digest = sha256 encoded;
               vector = map (\<lambda>byte. round6 (idiv (int byte) 255)) (slice_to vector_size digest)
           in case deterministic_embed_texts sha256 vector_size ts of
                Inl e \<Rightarrow> Inl e | Inr vs \<Rightarrow> Inr (vector # vs)))"

definition sha256_ok :: "(bytes \<Rightarrow> bytes) \<Rightarrow> bool" where
  "sha256_ok sha256 \<longleftrightarrow> (\<forall>x. length (sha256 x) = 32 \<and> (\<forall>b \<in> set (sha256 x). b < 256))"

lemma deterministic_embed_result:
  "deterministic_embed_texts sha256 n ts = Inr vs \<Longrightarrow>
     length vs = length ts \<and> (\<forall>v \<in> set vs. \<exists>x. length v = length (slice_to n (sha256 x)))"
proof (induction ts arbitrary: vs)
  case (Cons t ts)
  then show ?case by (auto simp: Let_def split: sum.splits) blast
qed simp

interpretation det_embedder: embedder "deterministic_embed_texts sha256 n" "min n 32"
    "sha256_ok sha256 \<and> 0 < n" for sha256 :: "bytes \<Rightarrow> bytes" and n :: int
proof unfold_locales
  fix texts vs v
  assume ok: "sha256_ok sha256 \<and> 0 < n" and r: "deterministic_embed_texts sha256 n texts = Inr vs"
  from deterministic_embed_result [OF r] show "length vs = length texts" by simp
  from deterministic_embed_result [OF r] ok
  show "v \<in> set vs \<Longrightarrow> int (length v) = min n 32"
    by (fastforce simp: sha256_ok_def slice_to_def)
qed

section \<open>BGEEmbeddingClient\<close>

record embedding_profile =
  ep_base_url :: pystr
  ep_model :: pystr
  ep_api_key :: "pystr option"
  ep_timeout_seconds :: pyfloat
  ep_vector_size :: int

definition make_embedding_profile ::
  "pystr \<Rightarrow> pystr \<Rightarrow> pystr option \<Rightarrow> pyfloat \<Rightarrow> int \<Rightarrow> embedding_profile res" where
  "make_embedding_profile base_url model api_key timeout_seconds vector_size =
     (if \<not> 0 < timeout_seconds \<or> \<not> 0 < vector_size
      then Inl (ValueError (py ''Input should be greater than 0''))
      else Inr \<lparr> ep_base_url = normalize_base_url base_url, ep_model = model,
        ep_api_key = normalize_api_key api_key, ep_timeout_seconds = timeout_seconds,
        ep_vector_size = vector_size \<rparr>)"

definition embedding_request :: "embedding_profile \<Rightarrow> pystr list \<Rightarrow> http_request" where
  "embedding_request profile texts =
     \<lparr> rq_url = ep_base_url profile @ py ''/embeddings'',
       rq_headers = build_headers (ep_api_key profile),
       rq_json = JObj [(py ''model'', JStr (ep_model profile)), (py ''input'', JList (map JStr texts))],
       rq_timeout = ep_timeout_seconds profile \<rparr>"

definition embedding_error :: "string \<Rightarrow> exn" where
  "embedding_error m = EmbeddingProviderError (py m)"

fun parse_vector :: "json list \<Rightarrow> pyfloat list res" where
  "parse_vector [] = Inr []"
| "parse_vector (v # vs) =
     (case as_float v of
        None \<Rightarrow> Inl (embedding_error ''BGE embedding vector value was invalid'')
      | Some x \<Rightarrow> (case parse_vector vs of Inl e \<Rightarrow> Inl e | Inr xs \<Rightarrow> Inr (x # xs)))"

text \<open>One element of \<open>data\<close>: its index and its vector, given the slots filled so far.\<close>

definition parse_embedding_item ::
  "int \<Rightarrow> int \<Rightarrow> pyfloat list option list \<Rightarrow> json \<Rightarrow> (nat \<times> pyfloat list) res" where
  "parse_embedding_item expected_count vector_size vectors item =
     (case as_obj item of
        None \<Rightarrow> Inl (embedding_error ''BGE embedding response item was invalid'')
      | Some d \<Rightarrow>
          (case as_int (jget (py ''index'') d) of
             None \<Rightarrow> Inl (embedding_error ''BGE embedding response index was invalid'')
           | Some index \<Rightarrow>
               if index < 0 \<or> expected_count \<le> index
               then Inl (embedding_error ''BGE embedding response index was invalid'')
               else if vectors ! nat index \<noteq> None
               then Inl (embedding_error ''BGE embedding response index was duplicated'')
               else (case as_list (jget (py ''embedding'') d) of
                  None \<Rightarrow> Inl (embedding_error ''BGE embedding vector size was invalid'')
                | Some embedding \<Rightarrow>
                    if int (length embedding) \<noteq> vector_size
                    then Inl (embedding_error ''BGE embedding vector size was invalid'')
                    else (case parse_vector embedding of
                       Inl e \<Rightarrow> Inl e
                     | Inr vector \<Rightarrow> Inr (nat index, vector)))))"

fun parse_embedding_loop ::
  "int \<Rightarrow> int \<Rightarrow> pyfloat list option list \<Rightarrow> json list \<Rightarrow> pyfloat list option list res" where
  "parse_embedding_loop expected_count vector_size vectors [] = Inr vectors"
| "parse_embedding_loop expected_count vector_size vectors (item # items) =
     (case parse_embedding_item expected_count vector_size vectors item of
        Inl e \<Rightarrow> Inl e
      | Inr (index, vector) \<Rightarrow>
          parse_embedding_loop expected_count vector_size (vectors[index := Some vector]) items)"

definition parse_embedding_response :: "json \<Rightarrow> nat \<Rightarrow> int \<Rightarrow> pyfloat list list res" where
  "parse_embedding_response response_body expected_count vector_size =
     (case as_obj response_body of
        None \<Rightarrow> Inl (no_attribute_get response_body)
      | Some body \<Rightarrow>
          (case as_list (jget (py ''data'') body) of
             None \<Rightarrow> Inl (embedding_error ''BGE embedding response data was invalid'')
           | Some items \<Rightarrow>
               if length items \<noteq> expected_count
               then Inl (embedding_error ''BGE embedding response data was invalid'')
               else (case parse_embedding_loop (int expected_count) vector_size
                        (replicate expected_count None) items of
                  Inl e \<Rightarrow> Inl e
                | Inr vectors \<Rightarrow>
                    if None \<in> set vectors
                    then Inl (embedding_error ''BGE embedding response data was incomplete'')
                    else Inr (map the vectors))))"

definition bge_embed_texts ::
  "embedding_profile \<Rightarrow> (http_request \<Rightarrow> http_result) \<Rightarrow> pystr list \<Rightarrow> pyfloat list list res" where
  "bge_embed_texts profile post texts =
     (if texts = [] then Inr []
      else case post (embedding_request profile texts) of
        HttpError exc \<Rightarrow> Inl (EmbeddingProviderError (py ''BGE embedding request failed: '' @ exc))
      | HttpResponse response \<Rightarrow>
          if 400 \<le> rs_status_code response
          then Inl (EmbeddingProviderError (py ''BGE embedding request failed with HTTP ''
            @ str_int (rs_status_code response) @ py '': '' @ extract_error_message response))
          else (case rs_json response of
             None \<Rightarrow> Inl (embedding_error ''BGE embedding response was not valid JSON'')
           | Some body \<Rightarrow>
               parse_embedding_response body (length texts) (ep_vector_size profile)))"

section \<open>Facts about the response parser\<close>

lemma parse_vector_length: "parse_vector vs = Inr xs \<Longrightarrow> length xs = length vs"
  by (induction vs arbitrary: xs) (auto split: option.splits sum.splits)

lemma parse_item_Inr:
  "parse_embedding_item n sz vectors item = Inr (i, v) \<Longrightarrow>
     int i < n \<and> vectors ! i = None \<and> int (length v) = sz"
  by (auto simp: parse_embedding_item_def dest!: parse_vector_length
      split: option.splits if_splits sum.splits)

text \<open>
  The loop invariant: after \<open>k\<close> items exactly \<open>k\<close> slots are filled, each with a vector of the
  expected size.
\<close>

definition filled :: "int \<Rightarrow> nat \<Rightarrow> pyfloat list option list \<Rightarrow> bool" where
  "filled sz k vectors \<longleftrightarrow> length (filter (\<lambda>v. v \<noteq> None) vectors) = k
     \<and> (\<forall>v. Some v \<in> set vectors \<longrightarrow> int (length v) = sz)"

lemma filled_update:
  assumes "filled sz k vectors" "i < length vectors" "vectors ! i = None" "int (length v) = sz"
  shows "filled sz (Suc k) (vectors[i := Some v])"
proof -
  let ?P = "\<lambda>v :: pyfloat list option. v \<noteq> None"
  have s: "vectors = take i vectors @ None # drop (Suc i) vectors"
    using id_take_nth_drop [OF assms(2)] assms(3) by simp
  have "length (filter ?P vectors)
      = length (filter ?P (take i vectors)) + length (filter ?P (drop (Suc i) vectors))"
    by (subst s) simp
  moreover have "vectors[i := Some v] = take i vectors @ Some v # drop (Suc i) vectors"
    by (rule upd_conv_take_nth_drop [OF assms(2)])
  ultimately have "length (filter ?P (vectors[i := Some v])) = Suc (length (filter ?P vectors))"
    by simp
  then show ?thesis
    using assms(1,4) set_update_subset_insert [of vectors i "Some v"] by (auto simp: filled_def)
qed

lemma parse_loop_filled:
  "parse_embedding_loop (int n) sz vectors items = Inr vectors' \<Longrightarrow> length vectors = n \<Longrightarrow>
     filled sz k vectors \<Longrightarrow> length vectors' = n \<and> filled sz (k + length items) vectors'"
proof (induction items arbitrary: vectors k)
  case (Cons item items)
  from Cons.prems(1) obtain i v where
    i: "parse_embedding_item (int n) sz vectors item = Inr (i, v)"
    and rest: "parse_embedding_loop (int n) sz (vectors[i := Some v]) items = Inr vectors'"
    by (auto split: sum.splits)
  from parse_item_Inr [OF i] Cons.prems(2,3) have "filled sz (Suc k) (vectors[i := Some v])"
    by (intro filled_update) auto
  from Cons.IH [OF rest _ this] Cons.prems(2) show ?case by simp
qed simp

lemma filled_all: "filled sz (length vectors) vectors \<Longrightarrow> None \<notin> set vectors"
  by (metis (mono_tags, lifting) filled_def filter_id_conv length_filter_less nat_neq_iff)

lemma parse_response_loop:
  assumes "length items = n"
    and "parse_embedding_loop (int n) sz (replicate n None) items = Inr vectors"
  shows "length vectors = n \<and> None \<notin> set vectors \<and> (\<forall>v. Some v \<in> set vectors \<longrightarrow> int (length v) = sz)"
proof -
  have "filled sz 0 (replicate n None)" by (simp add: filled_def)
  from parse_loop_filled [OF assms(2) _ this] assms(1)
  have "length vectors = n" "filled sz n vectors" by simp_all
  then show ?thesis using filled_all [of sz vectors] by (auto simp: filled_def)
qed

lemma parse_response_Inr:
  assumes "parse_embedding_response body n sz = Inr vs"
  shows "length vs = n \<and> (\<forall>v \<in> set vs. int (length v) = sz)"
proof -
  from assms obtain items vectors where
    "length items = n" "parse_embedding_loop (int n) sz (replicate n None) items = Inr vectors"
    and vs: "vs = map the vectors"
    by (auto simp: parse_embedding_response_def split: option.splits if_splits sum.splits)
  from parse_response_loop [OF this(1,2)] vs show ?thesis by (auto simp: image_iff) (metis option.exhaust_sel)
qed

interpretation bge_embedder: embedder "bge_embed_texts profile post" "ep_vector_size profile" True
  for profile :: embedding_profile and post :: "http_request \<Rightarrow> http_result"
proof unfold_locales
  fix texts vs v
  assume r: "bge_embed_texts profile post texts = Inr vs"
  have "texts = [] \<and> vs = [] \<or>
      (\<exists>body. parse_embedding_response body (length texts) (ep_vector_size profile) = Inr vs)"
    using r by (auto simp: bge_embed_texts_def split: if_splits http_result.splits option.splits)
  then show "length vs = length texts" and "v \<in> set vs \<Longrightarrow> int (length v) = ep_vector_size profile"
    by (auto dest: parse_response_Inr)
qed

section \<open>The configured embedder\<close>

definition get_default_embedding_profile :: "settings \<Rightarrow> embedding_profile res" where
  "get_default_embedding_profile s = make_embedding_profile (cfg_embedding_base_url s)
     (cfg_embedding_model s) (cfg_embedding_api_key s) (cfg_embedding_timeout_seconds s)
     (cfg_embedding_vector_size s)"

text \<open>\<open>get_embedder\<close> of \<open>documents/router.py\<close>.\<close>

definition get_embedder ::
  "settings \<Rightarrow> (bytes \<Rightarrow> bytes) \<Rightarrow> (http_request \<Rightarrow> http_result)
     \<Rightarrow> (pystr list \<Rightarrow> pyfloat list list res) res" where
  "get_embedder s sha256 post =
     (if cfg_embedding_backend s = py ''bge''
      then (case get_default_embedding_profile s of
         Inl e \<Rightarrow> Inl e | Inr profile \<Rightarrow> Inr (bge_embed_texts profile post))
      else (case make_deterministic_embedder (cfg_embedding_vector_size s) of
         Inl e \<Rightarrow> Inl e | Inr vector_size \<Rightarrow> Inr (deterministic_embed_texts sha256 vector_size)))"

end
