(* ===== verification/Retrieval.thy ===== *)
theory Retrieval
  imports Vector_Store Embedding Config "HOL-Library.Product_Lexorder" "HOL-Library.List_Lexorder"
begin

text \<open>
  \<open>retrieval/retriever.py\<close>: the protocol \<open>Retriever\<close> as a locale, dense retrieval and hybrid
  retrieval (dense and lexical scores combined and re-sorted). Both retrievers are interpreted:
  under the documented behaviour of the Qdrant client every chunk they return lies within the
  filter, and there are at most \<open>limit\<close> of them.
\<close>

section \<open>The protocol\<close>

locale retriever =
  fixes retrieve :: "pystr \<Rightarrow> retrieval_filter \<Rightarrow> int \<Rightarrow> retrieved_chunk list res" and ok :: bool
  assumes within: "ok \<Longrightarrow> 0 \<le> k \<Longrightarrow> retrieve t f k = Inr cs \<Longrightarrow> c \<in> set cs \<Longrightarrow> chunk_within f c"
    and bound: "ok \<Longrightarrow> 0 \<le> k \<Longrightarrow> retrieve t f k = Inr cs \<Longrightarrow> int (length cs) \<le> k"
begin

lemma workspace: "ok \<Longrightarrow> 0 \<le> k \<Longrightarrow> retrieve t f k = Inr cs \<Longrightarrow> c \<in> set cs \<Longrightarrow>
    ch_workspace_id c = rf_workspace_id f"
  using within by (auto simp: chunk_within_def)

lemma level: "ok \<Longrightarrow> 0 \<le> k \<Longrightarrow> retrieve t f k = Inr cs \<Longrightarrow> c \<in> set cs \<Longrightarrow>
    rf_security_levels f = Some ls \<Longrightarrow> ls \<noteq> [] \<Longrightarrow> ch_security_level c \<in> set ls"
  using within by (fastforce simp: chunk_within_def)

end

section \<open>Dense retrieval\<close>

text \<open>\<open>embedder.embed_texts([query_text])[0]\<close>.\<close>

definition query_vector :: "(pystr list \<Rightarrow> pyfloat list list res) \<Rightarrow> pystr \<Rightarrow> pyfloat list res" where
  "query_vector embed_texts query_text =
     (case embed_texts [query_text] of
        Inl e \<Rightarrow> Inl e
      | Inr [] \<Rightarrow> Inl (IndexError (py ''list index out of range''))
      | Inr (v # _) \<Rightarrow> Inr v)"

definition dense_retrieve ::
  "(pystr list \<Rightarrow> pyfloat list list res) \<Rightarrow> 'q qdrant \<Rightarrow> vector_store \<Rightarrow> 'q
     \<Rightarrow> pystr \<Rightarrow> retrieval_filter \<Rightarrow> int \<Rightarrow> retrieved_chunk list res" where
  "dense_retrieve embed_texts Q v q query_text filters limit =
     (case query_vector embed_texts query_text of
        Inl e \<Rightarrow> Inl e
      | Inr vector \<Rightarrow> vs_search Q v vector filters limit q)"

section \<open>Hybrid retrieval\<close>

definition chunk_key :: "retrieved_chunk \<Rightarrow> pystr \<times> int" where
  "chunk_key c = (ch_document_id c, ch_chunk_index c)"

text \<open>The set of terms, without repetition.\<close>

definition tokenize :: "ucd \<Rightarrow> pystr \<Rightarrow> pystr list" where
  "tokenize U value = remdups (runs (ucd_word U) (ucd_lower U value))"

definition lexical_score :: "ucd \<Rightarrow> pystr list \<Rightarrow> pystr \<Rightarrow> pyfloat" where
  "lexical_score U query_terms chunk_text =
     (if query_terms = [] then 0
      else (let chunk_terms = tokenize U chunk_text in
        if chunk_terms = [] then 0
        else idiv (int (length (filter (\<lambda>w. w \<in> set chunk_terms) query_terms)))
               (int (length query_terms))))"

record hybrid_config =
  hc_dense_weight :: pyfloat
  hc_lexical_weight :: pyfloat
  hc_candidate_limit :: int

text \<open>\<open>candidates.setdefault(key, chunk)\<close> in order: the first chunk of every key, in insertion order.\<close>

fun first_by_key :: "('a \<Rightarrow> 'k) \<Rightarrow> 'a list \<Rightarrow> 'a list" where
  "first_by_key f [] = []"
| "first_by_key f (x # xs) = x # first_by_key f (filter (\<lambda>y. f y \<noteq> f x) xs)"

definition dense_score :: "retrieved_chunk list \<Rightarrow> retrieved_chunk \<Rightarrow> pyfloat" where
  "dense_score dense_chunks c =
     (case map_of (rev (map (\<lambda>d. (chunk_key d, ch_score d)) dense_chunks)) (chunk_key c) of
        None \<Rightarrow> 0 | Some s \<Rightarrow> s)"

definition hybrid_score ::
  "ucd \<Rightarrow> hybrid_config \<Rightarrow> retrieved_chunk list \<Rightarrow> pystr list \<Rightarrow> retrieved_chunk \<Rightarrow> pyfloat" where
  "hybrid_score U h dense_chunks query_terms c =
     round6 (fadd (fmul (dense_score dense_chunks c) (hc_dense_weight h))
                  (fmul (lexical_score U query_terms (ch_chunk_text c)) (hc_lexical_weight h)))"

definition rank_key :: "retrieved_chunk \<Rightarrow> pyfloat \<times> pystr \<times> int \<times> pystr" where
  "rank_key c = (- ch_score c, ch_filename c, ch_chunk_index c, ch_document_id c)"

definition hybrid_merge ::
  "ucd \<Rightarrow> hybrid_config \<Rightarrow> pystr \<Rightarrow> retrieved_chunk list \<Rightarrow> retrieved_chunk list \<Rightarrow> retrieved_chunk list"
where
  "hybrid_merge U h query_text dense_chunks lexical_chunks =
     (let query_terms = tokenize U query_text;
          candidates = first_by_key chunk_key (dense_chunks @ lexical_chunks);
          scored = map (\<lambda>c. c\<lparr> ch_score := hybrid_score U h dense_chunks query_terms c \<rparr>) candidates
      in sort_key rank_key scored)"

definition hybrid_retrieve ::
  "ucd \<Rightarrow> hybrid_config \<Rightarrow> (pystr list \<Rightarrow> pyfloat list list res) \<Rightarrow> 'q qdrant \<Rightarrow> vector_store \<Rightarrow> 'q
     \<Rightarrow> pystr \<Rightarrow> retrieval_filter \<Rightarrow> int \<Rightarrow> retrieved_chunk list res" where
  "hybrid_retrieve U h embed_texts Q v q query_text filters limit =
     (let candidate_limit = max limit (hc_candidate_limit h) in
      case query_vector embed_texts query_text of
        Inl e \<Rightarrow> Inl e
      | Inr vector \<Rightarrow>
          (case vs_search Q v vector filters candidate_limit q of
             Inl e \<Rightarrow> Inl e
           | Inr dense_chunks \<Rightarrow>
               (case vs_list_chunks Q v filters candidate_limit q of
                  Inl e \<Rightarrow> Inl e
                | Inr lexical_chunks \<Rightarrow>
                    Inr (slice_to limit (hybrid_merge U h query_text dense_chunks lexical_chunks)))))"

text \<open>\<open>build_retriever\<close>: the settings choose the mode and the weights.\<close>

definition build_retriever ::
  "ucd \<Rightarrow> settings \<Rightarrow> (pystr list \<Rightarrow> pyfloat list list res) \<Rightarrow> 'q qdrant \<Rightarrow> vector_store
     \<Rightarrow> 'q \<Rightarrow> pystr \<Rightarrow> retrieval_filter \<Rightarrow> int \<Rightarrow> retrieved_chunk list res" where
  "build_retriever U s embed_texts Q v q =
     (if cfg_retrieval_mode s = py ''hybrid''
      then hybrid_retrieve U \<lparr> hc_dense_weight = cfg_hybrid_dense_weight s,
        hc_lexical_weight = cfg_hybrid_lexical_weight s,
        hc_candidate_limit = cfg_hybrid_candidate_limit s \<rparr> embed_texts Q v q
      else dense_retrieve embed_texts Q v q)"

section \<open>Facts about merging\<close>

lemma first_by_key_set: "x \<in> set (first_by_key f xs) \<Longrightarrow> x \<in> set xs"
  by (induction f xs rule: first_by_key.induct) auto

lemma first_by_key_keys: "f ` set (first_by_key f xs) = f ` set xs"
proof (induction f xs rule: first_by_key.induct)
  case (2 f x xs)
  have "f ` set xs \<subseteq> insert (f x) (f ` {y \<in> set xs. f y \<noteq> f x})" by auto
  with 2 show ?case by auto
qed simp

lemma first_by_key_distinct: "distinct (map f (first_by_key f xs))"
proof (induction f xs rule: first_by_key.induct)
  case (2 f x xs)
  then show ?case using first_by_key_keys [of f "filter (\<lambda>y. f y \<noteq> f x) xs"] by auto
qed simp

lemma chunk_key_score [simp]: "chunk_key (c\<lparr>ch_score := s\<rparr>) = chunk_key c"
  by (simp add: chunk_key_def)

lemma hybrid_merge_memberE:
  assumes "c \<in> set (hybrid_merge U h t dense lexi)"
  obtains c0 where "c0 \<in> set dense \<union> set lexi"
    "c = c0\<lparr> ch_score := hybrid_score U h dense (tokenize U t) c0 \<rparr>"
proof -
  from assms obtain c0 where "c0 \<in> set (first_by_key chunk_key (dense @ lexi))"
    "c = c0\<lparr> ch_score := hybrid_score U h dense (tokenize U t) c0 \<rparr>"
    by (auto simp: hybrid_merge_def Let_def)
  with that first_by_key_set [of c0 chunk_key "dense @ lexi"] show ?thesis by auto
qed

lemma hybrid_merge_keys:
  "chunk_key ` set (hybrid_merge U h t dense lexi) = chunk_key ` (set dense \<union> set lexi)"
  using first_by_key_keys [of chunk_key "dense @ lexi"]
  by (simp add: hybrid_merge_def Let_def image_image)

lemma distinct_map_sort_key: "distinct (map g (sort_key f xs)) = distinct (map g xs)"
  by (metis mset_map mset_sort mset_eq_imp_distinct_iff)

lemma hybrid_merge_distinct: "distinct (map chunk_key (hybrid_merge U h t dense lexi))"
  using first_by_key_distinct [of chunk_key "dense @ lexi"]
  by (simp add: hybrid_merge_def Let_def distinct_map_sort_key comp_def)

lemma hybrid_merge_sorted: "sorted (map rank_key (hybrid_merge U h t dense lexi))"
  by (simp add: hybrid_merge_def Let_def)

lemma lexical_score_unit: "0 \<le> lexical_score U ts s \<and> lexical_score U ts s \<le> 1"
  by (auto simp: lexical_score_def Let_def intro!: idiv_unit)

section \<open>The retrievers satisfy the protocol\<close>

interpretation dense: retriever "dense_retrieve embed_texts Q v q" "qdrant_reads_ok Q"
  for embed_texts :: "pystr list \<Rightarrow> pyfloat list list res" and Q :: "'q qdrant" and v :: vector_store and q :: 'q
proof unfold_locales
  fix k t f cs c
  assume "qdrant_reads_ok Q" "0 \<le> k" "dense_retrieve embed_texts Q v q t f k = Inr cs"
  then obtain vec where "vs_search Q v vec f k q = Inr cs"
    by (auto simp: dense_retrieve_def split: sum.splits)
  from vs_search_ok [OF \<open>qdrant_reads_ok Q\<close> this \<open>0 \<le> k\<close>]
  show "int (length cs) \<le> k" and "c \<in> set cs \<Longrightarrow> chunk_within f c" by auto
qed

lemma hybrid_retrieve_Inr:
  assumes "hybrid_retrieve U h embed_texts Q v q t f k = Inr cs"
  obtains vec dense lexi where
    "vs_search Q v vec f (max k (hc_candidate_limit h)) q = Inr dense"
    "vs_list_chunks Q v f (max k (hc_candidate_limit h)) q = Inr lexi"
    "cs = slice_to k (hybrid_merge U h t dense lexi)"
  using assms by (auto simp: hybrid_retrieve_def Let_def split: sum.splits)

interpretation hybrid: retriever "hybrid_retrieve U h embed_texts Q v q" "qdrant_reads_ok Q"
  for U :: ucd and h :: hybrid_config and embed_texts :: "pystr list \<Rightarrow> pyfloat list list res"
    and Q :: "'q qdrant" and v :: vector_store and q :: 'q
proof unfold_locales
  fix k t f cs c
  assume ok: "qdrant_reads_ok Q" and k: "0 \<le> k" and r: "hybrid_retrieve U h embed_texts Q v q t f k = Inr cs"
  from r obtain vec dense lexi where
    d: "vs_search Q v vec f (max k (hc_candidate_limit h)) q = Inr dense"
    and l: "vs_list_chunks Q v f (max k (hc_candidate_limit h)) q = Inr lexi"
    and cs: "cs = slice_to k (hybrid_merge U h t dense lexi)"
    by (rule hybrid_retrieve_Inr)
  show "int (length cs) \<le> k" unfolding cs by (rule length_slice_to [OF k])
  assume "c \<in> set cs"
  then have "c \<in> set (hybrid_merge U h t dense lexi)"
    unfolding cs by (rule subsetD [OF set_slice_to])
  then obtain c0 where "c0 \<in> set dense \<union> set lexi"
    and c: "c = c0\<lparr> ch_score := hybrid_score U h dense (tokenize U t) c0 \<rparr>"
    by (rule hybrid_merge_memberE)
  then have "chunk_within f c0"
    using vs_search_ok(2) [OF ok d] vs_list_chunks_ok [OF ok l] k by auto
  with c show "chunk_within f c" by simp
qed

interpretation built: retriever "build_retriever U s embed_texts Q v q" "qdrant_reads_ok Q"
  for U :: ucd and s :: settings
    and embed_texts :: "pystr list \<Rightarrow> pyfloat list list res" and Q :: "'q qdrant" and v :: vector_store and q :: 'q
  by (cases "cfg_retrieval_mode s = py ''hybrid''")
    (simp_all add: build_retriever_def hybrid.retriever_axioms dense.retriever_axioms)

text \<open>What a retriever returns is stored: the payload of some point with a score.\<close>

lemma built_stored:
  assumes "qdrant_reads_ok Q" "0 \<le> k" "build_retriever U s embed_texts Q v q t f k = Inr cs" "c \<in> set cs"
  shows "shows_stored (set (qd_points Q (vs_collection_name v) q)) c"
proof (cases "cfg_retrieval_mode s = py ''hybrid''")
  case False
  with assms(3) obtain vec where "vs_search Q v vec f k q = Inr cs"
    by (auto simp: build_retriever_def dense_retrieve_def split: sum.splits)
  from vs_search_stored [OF assms(1) this assms(2,4)] show ?thesis .
next
  case True
  with assms(3) obtain h where "hybrid_retrieve U h embed_texts Q v q t f k = Inr cs"
    by (simp add: build_retriever_def)
  then obtain vec dense lexi where
    d: "vs_search Q v vec f (max k (hc_candidate_limit h)) q = Inr dense"
    and l: "vs_list_chunks Q v f (max k (hc_candidate_limit h)) q = Inr lexi"
    and cs: "cs = slice_to k (hybrid_merge U h t dense lexi)"
    by (rule hybrid_retrieve_Inr)
  from assms(4) have "c \<in> set (hybrid_merge U h t dense lexi)" unfolding cs by (rule subsetD [OF set_slice_to])
  then obtain c0 where c0: "c0 \<in> set dense \<union> set lexi" and c: "c = c0\<lparr> ch_score := hybrid_score U h dense (tokenize U t) c0 \<rparr>"
    by (rule hybrid_merge_memberE)
  from c0 have "shows_stored (set (qd_points Q (vs_collection_name v) q)) c0"
    using vs_search_stored [OF assms(1) d] vs_list_chunks_stored [OF assms(1) l] assms(2) by auto
  then show ?thesis unfolding c by (rule shows_stored_score)
qed

end
