(* ===== verification/Reranking.thy ===== *)
theory Reranking
  imports Vector_Store Http Config
begin

text \<open>
  \<open>reranking/base.py\<close>, \<open>reranking/bge_client.py\<close>, \<open>reranking/profiles.py\<close>: the protocol
  \<open>Reranker\<close> as a locale, the reranker that keeps the retrieval scores and the client of the BGE
  reranker server with the validation of its response. A reranker returns chunks it was given, each
  at most once, and no more than \<open>top_k\<close> of them, whatever the server answers.
\<close>

record rerank_request =
  rr_query :: pystr
  rr_chunks :: "retrieved_chunk list"
  rr_top_k :: int

record reranked_chunk =
  rk_chunk :: retrieved_chunk
  rk_rerank_score :: pyfloat

text \<open>The model's constraints: \<open>query\<close> has a character, \<open>top_k\<close> is positive.\<close>

definition make_rerank_request :: "pystr \<Rightarrow> retrieved_chunk list \<Rightarrow> int \<Rightarrow> rerank_request res" where
  "make_rerank_request query chunks top_k =
     (if query = [] then Inl (ValueError (py ''String should have at least 1 character''))
      else if top_k \<le> 0 then Inl (ValueError (py ''Input should be greater than 0''))
      else Inr \<lparr> rr_query = query, rr_chunks = chunks, rr_top_k = top_k \<rparr>)"

section \<open>The protocol\<close>

text \<open>The reranked chunks are the given ones at some pairwise different positions.\<close>

definition picks :: "'a list \<Rightarrow> 'a list \<Rightarrow> bool" where
  "picks xs ys \<longleftrightarrow> (\<exists>is. distinct is \<and> (\<forall>i \<in> set is. i < length xs) \<and> ys = map ((!) xs) is)"

lemma picks_subset: "picks xs ys \<Longrightarrow> set ys \<subseteq> set xs"
  by (auto simp: picks_def)

lemma picks_distinct: "picks xs ys \<Longrightarrow> distinct xs \<Longrightarrow> distinct ys"
  by (auto simp: picks_def distinct_map inj_on_def nth_eq_iff_index_eq)

lemma picks_take: "picks xs (take n xs)"
proof -
  have "take n xs = map ((!) xs) [0..<min n (length xs)]"
    by (intro nth_equalityI) auto
  then show ?thesis unfolding picks_def by (intro exI [of _ "[0..<min n (length xs)]"]) auto
qed

locale reranker =
  fixes rerank :: "rerank_request \<Rightarrow> reranked_chunk list res"
  assumes rerank_picks: "0 < rr_top_k r \<Longrightarrow> rerank r = Inr ys \<Longrightarrow> picks (rr_chunks r) (map rk_chunk ys)"
    and rerank_bound: "0 < rr_top_k r \<Longrightarrow> rerank r = Inr ys \<Longrightarrow> int (length ys) \<le> rr_top_k r"
begin

lemma rerank_from_request:
  "0 < rr_top_k r \<Longrightarrow> rerank r = Inr ys \<Longrightarrow> y \<in> set ys \<Longrightarrow> rk_chunk y \<in> set (rr_chunks r)"
  using picks_subset [OF rerank_picks] by fastforce

lemma rerank_no_repeat:
  "0 < rr_top_k r \<Longrightarrow> rerank r = Inr ys \<Longrightarrow> distinct (rr_chunks r) \<Longrightarrow> distinct (map rk_chunk ys)"
  using picks_distinct [OF rerank_picks] by blast

end

section \<open>ScorePreservingReranker\<close>

definition score_preserving_rerank :: "rerank_request \<Rightarrow> reranked_chunk list res" where
  "score_preserving_rerank r =
     Inr (map (\<lambda>c. \<lparr> rk_chunk = c, rk_rerank_score = ch_score c \<rparr>) (slice_to (rr_top_k r) (rr_chunks r)))"

interpretation score_reranker: reranker score_preserving_rerank
proof unfold_locales
  fix r ys
  assume "0 < rr_top_k r" "score_preserving_rerank r = Inr ys"
  then show "picks (rr_chunks r) (map rk_chunk ys)" and "int (length ys) \<le> rr_top_k r"
    by (auto simp: score_preserving_rerank_def slice_to_def comp_def picks_take)
qed

section \<open>BGERerankerClient\<close>

record reranker_profile =
  rp_base_url :: pystr
  rp_model :: pystr
  rp_api_key :: "pystr option"
  rp_timeout_seconds :: pyfloat

definition make_reranker_profile :: "pystr \<Rightarrow> pystr \<Rightarrow> pystr option \<Rightarrow> pyfloat \<Rightarrow> reranker_profile res" where
  "make_reranker_profile base_url model api_key timeout_seconds =
     (if \<not> 0 < timeout_seconds then Inl (ValueError (py ''Input should be greater than 0''))
      else Inr \<lparr> rp_base_url = normalize_base_url base_url, rp_model = model,
        rp_api_key = normalize_api_key api_key, rp_timeout_seconds = timeout_seconds \<rparr>)"

definition rerank_http_request :: "reranker_profile \<Rightarrow> rerank_request \<Rightarrow> http_request" where
  "rerank_http_request profile r =
     \<lparr> rq_url = rp_base_url profile @ py ''/rerank'',
       rq_headers = build_headers (rp_api_key profile),
       rq_json = JObj [(py ''model'', JStr (rp_model profile)), (py ''query'', JStr (rr_query r)),
         (py ''documents'', JList (map (JStr \<circ> ch_chunk_text) (rr_chunks r))),
         (py ''top_n'', JInt (rr_top_k r))],
       rq_timeout = rp_timeout_seconds profile \<rparr>"

definition reranker_error :: "string \<Rightarrow> exn" where
  "reranker_error m = RerankerProviderError (py m)"

text \<open>One result: its index and score, given the indexes used so far.\<close>

definition parse_rerank_item :: "nat \<Rightarrow> nat set \<Rightarrow> json \<Rightarrow> (nat \<times> pyfloat) res" where
  "parse_rerank_item n_chunks used_indexes item =
     (case as_obj item of
        None \<Rightarrow> Inl (reranker_error ''BGE reranker result item was invalid'')
      | Some d \<Rightarrow>
          (case as_int (jget (py ''index'') d) of
             None \<Rightarrow> Inl (reranker_error ''BGE reranker result index was invalid'')
           | Some index \<Rightarrow>
               if index < 0 \<or> int n_chunks \<le> index
               then Inl (reranker_error ''BGE reranker result index was invalid'')
               else if nat index \<in> used_indexes
               then Inl (reranker_error ''BGE reranker result index was duplicated'')
               else (case as_float (jget (py ''relevance_score'') d) of
                  None \<Rightarrow> Inl (reranker_error ''BGE reranker result relevance_score was invalid'')
                | Some score \<Rightarrow> Inr (nat index, score))))"

fun parse_rerank_loop :: "retrieved_chunk list \<Rightarrow> nat set \<Rightarrow> json list \<Rightarrow> reranked_chunk list res" where
  "parse_rerank_loop chunks used [] = Inr []"
| "parse_rerank_loop chunks used (item # items) =
     (case parse_rerank_item (length chunks) used item of
        Inl e \<Rightarrow> Inl e
      | Inr (index, score) \<Rightarrow>
          (case parse_rerank_loop chunks (insert index used) items of
             Inl e \<Rightarrow> Inl e
           | Inr rest \<Rightarrow>
               Inr (\<lparr> rk_chunk = chunks ! index, rk_rerank_score = score \<rparr> # rest)))"

definition parse_rerank_response :: "json \<Rightarrow> rerank_request \<Rightarrow> reranked_chunk list res" where
  "parse_rerank_response response_body r =
     (case as_obj response_body of
        None \<Rightarrow> Inl (no_attribute_get response_body)
      | Some body \<Rightarrow>
          (case as_list (jget (py ''results'') body) of
             None \<Rightarrow> Inl (reranker_error ''BGE reranker response did not include results'')
           | Some results \<Rightarrow> parse_rerank_loop (rr_chunks r) {} (slice_to (rr_top_k r) results)))"

definition bge_rerank ::
  "reranker_profile \<Rightarrow> (http_request \<Rightarrow> http_result) \<Rightarrow> rerank_request \<Rightarrow> reranked_chunk list res" where
  "bge_rerank profile post r =
     (if rr_chunks r = [] then Inr []
      else case post (rerank_http_request profile r) of
        HttpError exc \<Rightarrow> Inl (RerankerProviderError (py ''BGE reranker request failed: '' @ exc))
      | HttpResponse response \<Rightarrow>
          if 400 \<le> rs_status_code response
          then Inl (RerankerProviderError (py ''BGE reranker request failed with HTTP ''
            @ str_int (rs_status_code response) @ py '': '' @ extract_error_message response))
          else (case rs_json response of
             None \<Rightarrow> Inl (reranker_error ''BGE reranker response was not valid JSON'')
           | Some body \<Rightarrow> parse_rerank_response body r))"

lemma parse_rerank_item_Inr:
  "parse_rerank_item n used item = Inr (i, s) \<Longrightarrow> i < n \<and> i \<notin> used"
  by (auto simp: parse_rerank_item_def split: option.splits if_splits)

lemma parse_rerank_loop_Inr:
  "parse_rerank_loop chunks used items = Inr ys \<Longrightarrow>
     \<exists>is. distinct is \<and> (\<forall>i \<in> set is. i < length chunks \<and> i \<notin> used)
       \<and> map rk_chunk ys = map ((!) chunks) is \<and> length ys = length items"
proof (induction chunks used items arbitrary: ys rule: parse_rerank_loop.induct)
  case (2 chunks used item items)
  from "2.prems" obtain i s rest where
    i: "parse_rerank_item (length chunks) used item = Inr (i, s)"
    and rest: "parse_rerank_loop chunks (insert i used) items = Inr rest"
    and ys: "ys = \<lparr> rk_chunk = chunks ! i, rk_rerank_score = s \<rparr> # rest"
    by (auto split: sum.splits)
  from "2.IH" [OF i refl rest] obtain "is" where "is": "distinct is"
    "\<forall>j \<in> set is. j < length chunks \<and> j \<notin> insert i used" "map rk_chunk rest = map ((!) chunks) is"
    "length rest = length items" by blast
  with parse_rerank_item_Inr [OF i] ys show ?case by (intro exI [of _ "i # is"]) auto
qed simp

interpretation bge_reranker: reranker "bge_rerank profile post"
  for profile :: reranker_profile and post :: "http_request \<Rightarrow> http_result"
proof unfold_locales
  fix r ys
  assume k: "0 < rr_top_k r" and r: "bge_rerank profile post r = Inr ys"
  have *: "ys = [] \<or> (\<exists>items. parse_rerank_loop (rr_chunks r) {} (slice_to (rr_top_k r) items) = Inr ys)"
    using r by (auto simp: bge_rerank_def parse_rerank_response_def
        split: if_splits http_result.splits option.splits)
  then show "picks (rr_chunks r) (map rk_chunk ys)"
  proof (elim disjE exE)
    fix items
    assume "parse_rerank_loop (rr_chunks r) {} (slice_to (rr_top_k r) items) = Inr ys"
    from parse_rerank_loop_Inr [OF this] show ?thesis unfolding picks_def by blast
  qed (simp add: picks_def)
  from * show "int (length ys) \<le> rr_top_k r"
  proof (elim disjE exE)
    fix items
    assume "parse_rerank_loop (rr_chunks r) {} (slice_to (rr_top_k r) items) = Inr ys"
    from parse_rerank_loop_Inr [OF this] have "length ys = length (slice_to (rr_top_k r) items)" by blast
    then show ?thesis using length_slice_to [of "rr_top_k r" items] k by simp
  qed (use k in simp)
qed

section \<open>The configured reranker\<close>

definition get_default_reranker_profile :: "settings \<Rightarrow> reranker_profile res" where
  "get_default_reranker_profile s = make_reranker_profile (cfg_reranker_base_url s)
     (cfg_reranker_model s) (cfg_reranker_api_key s) (cfg_reranker_timeout_seconds s)"

text \<open>\<open>get_reranker\<close> of \<open>chat/router.py\<close>.\<close>

definition get_reranker ::
  "settings \<Rightarrow> (http_request \<Rightarrow> http_result) \<Rightarrow> (rerank_request \<Rightarrow> reranked_chunk list res) res" where
  "get_reranker s post =
     (if cfg_reranker_backend s = py ''bge''
      then (case get_default_reranker_profile s of
         Inl e \<Rightarrow> Inl e | Inr profile \<Rightarrow> Inr (bge_rerank profile post))
      else Inr score_preserving_rerank)"

lemma get_reranker_ok: "get_reranker s post = Inr rr \<Longrightarrow> reranker rr"
  by (auto simp: get_reranker_def intro: bge_reranker.reranker_axioms score_reranker.reranker_axioms
      split: if_splits sum.splits)

end
