(* ===== verification/Llm.thy ===== *)
theory Llm
  imports Http Config
begin

text \<open>
  \<open>llm/base.py\<close>, \<open>llm/profiles.py\<close>, \<open>llm/vllm_client.py\<close>: chat messages, the request and response
  of the protocol \<open>LLMClient\<close>, and the vLLM client with its retry loop and the validation of the
  server's answer. \<open>post n\<close> is the outcome of the \<open>n\<close>-th request the client sends; the loop also
  returns the requests it made and the pauses between them.
\<close>

datatype message_role = System | User | Assistant

fun role_str :: "message_role \<Rightarrow> pystr" where
  "role_str System = py ''system''"
| "role_str User = py ''user''"
| "role_str Assistant = py ''assistant''"

record chat_message =
  cm_role :: message_role
  cm_content :: pystr

record llm_request =
  lq_messages :: "chat_message list"
  lq_max_tokens :: "int option"
  lq_temperature :: "pyfloat option"

record llm_response =
  lr_content :: pystr
  lr_model :: pystr
  lr_finish_reason :: "pystr option"
  lr_prompt_tokens :: "int option"
  lr_completion_tokens :: "int option"
  lr_total_tokens :: "int option"

record llm_profile =
  lp_base_url :: pystr
  lp_model :: pystr
  lp_api_key :: "pystr option"
  lp_timeout_seconds :: pyfloat
  lp_max_tokens :: int
  lp_temperature :: pyfloat
  lp_max_retries :: nat
  lp_retry_backoff_seconds :: pyfloat

text \<open>\<open>get_default_llm_profile\<close>: the profile the settings describe, checked by its model.\<close>

definition get_default_llm_profile :: "settings \<Rightarrow> llm_profile res" where
  "get_default_llm_profile s =
     (if \<not> 0 < cfg_llm_timeout_seconds s \<or> \<not> 0 < cfg_llm_max_tokens s
      then Inl (ValueError (py ''Input should be greater than 0''))
      else if cfg_llm_temperature s < 0 \<or> cfg_llm_max_retries s < 0 \<or> cfg_llm_retry_backoff_seconds s < 0
      then Inl (ValueError (py ''Input should be greater than or equal to 0''))
      else Inr \<lparr> lp_base_url = normalize_base_url (cfg_llm_base_url s), lp_model = cfg_llm_model s,
        lp_api_key = normalize_api_key (cfg_llm_api_key s),
        lp_timeout_seconds = cfg_llm_timeout_seconds s, lp_max_tokens = cfg_llm_max_tokens s,
        lp_temperature = cfg_llm_temperature s, lp_max_retries = nat (cfg_llm_max_retries s),
        lp_retry_backoff_seconds = cfg_llm_retry_backoff_seconds s \<rparr>)"

definition llm_error :: "string \<Rightarrow> exn" where
  "llm_error m = LLMProviderError (py m)"

section \<open>The request\<close>

text \<open>\<open>request.max_tokens or profile.max_tokens\<close>: zero counts as absent.\<close>

definition llm_payload :: "llm_profile \<Rightarrow> llm_request \<Rightarrow> json" where
  "llm_payload profile request =
     JObj [(py ''model'', JStr (lp_model profile)),
       (py ''messages'', JList (map (\<lambda>m. JObj [(py ''role'', JStr (role_str (cm_role m))),
          (py ''content'', JStr (cm_content m))]) (lq_messages request))),
       (py ''max_tokens'', JInt (case lq_max_tokens request of
          None \<Rightarrow> lp_max_tokens profile | Some n \<Rightarrow> if n = 0 then lp_max_tokens profile else n)),
       (py ''temperature'', JFloat (case lq_temperature request of
          None \<Rightarrow> lp_temperature profile | Some t \<Rightarrow> t))]"

definition llm_http_request :: "llm_profile \<Rightarrow> json \<Rightarrow> http_request" where
  "llm_http_request profile payload =
     \<lparr> rq_url = lp_base_url profile @ py ''/chat/completions'',
       rq_headers = build_headers (lp_api_key profile),
       rq_json = payload, rq_timeout = lp_timeout_seconds profile \<rparr>"

section \<open>The answer\<close>

fun optional_int :: "json \<Rightarrow> int option" where
  "optional_int v = as_int v"

fun optional_str :: "json \<Rightarrow> pystr option" where
  "optional_str v = as_str v"

text \<open>The truth value of a JSON value; \<open>py_str\<close> is \<open>str(v)\<close> on a value that is not a string.\<close>

fun json_truthy :: "json \<Rightarrow> bool" where
  "json_truthy JNull = False"
| "json_truthy (JBool b) = b"
| "json_truthy (JInt i) = (i \<noteq> 0)"
| "json_truthy (JFloat x) = (x \<noteq> 0)"
| "json_truthy (JStr s) = (s \<noteq> [])"
| "json_truthy (JList l) = (l \<noteq> [])"
| "json_truthy (JObj d) = (d \<noteq> [])"

definition response_model :: "(json \<Rightarrow> pystr) \<Rightarrow> llm_profile \<Rightarrow> json \<Rightarrow> pystr" where
  "response_model py_str profile v =
     (if json_truthy v then (case v of JStr s \<Rightarrow> s | _ \<Rightarrow> py_str v) else lp_model profile)"

definition parse_llm_response ::
  "(json \<Rightarrow> pystr) \<Rightarrow> llm_profile \<Rightarrow> json \<Rightarrow> llm_response res" where
  "parse_llm_response py_str profile response_body =
     (case as_obj response_body of
        None \<Rightarrow> Inl (no_attribute_get response_body)
      | Some body \<Rightarrow>
          (case as_list (jget (py ''choices'') body) of
             None \<Rightarrow> Inl (llm_error ''vLLM response did not include choices'')
           | Some [] \<Rightarrow> Inl (llm_error ''vLLM response did not include choices'')
           | Some (choice # _) \<Rightarrow>
               (case as_obj choice of
                  None \<Rightarrow> Inl (llm_error ''vLLM response choices[0] was invalid'')
                | Some first_choice \<Rightarrow>
                    (case as_obj (jget (py ''message'') first_choice) of
                       None \<Rightarrow> Inl (llm_error ''vLLM response choices[0].message was invalid'')
                     | Some message \<Rightarrow>
                         (let content = as_str (jget (py ''content'') message);
                              usage = (case as_obj (jget (py ''usage'') body) of
                                None \<Rightarrow> [] | Some u \<Rightarrow> u)
                          in if \<not> truthy content
                             then Inl (llm_error ''vLLM response choices[0].message.content was invalid'')
                             else Inr \<lparr> lr_content = the content,
                               lr_model = response_model py_str profile (jget (py ''model'') body),
                               lr_finish_reason = optional_str (jget (py ''finish_reason'') first_choice),
                               lr_prompt_tokens = optional_int (jget (py ''prompt_tokens'') usage),
                               lr_completion_tokens = optional_int (jget (py ''completion_tokens'') usage),
                               lr_total_tokens = optional_int (jget (py ''total_tokens'') usage) \<rparr>)))))"

section \<open>The retry loop\<close>

definition should_retry_status :: "int \<Rightarrow> bool" where
  "should_retry_status status_code \<longleftrightarrow> status_code = 429 \<or> 500 \<le> status_code"

definition status_error :: "http_response \<Rightarrow> exn" where
  "status_error response = LLMProviderError (py ''vLLM request failed with HTTP ''
     @ str_int (rs_status_code response) @ py '': '' @ extract_error_message response)"

definition sleep_before_retry :: "llm_profile \<Rightarrow> pyfloat list" where
  "sleep_before_retry profile =
     (if 0 < lp_retry_backoff_seconds profile then [lp_retry_backoff_seconds profile] else [])"

text \<open>The result, the number of requests sent, and the pauses.\<close>

type_synonym 'a trace = "'a res \<times> nat \<times> pyfloat list"

definition add_attempt :: "pyfloat list \<Rightarrow> 'a trace \<Rightarrow> 'a trace" where
  "add_attempt pause t = (case t of (r, n, pauses) \<Rightarrow> (r, Suc n, pause @ pauses))"

function post_with_retry_loop ::
  "(json \<Rightarrow> pystr) \<Rightarrow> llm_profile \<Rightarrow> (nat \<Rightarrow> http_request \<Rightarrow> http_result) \<Rightarrow> json
     \<Rightarrow> nat \<Rightarrow> nat \<Rightarrow> exn option \<Rightarrow> llm_response trace" where
  "post_with_retry_loop py_str profile post payload attempts attempt last_error =
     (if attempt < attempts then
        (case post attempt (llm_http_request profile payload) of
           HttpError exc \<Rightarrow>
             (let err = LLMProviderError (py ''vLLM request failed: '' @ exc) in
              if attempt < attempts - 1
              then add_attempt (sleep_before_retry profile)
                (post_with_retry_loop py_str profile post payload attempts (Suc attempt) (Some err))
              else (Inl err, 1, []))
         | HttpResponse response \<Rightarrow>
             if 400 \<le> rs_status_code response then
               (let err = status_error response in
                if should_retry_status (rs_status_code response) \<and> attempt < attempts - 1
                then add_attempt (sleep_before_retry profile)
                  (post_with_retry_loop py_str profile post payload attempts (Suc attempt) (Some err))
                else (Inl err, 1, []))
             else (case rs_json response of
                None \<Rightarrow> (Inl (llm_error ''vLLM response was not valid JSON''), 1, [])
              | Some body \<Rightarrow> (parse_llm_response py_str profile body, 1, [])))
      else (case last_error of
          Some e \<Rightarrow> (Inl e, 0, [])
        | None \<Rightarrow> (Inl (llm_error ''vLLM request failed''), 0, [])))"
  by pat_completeness auto
termination
  by (relation "measure (\<lambda>(ps, p, post, pl, attempts, attempt, e). attempts - attempt)") auto

declare post_with_retry_loop.simps [simp del]

definition post_with_retry ::
  "(json \<Rightarrow> pystr) \<Rightarrow> llm_profile \<Rightarrow> (nat \<Rightarrow> http_request \<Rightarrow> http_result) \<Rightarrow> json \<Rightarrow> llm_response trace"
where
  "post_with_retry py_str profile post payload =
     post_with_retry_loop py_str profile post payload (lp_max_retries profile + 1) 0 None"

definition vllm_generate ::
  "(json \<Rightarrow> pystr) \<Rightarrow> llm_profile \<Rightarrow> (nat \<Rightarrow> http_request \<Rightarrow> http_result) \<Rightarrow> llm_request
     \<Rightarrow> llm_response trace" where
  "vllm_generate py_str profile post request =
     post_with_retry py_str profile post (llm_payload profile request)"

section \<open>What the loop does\<close>

text \<open>The outcomes after which the client tries again, and the result of a final outcome.\<close>

fun retryable :: "http_result \<Rightarrow> bool" where
  "retryable (HttpError _) = True"
| "retryable (HttpResponse r) = should_retry_status (rs_status_code r)"

fun final_result :: "(json \<Rightarrow> pystr) \<Rightarrow> llm_profile \<Rightarrow> http_result \<Rightarrow> llm_response res" where
  "final_result py_str profile (HttpError exc) = Inl (LLMProviderError (py ''vLLM request failed: '' @ exc))"
| "final_result py_str profile (HttpResponse r) =
     (if 400 \<le> rs_status_code r then Inl (status_error r)
      else case rs_json r of None \<Rightarrow> Inl (llm_error ''vLLM response was not valid JSON'')
        | Some body \<Rightarrow> parse_llm_response py_str profile body)"

text \<open>The number of requests: up to and with the first outcome that is not retryable, at most \<open>n\<close>.\<close>

fun tries :: "(nat \<Rightarrow> http_result) \<Rightarrow> nat \<Rightarrow> nat \<Rightarrow> nat" where
  "tries outcome k 0 = 0"
| "tries outcome k (Suc n) = (if n = 0 \<or> \<not> retryable (outcome k) then 1 else Suc (tries outcome (Suc k) n))"

lemma tries_bounds: "0 < n \<Longrightarrow> 0 < tries outcome k n \<and> tries outcome k n \<le> n"
  by (induction outcome k n rule: tries.induct) auto

lemma tries_retryable: "i + 1 < tries outcome k n \<Longrightarrow> retryable (outcome (k + i))"
proof (induction outcome k n arbitrary: i rule: tries.induct)
  case (2 outcome k n)
  then show ?case by (cases i) (auto split: if_splits)
qed simp

lemma retryable_error: "retryable o' \<Longrightarrow> \<exists>e. final_result py_str profile o' = Inl e"
  by (cases o') (auto simp: should_retry_status_def)

lemma post_with_retry_loop_eq:
  fixes profile post payload
  assumes "attempt < attempts"
  defines "outcome \<equiv> \<lambda>n. post n (llm_http_request profile payload)"
  shows "post_with_retry_loop py_str profile post payload attempts attempt e =
    (let n = tries outcome attempt (attempts - attempt) in
     (final_result py_str profile (outcome (attempt + n - 1)), n,
      concat (replicate (n - 1) (sleep_before_retry profile))))"
  using assms(1)
proof (induction "attempts - attempt - 1" arbitrary: attempt e)
  case 0
  then have a: "attempts - attempt = Suc 0" "\<not> attempt < attempts - 1" by simp_all
  show ?case
    using 0 a by (auto simp: post_with_retry_loop.simps [of _ _ _ _ attempts attempt] outcome_def Let_def
        split: http_result.splits option.splits)
next
  case (Suc d)
  let ?o = "post attempt (llm_http_request profile payload)"
  have lt: "attempt < attempts - 1" using Suc.hyps(2) by simp
  then obtain m where m: "attempts - attempt = Suc m" "0 < m" "attempts - Suc attempt = m"
    by (cases "attempts - attempt") auto
  show ?case
  proof (cases "retryable ?o")
    case True
    obtain err where step: "post_with_retry_loop py_str profile post payload attempts attempt e =
        add_attempt (sleep_before_retry profile)
          (post_with_retry_loop py_str profile post payload attempts (Suc attempt) (Some err))"
      using True lt Suc.prems
      by (cases ?o) (auto simp: post_with_retry_loop.simps [of _ _ _ _ attempts attempt] Let_def
          should_retry_status_def)
    let ?n = "tries outcome (Suc attempt) m"
    have n: "0 < ?n" using tries_bounds m(2) by blast
    have IH: "post_with_retry_loop py_str profile post payload attempts (Suc attempt) (Some err) =
        (final_result py_str profile (outcome (Suc attempt + ?n - 1)), ?n,
          concat (replicate (?n - 1) (sleep_before_retry profile)))"
      using Suc.hyps(1) [of "Suc attempt" "Some err"] Suc.hyps(2) lt m(3) by (simp add: Let_def)
    have t: "tries outcome attempt (Suc m) = Suc ?n" using True m(2) by (simp add: outcome_def)
    obtain l where "?n = Suc l" using n by (cases ?n) auto
    then show ?thesis unfolding step IH m(1) t by (simp add: add_attempt_def Let_def)
  next
    case False
    then have t: "tries outcome attempt (Suc m) = 1" by (simp add: outcome_def)
    show ?thesis unfolding m(1) t
      using False Suc.prems
      by (cases ?o) (auto simp: post_with_retry_loop.simps [of _ _ _ _ attempts attempt] outcome_def
          Let_def split: option.splits)
  qed
qed

end
