(* ===== verification/Doc_Store.thy ===== *)
theory Doc_Store
  imports PyStr Security Config
begin

text \<open>
  Document metadata: the records of \<open>documents/models.py\<close>, the protocol \<open>DocumentMetadataStore\<close>
  and its two implementations, \<open>InMemoryDocumentMetadataStore\<close> (\<open>documents/store.py\<close>, a list of
  records) and \<open>PostgresDocumentMetadataStore\<close> (\<open>documents/postgres_store.py\<close>, a table with primary
  key \<open>document_id\<close> and the store's SQL statements as operations on its rows).

  The protocol is the record of functions \<open>doc_store\<close> with the locale \<open>document_metadata_store\<close> for
  its contract; both implementations are interpreted. The services use the contract only.
\<close>

section \<open>Records\<close>

record document_metadata =
  dm_document_id :: pystr
  dm_workspace_id :: pystr
  dm_workspace_name :: pystr
  dm_uploaded_by_employee_id :: "pystr option"
  dm_security_level :: pystr
  dm_filename :: pystr
  dm_parser :: pystr
  dm_character_count :: int
  dm_text_preview :: pystr
  dm_storage_key :: pystr
  dm_indexing_job_id :: pystr
  dm_indexing_status :: pystr
  dm_indexing_error :: "pystr option"
  dm_chunk_count :: int

record document_record = document_metadata +
  dm_uploaded_at :: timestamp

text \<open>\<open>DocumentRecord(**response.model_dump(), uploaded_at=now)\<close>.\<close>

definition to_document_record :: "timestamp \<Rightarrow> document_metadata \<Rightarrow> document_record" where
  "to_document_record now m = document_metadata.extend m (document_record.fields now)"

definition doc_key :: "document_record \<Rightarrow> pystr \<times> pystr" where
  "doc_key d = (dm_workspace_id d, dm_document_id d)"

record 's doc_store =
  ds_record :: "document_record \<Rightarrow> 's \<Rightarrow> 's"
  ds_get :: "pystr \<Rightarrow> pystr \<Rightarrow> 's \<Rightarrow> document_record option"
  ds_delete :: "pystr \<Rightarrow> pystr \<Rightarrow> 's \<Rightarrow> document_record option \<times> 's"
  ds_list :: "pystr \<Rightarrow> int \<Rightarrow> 's \<Rightarrow> document_record list"

section \<open>The contract\<close>

text \<open>
  \<open>can_record d s\<close>: recording \<open>d\<close> does not touch another document. Updating a stored document and
  recording a fresh identifier always qualify.
\<close>

locale document_metadata_store =
  fixes st :: "'s doc_store" and invar :: "'s \<Rightarrow> bool"
    and can_record :: "document_record \<Rightarrow> 's \<Rightarrow> bool"
  assumes get_key: "invar s \<Longrightarrow> ds_get st w i s = Some d \<Longrightarrow> doc_key d = (w, i)"
    and can_update: "invar s \<Longrightarrow> ds_get st w i s = Some d \<Longrightarrow> doc_key d' = (w, i) \<Longrightarrow> can_record d' s"
    and can_create: "invar s \<Longrightarrow> (\<And>w. ds_get st w (dm_document_id d) s = None) \<Longrightarrow> can_record d s"
    and record_invar: "invar s \<Longrightarrow> invar (ds_record st d s)"
    and delete_invar: "invar s \<Longrightarrow> invar (snd (ds_delete st w i s))"
    and get_record: "invar s \<Longrightarrow> can_record d s \<Longrightarrow>
      ds_get st w i (ds_record st d s) = (if doc_key d = (w, i) then Some d else ds_get st w i s)"
    and delete_result: "invar s \<Longrightarrow> fst (ds_delete st w i s) = ds_get st w i s"
    and get_delete: "invar s \<Longrightarrow> ds_get st w' i' (snd (ds_delete st w i s)) =
      (if (w', i') = (w, i) then None else ds_get st w' i' s)"
    and list_sound: "invar s \<Longrightarrow> d \<in> set (ds_list st w k s) \<Longrightarrow> ds_get st w (dm_document_id d) s = Some d"
    and list_bound: "0 \<le> k \<Longrightarrow> int (length (ds_list st w k s)) \<le> k"
    and list_sorted: "sorted_wrt (\<lambda>a b. dm_uploaded_at b \<le> dm_uploaded_at a) (ds_list st w k s)"
    and list_complete: "invar s \<Longrightarrow> int (length (ds_list st w k s)) < k \<Longrightarrow>
      ds_get st w i s = Some d \<Longrightarrow> d \<in> set (ds_list st w k s)"
begin

lemma list_workspace: "invar s \<Longrightarrow> d \<in> set (ds_list st w k s) \<Longrightarrow> dm_workspace_id d = w"
  using get_key list_sound by (fastforce simp: doc_key_def)

lemma update_get:
  assumes "invar s" "ds_get st w i s = Some d" "doc_key d' = doc_key d"
  shows "ds_get st w' i' (ds_record st d' s) =
    (if (w', i') = (w, i) then Some d' else ds_get st w' i' s)"
proof -
  have k: "doc_key d' = (w, i)" using get_key [OF assms(1,2)] assms(3) by simp
  show ?thesis using get_record [OF assms(1) can_update [OF assms(1,2) k]] k by auto
qed

lemma create_get:
  "invar s \<Longrightarrow> (\<And>w. ds_get st w (dm_document_id d) s = None) \<Longrightarrow>
     ds_get st (dm_workspace_id d) (dm_document_id d) (ds_record st d s) = Some d"
  using get_record [OF _ can_create] by (simp add: doc_key_def)

lemma delete_then_missing: "invar s \<Longrightarrow> ds_get st w i (snd (ds_delete st w i s)) = None"
  by (simp add: get_delete)

end

section \<open>InMemoryDocumentMetadataStore\<close>

type_synonym mem_documents = "document_record list"

definition mem_record_document :: "document_record \<Rightarrow> mem_documents \<Rightarrow> mem_documents" where
  "mem_record_document d records =
     filter (\<lambda>current. \<not> (dm_workspace_id current = dm_workspace_id d
        \<and> dm_document_id current = dm_document_id d)) records @ [d]"

definition mem_get_document :: "pystr \<Rightarrow> pystr \<Rightarrow> mem_documents \<Rightarrow> document_record option" where
  "mem_get_document w i records =
     find (\<lambda>record. dm_workspace_id record = w \<and> dm_document_id record = i) records"

definition mem_delete_document ::
  "pystr \<Rightarrow> pystr \<Rightarrow> mem_documents \<Rightarrow> document_record option \<times> mem_documents" where
  "mem_delete_document w i records =
     (case find (\<lambda>record. dm_workspace_id record = w \<and> dm_document_id record = i) records of
        None \<Rightarrow> (None, records)
      | Some deleted \<Rightarrow> (Some deleted,
          filter (\<lambda>record. \<not> (dm_workspace_id record = w \<and> dm_document_id record = i)) records))"

definition mem_list_documents :: "pystr \<Rightarrow> int \<Rightarrow> mem_documents \<Rightarrow> document_record list" where
  "mem_list_documents w limit records =
     slice_to limit (sorted_desc dm_uploaded_at (filter (\<lambda>record. dm_workspace_id record = w) records))"

definition mem_doc_store :: "mem_documents doc_store" where
  "mem_doc_store = \<lparr> ds_record = mem_record_document, ds_get = mem_get_document,
     ds_delete = mem_delete_document, ds_list = mem_list_documents \<rparr>"

definition mem_invar :: "mem_documents \<Rightarrow> bool" where
  "mem_invar records \<longleftrightarrow> distinct (map doc_key records)"

lemma doc_key_eq: "dm_workspace_id d = w \<and> dm_document_id d = i \<longleftrightarrow> doc_key d = (w, i)"
  by (simp add: doc_key_def)

lemma mem_get_eq: "mem_get_document w i records = find (\<lambda>d. doc_key d = (w, i)) records"
  by (simp add: mem_get_document_def doc_key_eq)

lemma mem_record_eq: "mem_record_document d records = filter (\<lambda>c. doc_key c \<noteq> doc_key d) records @ [d]"
  by (simp add: mem_record_document_def doc_key_def)

lemma mem_delete_eq:
  "mem_delete_document w i records =
     (mem_get_document w i records, filter (\<lambda>c. doc_key c \<noteq> (w, i)) records)"
proof (cases "find (\<lambda>d. doc_key d = (w, i)) records")
  case None
  then have "filter (\<lambda>c. doc_key c \<noteq> (w, i)) records = records" by (rule filter_find_None)
  with None show ?thesis by (simp add: mem_delete_document_def mem_get_document_def doc_key_eq)
next
  case (Some d)
  then show ?thesis by (simp add: mem_delete_document_def mem_get_document_def doc_key_eq)
qed

lemma find_key_distinct:
  "distinct (map f xs) \<Longrightarrow> find (\<lambda>x. f x = k) xs = Some x \<longleftrightarrow> x \<in> set xs \<and> f x = k"
  by (induction xs) (auto simp: image_iff)

lemma mem_get_iff:
  "mem_invar records \<Longrightarrow> mem_get_document w i records = Some d \<longleftrightarrow> d \<in> set records \<and> doc_key d = (w, i)"
  by (simp add: mem_get_eq mem_invar_def find_key_distinct)

lemma distinct_map_filter_key: "distinct (map f xs) \<Longrightarrow> distinct (map f (filter P xs))"
  by (induction xs) auto

text \<open>Facts about listing that both implementations share.\<close>

lemma listing_complete:
  assumes "int (length (slice_to k (sorted_desc f xs))) < k" and "x \<in> set xs"
  shows "x \<in> set (slice_to k (sorted_desc f xs))"
proof -
  have "slice_to k (sorted_desc f xs) = sorted_desc f xs"
    using assms(1) by (cases "0 \<le> k") (auto simp: slice_to_def min_def split: if_splits)
  then show ?thesis using assms(2) by simp
qed

lemma listing_set: "x \<in> set (slice_to k (sorted_desc f xs)) \<Longrightarrow> x \<in> set xs"
  using set_slice_to [of k "sorted_desc f xs"] by auto

lemma listing_sorted: "sorted_wrt (\<lambda>a b. f b \<le> f a) (slice_to k (sorted_desc f xs))"
  by (rule slice_to_filter_sorted_wrt, rule sorted_wrt_sorted_desc)

interpretation mem_docs: document_metadata_store mem_doc_store mem_invar "\<lambda>_ _. True"
proof unfold_locales
  fix s d w i d'
  show "mem_invar s \<Longrightarrow> ds_get mem_doc_store w i s = Some d \<Longrightarrow> doc_key d = (w, i)"
    by (auto simp: mem_doc_store_def mem_get_eq dest: find_SomeD)
  show "mem_invar s \<Longrightarrow> mem_invar (ds_record mem_doc_store d s)"
    by (auto simp: mem_invar_def mem_doc_store_def mem_record_eq distinct_map_filter_key)
  show "mem_invar s \<Longrightarrow> mem_invar (snd (ds_delete mem_doc_store w i s))"
    by (simp add: mem_invar_def mem_doc_store_def mem_delete_eq distinct_map_filter_key)
  show "mem_invar s \<Longrightarrow> fst (ds_delete mem_doc_store w i s) = ds_get mem_doc_store w i s"
    by (simp add: mem_doc_store_def mem_delete_eq)
next
  fix s d w i
  show "ds_get mem_doc_store w i (ds_record mem_doc_store d s) =
      (if doc_key d = (w, i) then Some d else ds_get mem_doc_store w i s)"
    by (auto simp: mem_doc_store_def mem_get_eq mem_record_eq find_append find_filter_neq
        find_filter_same split: option.splits)
next
  fix s w i w' i'
  show "ds_get mem_doc_store w' i' (snd (ds_delete mem_doc_store w i s)) =
      (if (w', i') = (w, i) then None else ds_get mem_doc_store w' i' s)"
    by (auto simp: mem_doc_store_def mem_get_eq mem_delete_eq find_filter_neq find_filter_same)
next
  fix s d w k
  assume "mem_invar s" and "d \<in> set (ds_list mem_doc_store w k s)"
  then show "ds_get mem_doc_store w (dm_document_id d) s = Some d"
    by (auto simp: mem_doc_store_def mem_list_documents_def mem_get_iff doc_key_def
        dest!: listing_set)
next
  fix k :: int and w s
  show "0 \<le> k \<Longrightarrow> int (length (ds_list mem_doc_store w k s)) \<le> k"
    by (simp add: mem_doc_store_def mem_list_documents_def length_slice_to)
  show "sorted_wrt (\<lambda>a b. dm_uploaded_at b \<le> dm_uploaded_at a) (ds_list mem_doc_store w k s)"
    by (simp add: mem_doc_store_def mem_list_documents_def listing_sorted)
next
  fix s w k i d
  assume "mem_invar s" "int (length (ds_list mem_doc_store w k s)) < k"
    and "ds_get mem_doc_store w i s = Some d"
  then show "d \<in> set (ds_list mem_doc_store w k s)"
    by (auto simp: mem_doc_store_def mem_list_documents_def mem_get_iff doc_key_def
        intro!: listing_complete)
qed simp_all

section \<open>PostgresDocumentMetadataStore\<close>

text \<open>
  The table \<open>document_metadata\<close> as the list of its rows, primary key \<open>document_id\<close>. The
  \<open>INSERT ... ON CONFLICT (document_id) DO UPDATE\<close> overwrites every column of the conflicting row but
  \<open>document_id\<close> and \<open>workspace_id\<close>. SQL leaves the order of rows with equal \<open>uploaded_at\<close> open;
  \<open>order_by\<close> is the order the server produces.
\<close>

definition pg_overwrite :: "document_record \<Rightarrow> document_record \<Rightarrow> document_record" where
  "pg_overwrite excluded row = excluded\<lparr> dm_document_id := dm_document_id row,
     dm_workspace_id := dm_workspace_id row \<rparr>"

definition pg_record_document :: "document_record \<Rightarrow> document_record list \<Rightarrow> document_record list" where
  "pg_record_document d rows =
     (if \<exists>row \<in> set rows. dm_document_id row = dm_document_id d
      then map (\<lambda>row. if dm_document_id row = dm_document_id d then pg_overwrite d row else row) rows
      else rows @ [d])"

definition pg_get_document :: "pystr \<Rightarrow> pystr \<Rightarrow> document_record list \<Rightarrow> document_record option" where
  "pg_get_document w i rows =
     (case filter (\<lambda>row. dm_workspace_id row = w \<and> dm_document_id row = i) rows of
        [] \<Rightarrow> None | row # _ \<Rightarrow> Some row)"

definition pg_delete_document ::
  "pystr \<Rightarrow> pystr \<Rightarrow> document_record list \<Rightarrow> document_record option \<times> document_record list" where
  "pg_delete_document w i rows =
     (case filter (\<lambda>row. dm_workspace_id row = w \<and> dm_document_id row = i) rows of
        [] \<Rightarrow> (None, rows)
      | row # _ \<Rightarrow> (Some row,
          filter (\<lambda>row. \<not> (dm_workspace_id row = w \<and> dm_document_id row = i)) rows))"

definition pg_list_documents ::
  "(document_record list \<Rightarrow> document_record list) \<Rightarrow> pystr \<Rightarrow> int \<Rightarrow> document_record list
     \<Rightarrow> document_record list" where
  "pg_list_documents order_by w limit rows =
     take (nat limit) (order_by (filter (\<lambda>row. dm_workspace_id row = w) rows))"

definition pg_doc_store ::
  "(document_record list \<Rightarrow> document_record list) \<Rightarrow> document_record list doc_store" where
  "pg_doc_store order_by = \<lparr> ds_record = pg_record_document, ds_get = pg_get_document,
     ds_delete = pg_delete_document, ds_list = pg_list_documents order_by \<rparr>"

definition pg_invar :: "document_record list \<Rightarrow> bool" where
  "pg_invar rows \<longleftrightarrow> distinct (map dm_document_id rows)"

definition pg_can_record :: "document_record \<Rightarrow> document_record list \<Rightarrow> bool" where
  "pg_can_record d rows \<longleftrightarrow>
     (\<forall>row \<in> set rows. dm_document_id row = dm_document_id d \<longrightarrow> dm_workspace_id row = dm_workspace_id d)"

lemma filter_find: "(case filter P xs of [] \<Rightarrow> None | x # _ \<Rightarrow> Some x) = find P xs"
  by (induction xs) auto

lemma pg_get_eq: "pg_get_document w i rows = find (\<lambda>d. doc_key d = (w, i)) rows"
  by (simp add: pg_get_document_def filter_find doc_key_eq)

lemma pg_invar_key: "pg_invar rows \<Longrightarrow> distinct (map doc_key rows)"
  by (auto simp: pg_invar_def distinct_map inj_on_def doc_key_def)

lemma pg_get_iff: "pg_invar rows \<Longrightarrow> pg_get_document w i rows = Some d \<longleftrightarrow> d \<in> set rows \<and> doc_key d = (w, i)"
  by (simp add: pg_get_eq find_key_distinct pg_invar_key)

lemma pg_delete_eq:
  "pg_delete_document w i rows =
     (pg_get_document w i rows, filter (\<lambda>c. doc_key c \<noteq> (w, i)) rows)"
  by (auto simp: pg_delete_document_def pg_get_document_def doc_key_eq filter_empty_conv
      split: list.splits intro!: filter_True [symmetric])

lemma pg_overwrite_same:
  "dm_document_id row = dm_document_id d \<Longrightarrow> dm_workspace_id row = dm_workspace_id d \<Longrightarrow>
     pg_overwrite d row = d"
  by (simp add: pg_overwrite_def)

lemma pg_overwrite_id [simp]: "dm_document_id (pg_overwrite d row) = dm_document_id row"
  by (simp add: pg_overwrite_def)

lemma pg_record_invar: "pg_invar rows \<Longrightarrow> pg_invar (pg_record_document d rows)"
proof (cases "\<exists>row \<in> set rows. dm_document_id row = dm_document_id d")
  case True
  have "map dm_document_id (pg_record_document d rows) = map dm_document_id rows"
    using True by (simp add: pg_record_document_def)
  then show "pg_invar rows \<Longrightarrow> ?thesis" by (simp only: pg_invar_def)
qed (auto simp: pg_invar_def pg_record_document_def)

lemma pg_set_record:
  assumes "pg_can_record d rows"
  shows "set (pg_record_document d rows) = insert d {r \<in> set rows. dm_document_id r \<noteq> dm_document_id d}"
  using assms pg_overwrite_same [of _ d]
  by (auto simp: pg_record_document_def pg_can_record_def image_iff)

lemma pg_get_record:
  assumes "pg_invar rows" and "pg_can_record d rows"
  shows "pg_get_document w i (pg_record_document d rows) =
    (if doc_key d = (w, i) then Some d else pg_get_document w i rows)"
proof -
  have iff: "pg_get_document w i (pg_record_document d rows) = Some x \<longleftrightarrow>
      (if doc_key d = (w, i) then Some d else pg_get_document w i rows) = Some x" for x
    using assms(2) by (auto simp: pg_get_iff pg_record_invar assms pg_set_record doc_key_def pg_can_record_def)
  show ?thesis using iff by (metis not_Some_eq)
qed

interpretation pg_docs: document_metadata_store
  "pg_doc_store (sorted_desc dm_uploaded_at)" pg_invar pg_can_record
proof unfold_locales
  fix s d w i d'
  let ?st = "pg_doc_store (sorted_desc dm_uploaded_at)"
  assume inv: "pg_invar s"
  show "ds_get ?st w i s = Some d \<Longrightarrow> doc_key d = (w, i)"
    using inv by (simp add: pg_doc_store_def pg_get_iff)
  show "ds_get ?st w i s = Some d \<Longrightarrow> doc_key d' = (w, i) \<Longrightarrow> pg_can_record d' s"
    using inv by (auto simp: pg_doc_store_def pg_get_iff pg_can_record_def doc_key_def pg_invar_def
        distinct_map inj_on_def)
  show "(\<And>w. ds_get ?st w (dm_document_id d) s = None) \<Longrightarrow> pg_can_record d s"
    by (auto simp: pg_doc_store_def pg_get_eq find_None_iff doc_key_def pg_can_record_def)
  show "pg_invar (ds_record ?st d s)"
    using inv by (simp add: pg_doc_store_def pg_record_invar)
  show "pg_invar (snd (ds_delete ?st w i s))"
    using inv by (simp add: pg_doc_store_def pg_delete_eq pg_invar_def distinct_map_filter_key)
  show "fst (ds_delete ?st w i s) = ds_get ?st w i s"
    by (simp add: pg_doc_store_def pg_delete_eq)
next
  fix s d w i
  assume "pg_invar s" and "pg_can_record d s"
  then show "ds_get (pg_doc_store (sorted_desc dm_uploaded_at)) w i
        (ds_record (pg_doc_store (sorted_desc dm_uploaded_at)) d s) =
      (if doc_key d = (w, i) then Some d else ds_get (pg_doc_store (sorted_desc dm_uploaded_at)) w i s)"
    by (simp add: pg_doc_store_def pg_get_record)
next
  fix s w i w' i'
  show "ds_get (pg_doc_store (sorted_desc dm_uploaded_at)) w' i'
        (snd (ds_delete (pg_doc_store (sorted_desc dm_uploaded_at)) w i s)) =
      (if (w', i') = (w, i) then None else ds_get (pg_doc_store (sorted_desc dm_uploaded_at)) w' i' s)"
    by (auto simp: pg_doc_store_def pg_get_eq pg_delete_eq find_filter_neq find_filter_same)
next
  fix s d w k
  assume "pg_invar s" and "d \<in> set (ds_list (pg_doc_store (sorted_desc dm_uploaded_at)) w k s)"
  then show "ds_get (pg_doc_store (sorted_desc dm_uploaded_at)) w (dm_document_id d) s = Some d"
    by (auto simp: pg_doc_store_def pg_list_documents_def pg_get_iff doc_key_def dest!: in_set_takeD)
next
  fix k :: int and w s
  show "0 \<le> k \<Longrightarrow> int (length (ds_list (pg_doc_store (sorted_desc dm_uploaded_at)) w k s)) \<le> k"
    by (simp add: pg_doc_store_def pg_list_documents_def)
  show "sorted_wrt (\<lambda>a b. dm_uploaded_at b \<le> dm_uploaded_at a)
      (ds_list (pg_doc_store (sorted_desc dm_uploaded_at)) w k s)"
    by (simp add: pg_doc_store_def pg_list_documents_def sorted_wrt_take sorted_wrt_sorted_desc)
next
  fix s w k i d
  assume "pg_invar s" "int (length (ds_list (pg_doc_store (sorted_desc dm_uploaded_at)) w k s)) < k"
    and "ds_get (pg_doc_store (sorted_desc dm_uploaded_at)) w i s = Some d"
  then show "d \<in> set (ds_list (pg_doc_store (sorted_desc dm_uploaded_at)) w k s)"
    by (auto simp: pg_doc_store_def pg_list_documents_def pg_get_iff doc_key_def)
qed

section \<open>The configured store\<close>

text \<open>
  \<open>create_document_metadata_store\<close> of \<open>documents/router.py\<close>. Both stores keep their documents as a
  list; the database is taken to return rows with equal times in a fixed order.
\<close>

definition create_document_metadata_store :: "settings \<Rightarrow> document_record list doc_store" where
  "create_document_metadata_store s =
     (if cfg_document_metadata_backend s = py ''postgres'' then pg_doc_store (sorted_desc dm_uploaded_at)
      else mem_doc_store)"

definition docs_invar :: "settings \<Rightarrow> document_record list \<Rightarrow> bool" where
  "docs_invar s = (if cfg_document_metadata_backend s = py ''postgres'' then pg_invar else mem_invar)"

definition docs_can_record :: "settings \<Rightarrow> document_record \<Rightarrow> document_record list \<Rightarrow> bool" where
  "docs_can_record s = (if cfg_document_metadata_backend s = py ''postgres'' then pg_can_record
     else (\<lambda>_ _. True))"

interpretation app_docs: document_metadata_store
  "create_document_metadata_store s" "docs_invar s" "docs_can_record s" for s :: settings
  by (cases "cfg_document_metadata_backend s = py ''postgres''")
    (simp_all add: create_document_metadata_store_def docs_invar_def docs_can_record_def
      pg_docs.document_metadata_store_axioms mem_docs.document_metadata_store_axioms)

lemma docs_invar_empty [simp]: "docs_invar s []"
  by (simp add: docs_invar_def pg_invar_def mem_invar_def)

end
