(* ===== verification/Audit_Log.thy ===== *)
theory Audit_Log
  imports PyStr PyFloat Doc_Store Config Auth_Models
begin

text \<open>
  \<open>audit/models.py\<close>, \<open>audit/store.py\<close>, \<open>audit/postgres_store.py\<close>: chat audit events, the filters
  of an administrator's query, and the protocol \<open>AuditLogStore\<close> as a locale with its two
  implementations. The PostgreSQL store keeps the event as JSON next to its indexed columns; its
  \<open>WHERE\<close> clauses are \<open>pg_matches_filters\<close>, with \<open>ILIKE\<close> as SQL defines it.
\<close>

record audit_citation =
  ac_citation_id :: int
  ac_document_id :: pystr
  ac_filename :: pystr
  ac_chunk_index :: int
  ac_score :: pyfloat
  ac_rerank_score :: "pyfloat option"

record chat_audit_event =
  ce_event_id :: pystr
  ce_event_type :: pystr
  ce_occurred_at :: timestamp
  ce_request_id :: pystr
  ce_workspace_id :: pystr
  ce_workspace_name :: pystr
  ce_question :: pystr
  ce_document_ids :: "pystr list option"
  ce_retrieval_limit :: int
  ce_rerank_top_k :: int
  ce_retrieved_chunk_count :: int
  ce_model :: pystr
  ce_answer_preview :: pystr
  ce_answer_character_count :: int
  ce_prompt_tokens :: "int option"
  ce_completion_tokens :: "int option"
  ce_total_tokens :: "int option"
  ce_citations :: "audit_citation list"

record chat_audit_event_filters =
  cf_query :: "pystr option"
  cf_document_id :: "pystr option"
  cf_request_id :: "pystr option"
  cf_event_type :: "pystr option"
  cf_occurred_from :: "timestamp option"
  cf_occurred_to :: "timestamp option"
  cf_limit :: int

definition default_filters :: chat_audit_event_filters where
  "default_filters = \<lparr> cf_query = None, cf_document_id = None, cf_request_id = None,
     cf_event_type = None, cf_occurred_from = None, cf_occurred_to = None, cf_limit = 100 \<rparr>"

definition valid_filters :: "chat_audit_event_filters \<Rightarrow> bool" where
  "valid_filters f \<longleftrightarrow> 1 \<le> cf_limit f \<and> cf_limit f \<le> 200"

section \<open>The protocol\<close>

record 's audit_store =
  al_record :: "chat_audit_event \<Rightarrow> 's \<Rightarrow> 's res"
  al_list :: "pystr \<Rightarrow> chat_audit_event_filters option \<Rightarrow> 's \<Rightarrow> chat_audit_event list"

text \<open>\<open>log s\<close> is the history of the store; \<open>matches\<close> is the filter test of the implementation.\<close>

locale audit_log_store =
  fixes st :: "'s audit_store" and log :: "'s \<Rightarrow> chat_audit_event list"
    and matches :: "chat_audit_event \<Rightarrow> chat_audit_event_filters \<Rightarrow> bool"
  assumes record_log: "al_record st e s = Inr s' \<Longrightarrow> log s' = log s @ [e]"
    and list_sound: "e \<in> set (al_list st w (Some f) s) \<Longrightarrow>
      e \<in> set (log s) \<and> ce_workspace_id e = w \<and> matches e f"
    and list_bound: "0 \<le> cf_limit f \<Longrightarrow> int (length (al_list st w (Some f) s)) \<le> cf_limit f"
    and list_sorted: "sorted_wrt (\<lambda>a b. ce_occurred_at b \<le> ce_occurred_at a) (al_list st w (Some f) s)"
    and list_complete: "int (length (al_list st w (Some f) s)) < cf_limit f \<Longrightarrow>
      e \<in> set (log s) \<Longrightarrow> ce_workspace_id e = w \<Longrightarrow> matches e f \<Longrightarrow> e \<in> set (al_list st w (Some f) s)"
    and list_default: "al_list st w None s = al_list st w (Some default_filters) s"
begin

lemma list_workspace: "e \<in> set (al_list st w f s) \<Longrightarrow> ce_workspace_id e = w"
  using list_sound by (cases f) (auto simp: list_default)

lemma recorded_is_kept: "al_record st e s = Inr s' \<Longrightarrow> set (log s') = insert e (set (log s))"
  by (auto dest: record_log)

end

section \<open>InMemoryAuditLogStore\<close>

definition has_document_id :: "chat_audit_event \<Rightarrow> pystr \<Rightarrow> bool" where
  "has_document_id e document_id \<longleftrightarrow>
     truthy (ce_document_ids e) \<and> document_id \<in> set (the (ce_document_ids e))
     \<or> list_ex (\<lambda>c. ac_document_id c = document_id) (ce_citations e)"

definition matches_filters :: "ucd \<Rightarrow> chat_audit_event \<Rightarrow> chat_audit_event_filters \<Rightarrow> bool" where
  "matches_filters U e f =
     (if truthy (cf_event_type f) \<and> ce_event_type e \<noteq> the (cf_event_type f) then False
      else if truthy (cf_request_id f) \<and> ce_request_id e \<noteq> the (cf_request_id f) then False
      else if truthy (cf_document_id f) \<and> \<not> has_document_id e (the (cf_document_id f)) then False
      else if (case cf_occurred_from f of None \<Rightarrow> False | Some t \<Rightarrow> ce_occurred_at e < t) then False
      else if (case cf_occurred_to f of None \<Rightarrow> False | Some t \<Rightarrow> t < ce_occurred_at e) then False
      else if truthy (cf_query f)
           \<and> \<not> py_in (ucd_lower U (the (cf_query f)))
                (ucd_lower U (ce_question e @ [10] @ ce_answer_preview e)) then False
      else True)"

definition mem_record_chat_event :: "chat_audit_event \<Rightarrow> chat_audit_event list \<Rightarrow> chat_audit_event list res" where
  "mem_record_chat_event e events = Inr (events @ [e])"

definition mem_list_chat_events ::
  "ucd \<Rightarrow> pystr \<Rightarrow> chat_audit_event_filters option \<Rightarrow> chat_audit_event list \<Rightarrow> chat_audit_event list" where
  "mem_list_chat_events U w filters events =
     (let resolved = (case filters of None \<Rightarrow> default_filters | Some f \<Rightarrow> f) in
      slice_to (cf_limit resolved) (sorted_desc ce_occurred_at
        (filter (\<lambda>e. ce_workspace_id e = w \<and> matches_filters U e resolved) events)))"

definition mem_audit_store :: "ucd \<Rightarrow> chat_audit_event list audit_store" where
  "mem_audit_store U = \<lparr> al_record = mem_record_chat_event, al_list = mem_list_chat_events U \<rparr>"

interpretation mem_audit: audit_log_store "mem_audit_store U" "\<lambda>s. s" "matches_filters U" for U :: ucd
proof unfold_locales
  fix e s s' w f
  show "al_record (mem_audit_store U) e s = Inr s' \<Longrightarrow> s' = s @ [e]"
    by (simp add: mem_audit_store_def mem_record_chat_event_def)
  show "e \<in> set (al_list (mem_audit_store U) w (Some f) s) \<Longrightarrow>
      e \<in> set s \<and> ce_workspace_id e = w \<and> matches_filters U e f"
    by (auto simp: mem_audit_store_def mem_list_chat_events_def dest!: listing_set)
  show "0 \<le> cf_limit f \<Longrightarrow> int (length (al_list (mem_audit_store U) w (Some f) s)) \<le> cf_limit f"
    by (simp add: mem_audit_store_def mem_list_chat_events_def length_slice_to)
  show "sorted_wrt (\<lambda>a b. ce_occurred_at b \<le> ce_occurred_at a) (al_list (mem_audit_store U) w (Some f) s)"
    by (simp add: mem_audit_store_def mem_list_chat_events_def listing_sorted)
  show "int (length (al_list (mem_audit_store U) w (Some f) s)) < cf_limit f \<Longrightarrow> e \<in> set s \<Longrightarrow>
      ce_workspace_id e = w \<Longrightarrow> matches_filters U e f \<Longrightarrow> e \<in> set (al_list (mem_audit_store U) w (Some f) s)"
    by (auto simp: mem_audit_store_def mem_list_chat_events_def intro!: listing_complete)
  show "al_list (mem_audit_store U) w None s = al_list (mem_audit_store U) w (Some default_filters) s"
    by (simp add: mem_audit_store_def mem_list_chat_events_def)
qed

section \<open>PostgresAuditLogStore\<close>

text \<open>
  SQL \<open>LIKE\<close>: \<open>%\<close> (37) matches any string, \<open>_\<close> (95) any character, a backslash (92) takes the
  next pattern character literally. \<open>ILIKE\<close> compares without case.
\<close>

fun sql_like :: "pystr \<Rightarrow> pystr \<Rightarrow> bool" where
  "sql_like [] s = (s = [])"
| "sql_like (c # p) s =
     (if c = 37 then sql_like p s \<or> (case s of [] \<Rightarrow> False | _ # s' \<Rightarrow> sql_like (c # p) s')
      else if c = 95 then (case s of [] \<Rightarrow> False | _ # s' \<Rightarrow> sql_like p s')
      else if c = 92 then (case p of [] \<Rightarrow> False
        | d # p' \<Rightarrow> (case s of [] \<Rightarrow> False | x # s' \<Rightarrow> x = d \<and> sql_like p' s'))
      else (case s of [] \<Rightarrow> False | x # s' \<Rightarrow> x = c \<and> sql_like p s'))"

definition sql_ilike :: "ucd \<Rightarrow> pystr \<Rightarrow> pystr \<Rightarrow> bool" where
  "sql_ilike U value pattern = sql_like (ucd_lower U pattern) (ucd_lower U value)"

text \<open>
  The conjunction of the clauses of \<open>_build_filter_clauses\<close> but the workspace clause. The JSON
  containment tests look for the document in \<open>document_ids\<close> or in a citation.
\<close>

definition pg_matches_filters :: "ucd \<Rightarrow> chat_audit_event \<Rightarrow> chat_audit_event_filters \<Rightarrow> bool" where
  "pg_matches_filters U e f \<longleftrightarrow>
     (truthy (cf_event_type f) \<longrightarrow> ce_event_type e = the (cf_event_type f)) \<and>
     (truthy (cf_request_id f) \<longrightarrow> ce_request_id e = the (cf_request_id f)) \<and>
     (truthy (cf_document_id f) \<longrightarrow>
        (case ce_document_ids e of None \<Rightarrow> False | Some ids \<Rightarrow> the (cf_document_id f) \<in> set ids)
        \<or> the (cf_document_id f) \<in> ac_document_id ` set (ce_citations e)) \<and>
     (case cf_occurred_from f of None \<Rightarrow> True | Some t \<Rightarrow> t \<le> ce_occurred_at e) \<and>
     (case cf_occurred_to f of None \<Rightarrow> True | Some t \<Rightarrow> ce_occurred_at e \<le> t) \<and>
     (truthy (cf_query f) \<longrightarrow>
        (let query_like = [37] @ the (cf_query f) @ [37] in
         sql_ilike U (ce_question e) query_like \<or> sql_ilike U (ce_answer_preview e) query_like))"

text \<open>The primary key \<open>event_id\<close> rejects a repeated identifier.\<close>

definition pg_record_chat_event :: "chat_audit_event \<Rightarrow> chat_audit_event list \<Rightarrow> chat_audit_event list res" where
  "pg_record_chat_event e rows =
     (if ce_event_id e \<in> ce_event_id ` set rows
      then Inl (ExternalError (py ''duplicate key value violates unique constraint''))
      else Inr (rows @ [e]))"

definition pg_list_chat_events ::
  "ucd \<Rightarrow> (chat_audit_event list \<Rightarrow> chat_audit_event list) \<Rightarrow> pystr \<Rightarrow> chat_audit_event_filters option
     \<Rightarrow> chat_audit_event list \<Rightarrow> chat_audit_event list" where
  "pg_list_chat_events U order_by w filters rows =
     (let resolved = (case filters of None \<Rightarrow> default_filters | Some f \<Rightarrow> f) in
      take (nat (cf_limit resolved)) (order_by
        (filter (\<lambda>e. ce_workspace_id e = w \<and> pg_matches_filters U e resolved) rows)))"

definition pg_audit_store ::
  "ucd \<Rightarrow> (chat_audit_event list \<Rightarrow> chat_audit_event list) \<Rightarrow> chat_audit_event list audit_store" where
  "pg_audit_store U order_by =
     \<lparr> al_record = pg_record_chat_event, al_list = pg_list_chat_events U order_by \<rparr>"

interpretation pg_audit: audit_log_store
  "pg_audit_store U (sorted_desc ce_occurred_at)" "\<lambda>s. s" "pg_matches_filters U" for U :: ucd
proof unfold_locales
  fix e s s' w f
  let ?st = "pg_audit_store U (sorted_desc ce_occurred_at)"
  show "al_record ?st e s = Inr s' \<Longrightarrow> s' = s @ [e]"
    by (simp add: pg_audit_store_def pg_record_chat_event_def split: if_splits)
  show "e \<in> set (al_list ?st w (Some f) s) \<Longrightarrow>
      e \<in> set s \<and> ce_workspace_id e = w \<and> pg_matches_filters U e f"
    by (auto simp: pg_audit_store_def pg_list_chat_events_def dest!: in_set_takeD)
  show "0 \<le> cf_limit f \<Longrightarrow> int (length (al_list ?st w (Some f) s)) \<le> cf_limit f"
    by (simp add: pg_audit_store_def pg_list_chat_events_def)
  show "sorted_wrt (\<lambda>a b. ce_occurred_at b \<le> ce_occurred_at a) (al_list ?st w (Some f) s)"
    by (simp add: pg_audit_store_def pg_list_chat_events_def sorted_wrt_take sorted_wrt_sorted_desc)
  show "int (length (al_list ?st w (Some f) s)) < cf_limit f \<Longrightarrow> e \<in> set s \<Longrightarrow>
      ce_workspace_id e = w \<Longrightarrow> pg_matches_filters U e f \<Longrightarrow> e \<in> set (al_list ?st w (Some f) s)"
    by (simp add: pg_audit_store_def pg_list_chat_events_def)
  show "al_list ?st w None s = al_list ?st w (Some default_filters) s"
    by (simp add: pg_audit_store_def pg_list_chat_events_def)
qed

section \<open>LIKE without wildcards is a substring test\<close>

definition plain_pattern :: "pystr \<Rightarrow> bool" where
  "plain_pattern q \<longleftrightarrow> 37 \<notin> set q \<and> 95 \<notin> set q \<and> 92 \<notin> set q"

lemma sql_like_any: "sql_like [37] s"
  by (induction s) auto

lemma sql_like_plain_prefix:
  "plain_pattern q \<Longrightarrow> sql_like (q @ [37]) s \<longleftrightarrow> startswith q s"
proof (induction q arbitrary: s)
  case Nil
  then show ?case by (simp add: sql_like_any startswith_def del: sql_like.simps)
next
  case (Cons c q)
  then show ?case by (cases s) (auto simp: plain_pattern_def startswith_def)
qed

lemma sql_like_plain: "plain_pattern q \<Longrightarrow> sql_like ([37] @ q @ [37]) s \<longleftrightarrow> py_in q s"
proof (induction s)
  case Nil
  then show ?case using sql_like_plain_prefix [of q "[]"] by (auto simp: startswith_def)
next
  case (Cons c s)
  then show ?case using sql_like_plain_prefix [of q "c # s"] by simp
qed

section \<open>The configured store and the administrator's listing\<close>

text \<open>
  \<open>create_audit_log_store\<close>; both stores keep their events as a list. The database is taken to return
  rows with equal times in the order they were written.
\<close>

definition create_audit_log_store :: "ucd \<Rightarrow> settings \<Rightarrow> chat_audit_event list audit_store" where
  "create_audit_log_store U s =
     (if cfg_audit_log_backend s = py ''postgres'' then pg_audit_store U (sorted_desc ce_occurred_at)
      else mem_audit_store U)"

definition store_matches :: "ucd \<Rightarrow> settings \<Rightarrow> chat_audit_event \<Rightarrow> chat_audit_event_filters \<Rightarrow> bool" where
  "store_matches U s = (if cfg_audit_log_backend s = py ''postgres'' then pg_matches_filters U
     else matches_filters U)"

interpretation app_audit: audit_log_store "create_audit_log_store U s" "\<lambda>es. es" "store_matches U s"
  for U :: ucd and s :: settings
  by (cases "cfg_audit_log_backend s = py ''postgres''")
    (simp_all add: create_audit_log_store_def store_matches_def
      pg_audit.audit_log_store_axioms mem_audit.audit_log_store_axioms)

text \<open>
  \<open>_build_chat_audit_filters\<close> and the handler \<open>list_chat_audit_events\<close>, for an administrator's context;
  the query parameter \<open>limit\<close> is between 1 and 200. The response is the events and their number.
\<close>

definition build_chat_audit_filters ::
  "pystr option \<Rightarrow> pystr option \<Rightarrow> pystr option \<Rightarrow> timestamp option \<Rightarrow> timestamp option \<Rightarrow> int
     \<Rightarrow> chat_audit_event_filters" where
  "build_chat_audit_filters query document_id request_id occurred_from occurred_to limit =
     \<lparr> cf_query = query, cf_document_id = document_id, cf_request_id = request_id,
       cf_event_type = None, cf_occurred_from = occurred_from, cf_occurred_to = occurred_to,
       cf_limit = limit \<rparr>"

definition list_chat_audit_events ::
  "'s audit_store \<Rightarrow> workspace_context \<Rightarrow> pystr option \<Rightarrow> pystr option \<Rightarrow> pystr option
     \<Rightarrow> timestamp option \<Rightarrow> timestamp option \<Rightarrow> int \<Rightarrow> 's \<Rightarrow> chat_audit_event list \<times> int" where
  "list_chat_audit_events st ctx query document_id request_id occurred_from occurred_to limit s =
     (let filters = build_chat_audit_filters query document_id request_id occurred_from occurred_to limit;
          events = al_list st (wc_workspace_id ctx) (Some filters) s
      in (events, int (length events)))"

end
