(* ===== verification/Chat.thy ===== *)
theory Chat
  imports Auth_Models Retrieval Reranking Llm Audit_Log
begin

text \<open>
  \<open>chat/models.py\<close>, \<open>chat/service.py\<close>, \<open>chat/router.py\<close>: answering a question from the caller's
  documents. \<open>answer\<close> is \<open>ChatService.answer\<close> with every call it makes: retrieval, reranking, the
  relevance threshold, the LLM request, the extraction of the cited sources, and the audit event it
  records on each path that returns a response. \<open>answer_question\<close> is the HTTP handler.

  The service receives its collaborators as the fields of \<open>chat_service\<close>; what it needs of them is
  their protocol (locales \<open>retriever\<close>, \<open>reranker\<close>, \<open>audit_log_store\<close>), combined in the locale
  \<open>chat_parts\<close>.
\<close>

section \<open>Requests and responses\<close>

record chat_request =
  cq_question :: pystr
  cq_document_ids :: "pystr list option"
  cq_security_levels :: "pystr list option"
  cq_top_k :: "int option"

definition valid_chat_request :: "chat_request \<Rightarrow> bool" where
  "valid_chat_request r \<longleftrightarrow> 1 \<le> length (cq_question r) \<and> length (cq_question r) \<le> 4000
     \<and> (case cq_top_k r of None \<Rightarrow> True | Some k \<Rightarrow> 1 \<le> k \<and> k \<le> 20)"

record chat_citation =
  cc_citation_id :: int
  cc_document_id :: pystr
  cc_filename :: pystr
  cc_security_level :: pystr
  cc_chunk_index :: int
  cc_score :: pyfloat
  cc_rerank_score :: "pyfloat option"
  cc_snippet :: pystr

record chat_usage =
  cu_prompt_tokens :: "int option"
  cu_completion_tokens :: "int option"
  cu_total_tokens :: "int option"

definition no_usage :: chat_usage where
  "no_usage = \<lparr> cu_prompt_tokens = None, cu_completion_tokens = None, cu_total_tokens = None \<rparr>"

record chat_response =
  cs_answer :: pystr
  cs_model :: pystr
  cs_citations :: "chat_citation list"
  cs_usage :: chat_usage
  cs_retrieved_chunk_count :: int

section \<open>Texts\<close>

text \<open>The Korean texts of the service, as code points.\<close>

definition SYSTEM_PROMPT :: pystr where
  "SYSTEM_PROMPT =
     [54728, 50857, 46108, 32, 47928, 49436, 32, 52968, 53581, 49828, 53944, 47564, 32, 49324,
      50857, 54644, 49436, 32, 54620, 44397, 50612, 47196, 32, 45813, 54616, 49464, 50836, 46,
      32, 52968, 53581, 49828, 53944, 50640, 32, 50630, 45716, 32, 45236, 50857, 51008, 32,
      47784, 47480, 45796, 44256, 32, 45813, 54616, 44256, 44, 32, 45813, 48320, 50640, 45716,
      32, 91, 49, 93, 32, 54805, 49885, 51032, 32, 52636, 52376, 32, 48264, 54840, 47484, 32,
      54252, 54632, 54616, 49464, 50836, 46]"

definition NO_ANSWER_MESSAGE :: pystr where
  "NO_ANSWER_MESSAGE =
     [47784, 47476, 44192, 49845, 45768, 45796, 46, 32, 51228, 44277, 46108, 32, 47928, 49436,
      50640, 49436, 32, 45813, 48320, 32, 44540, 44144, 47484, 32, 52286, 51648, 32, 47803,
      54664, 49845, 45768, 45796, 46]"

definition NO_ANSWER_MODEL :: pystr where
  "NO_ANSWER_MODEL = py ''grounding-policy''"

definition QUESTION_LABEL :: pystr where "QUESTION_LABEL =
     [51656, 47928, 58]"
definition CONTEXT_LABEL :: pystr where "CONTEXT_LABEL =
     [47928, 49436, 32, 52968, 53581, 49828, 53944, 58]"
definition PROMPT_INSTRUCTION :: pystr where "PROMPT_INSTRUCTION =
     [50948, 32, 52968, 53581, 49828, 53944, 47564, 32, 44540, 44144, 47196, 32, 45813, 54616,
      44256, 44, 32, 47928, 51109, 32, 45149, 50640, 32, 44288, 47144, 32, 52636, 52376, 32,
      48264, 54840, 47484, 32, 48537, 51060, 49464, 50836, 46]"

definition context_entry :: "nat \<Rightarrow> retrieved_chunk \<Rightarrow> pystr" where
  "context_entry index c = py ''['' @ str_int (int index) @ py ''] '' @ ch_filename c @ py ''#''
     @ str_int (ch_chunk_index c) @ [10] @ ch_chunk_text c"

definition build_user_prompt :: "pystr \<Rightarrow> retrieved_chunk list \<Rightarrow> pystr" where
  "build_user_prompt question chunks =
     QUESTION_LABEL @ [10] @ question @ [10, 10]
     @ CONTEXT_LABEL @ [10]
     @ join [10, 10] (map (\<lambda>(index, c). context_entry index c) (enumerate 1 chunks)) @ [10, 10]
     @ PROMPT_INSTRUCTION"

definition shorten :: "nat \<Rightarrow> pystr \<Rightarrow> pystr" where
  "shorten limit s = (let normalized = join (py '' '') (split_ws s) in
     if length normalized \<le> limit then normalized else take (limit - 3) normalized @ py ''...'')"

definition build_snippet :: "pystr \<Rightarrow> pystr" where
  "build_snippet chunk_text = shorten 240 chunk_text"

definition build_answer_preview :: "pystr \<Rightarrow> pystr" where
  "build_answer_preview ans = shorten 500 ans"

lemma length_shorten: "3 \<le> limit \<Longrightarrow> length (shorten limit s) \<le> limit"
  by (auto simp: shorten_def Let_def)

section \<open>Citations\<close>

text \<open>
  \<open>re.finditer(r"\[(\d+)\]", answer)\<close>: the digit strings of the matches, left to right. A match at a
  bracket takes the maximal run of digits and needs the closing bracket right after it.
\<close>

definition is_digit :: "ucd \<Rightarrow> nat \<Rightarrow> bool" where
  "is_digit U c \<longleftrightarrow> ucd_digit U c \<noteq> None"

function citation_marks :: "ucd \<Rightarrow> pystr \<Rightarrow> pystr list" where
  "citation_marks U [] = []"
| "citation_marks U (c # s) =
     (if c = 91 then
        (let ds = takeWhile (is_digit U) s; rest = dropWhile (is_digit U) s in
         if ds \<noteq> [] \<and> rest \<noteq> [] \<and> hd rest = 93 then ds # citation_marks U (tl rest)
         else citation_marks U s)
      else citation_marks U s)"
  by pat_completeness auto
termination
proof (relation "measure (\<lambda>(U, s). length s)")
  fix U c s ds rest
  assume "rest = dropWhile (is_digit U) s" "ds \<noteq> [] \<and> rest \<noteq> [] \<and> hd rest = 93"
  then show "((U, tl rest), (U, c # s)) \<in> measure (\<lambda>(U, s). length s)"
    using length_dropWhile_le [of "is_digit U" s] by simp
qed simp_all

text \<open>The loop over the matches keeps the first occurrence of every identifier in range.\<close>

fun extract_ids_loop :: "ucd \<Rightarrow> int \<Rightarrow> int list \<Rightarrow> pystr list \<Rightarrow> int list res" where
  "extract_ids_loop U max_id citation_ids [] = Inr citation_ids"
| "extract_ids_loop U max_id citation_ids (ds # marks) =
     (case int_of_digits U ds of
        Inl e \<Rightarrow> Inl e
      | Inr citation_id \<Rightarrow>
          if citation_id < 1 \<or> max_id < citation_id \<or> citation_id \<in> set citation_ids
          then extract_ids_loop U max_id citation_ids marks
          else extract_ids_loop U max_id (citation_ids @ [citation_id]) marks)"

definition extract_citation_ids :: "ucd \<Rightarrow> pystr \<Rightarrow> int \<Rightarrow> int list res" where
  "extract_citation_ids U ans max_id = extract_ids_loop U max_id [] (citation_marks U ans)"

definition build_citation :: "int \<Rightarrow> reranked_chunk \<Rightarrow> chat_citation" where
  "build_citation citation_id item =
     \<lparr> cc_citation_id = citation_id,
       cc_document_id = ch_document_id (rk_chunk item),
       cc_filename = ch_filename (rk_chunk item),
       cc_security_level = ch_security_level (rk_chunk item),
       cc_chunk_index = ch_chunk_index (rk_chunk item),
       cc_score = ch_score (rk_chunk item),
       cc_rerank_score = Some (rk_rerank_score item),
       cc_snippet = build_snippet (ch_chunk_text (rk_chunk item)) \<rparr>"

definition build_citations :: "reranked_chunk list \<Rightarrow> int list \<Rightarrow> chat_citation list" where
  "build_citations chunks citation_ids =
     map (\<lambda>citation_id. build_citation citation_id (chunks ! nat (citation_id - 1))) citation_ids"

definition filter_supported_chunks :: "reranked_chunk list \<Rightarrow> pyfloat \<Rightarrow> reranked_chunk list" where
  "filter_supported_chunks chunks min_relevance_score =
     filter (\<lambda>item. min_relevance_score \<le> rk_rerank_score item) chunks"

section \<open>The service\<close>

record 's chat_service =
  sv_retrieve :: "pystr \<Rightarrow> retrieval_filter \<Rightarrow> int \<Rightarrow> retrieved_chunk list res"
  sv_rerank :: "rerank_request \<Rightarrow> reranked_chunk list res"
  sv_generate :: "llm_request \<Rightarrow> llm_response res"
  sv_audit :: "'s audit_store"
  sv_retrieval_limit :: int
  sv_rerank_top_k :: int
  sv_min_relevance_score :: pyfloat

text \<open>\<open>chat_request.top_k or self._rerank_top_k\<close>.\<close>

definition final_top_k :: "'s chat_service \<Rightarrow> chat_request \<Rightarrow> int" where
  "final_top_k sv r = (case cq_top_k r of None \<Rightarrow> sv_rerank_top_k sv
     | Some k \<Rightarrow> if k = 0 then sv_rerank_top_k sv else k)"

definition retrieval_limit :: "'s chat_service \<Rightarrow> chat_request \<Rightarrow> int" where
  "retrieval_limit sv r = max (sv_retrieval_limit sv) (final_top_k sv r)"

definition request_filter :: "workspace_context \<Rightarrow> chat_request \<Rightarrow> retrieval_filter" where
  "request_filter ctx r = \<lparr> rf_workspace_id = wc_workspace_id ctx,
     rf_document_ids = cq_document_ids r, rf_security_levels = cq_security_levels r \<rparr>"

text \<open>The stamp of an audit event: its fresh identifier and the current time.\<close>

type_synonym stamp = "pystr \<times> timestamp"

definition audit_event ::
  "stamp \<Rightarrow> workspace_context \<Rightarrow> chat_request \<Rightarrow> chat_response \<Rightarrow> int \<Rightarrow> int \<Rightarrow> chat_audit_event" where
  "audit_event stamp ctx r response limit top_k =
     \<lparr> ce_event_id = fst stamp,
       ce_event_type = py ''chat.answer.generated'',
       ce_occurred_at = snd stamp,
       ce_request_id = wc_request_id ctx,
       ce_workspace_id = wc_workspace_id ctx,
       ce_workspace_name = wc_workspace_name ctx,
       ce_question = cq_question r,
       ce_document_ids = cq_document_ids r,
       ce_retrieval_limit = limit,
       ce_rerank_top_k = top_k,
       ce_retrieved_chunk_count = cs_retrieved_chunk_count response,
       ce_model = cs_model response,
       ce_answer_preview = build_answer_preview (cs_answer response),
       ce_answer_character_count = int (length (cs_answer response)),
       ce_prompt_tokens = cu_prompt_tokens (cs_usage response),
       ce_completion_tokens = cu_completion_tokens (cs_usage response),
       ce_total_tokens = cu_total_tokens (cs_usage response),
       ce_citations = map (\<lambda>c. \<lparr> ac_citation_id = cc_citation_id c, ac_document_id = cc_document_id c,
         ac_filename = cc_filename c, ac_chunk_index = cc_chunk_index c, ac_score = cc_score c,
         ac_rerank_score = cc_rerank_score c \<rparr>) (cs_citations response) \<rparr>"

text \<open>A step of the service: the result and the new state of the audit log.\<close>

definition record_audit_event ::
  "'s chat_service \<Rightarrow> stamp \<Rightarrow> workspace_context \<Rightarrow> chat_request \<Rightarrow> chat_response \<Rightarrow> 's
     \<Rightarrow> chat_response res \<times> 's" where
  "record_audit_event sv stamp ctx r response alog =
     (case al_record (sv_audit sv)
        (audit_event stamp ctx r response (retrieval_limit sv r) (final_top_k sv r)) alog of
        Inl e \<Rightarrow> (Inl e, alog)
      | Inr alog' \<Rightarrow> (Inr response, alog'))"

definition no_answer_response :: "int \<Rightarrow> chat_usage \<Rightarrow> chat_response" where
  "no_answer_response retrieved_chunk_count usage =
     \<lparr> cs_answer = NO_ANSWER_MESSAGE, cs_model = NO_ANSWER_MODEL, cs_citations = [],
       cs_usage = usage, cs_retrieved_chunk_count = retrieved_chunk_count \<rparr>"

definition no_answer ::
  "'s chat_service \<Rightarrow> stamp \<Rightarrow> workspace_context \<Rightarrow> chat_request \<Rightarrow> int \<Rightarrow> chat_usage \<Rightarrow> 's
     \<Rightarrow> chat_response res \<times> 's" where
  "no_answer sv stamp ctx r retrieved_chunk_count usage alog =
     record_audit_event sv stamp ctx r (no_answer_response retrieved_chunk_count usage) alog"

definition chat_llm_request :: "pystr \<Rightarrow> reranked_chunk list \<Rightarrow> llm_request" where
  "chat_llm_request question supported =
     \<lparr> lq_messages = [\<lparr> cm_role = System, cm_content = SYSTEM_PROMPT \<rparr>,
         \<lparr> cm_role = User, cm_content = build_user_prompt question (map rk_chunk supported) \<rparr>],
       lq_max_tokens = None, lq_temperature = None \<rparr>"

definition response_usage :: "llm_response \<Rightarrow> chat_usage" where
  "response_usage lr = \<lparr> cu_prompt_tokens = lr_prompt_tokens lr,
     cu_completion_tokens = lr_completion_tokens lr, cu_total_tokens = lr_total_tokens lr \<rparr>"

text \<open>The part of \<open>answer\<close> after the LLM has replied.\<close>

definition answer_from_llm ::
  "ucd \<Rightarrow> 's chat_service \<Rightarrow> stamp \<Rightarrow> workspace_context \<Rightarrow> chat_request \<Rightarrow> reranked_chunk list
     \<Rightarrow> llm_response \<Rightarrow> 's \<Rightarrow> chat_response res \<times> 's" where
  "answer_from_llm U sv stamp ctx r supported lr alog =
     (case extract_citation_ids U (lr_content lr) (int (length supported)) of
        Inl e \<Rightarrow> (Inl e, alog)
      | Inr citation_ids \<Rightarrow>
          if citation_ids = []
          then no_answer sv stamp ctx r (int (length supported)) (response_usage lr) alog
          else record_audit_event sv stamp ctx r
            \<lparr> cs_answer = lr_content lr, cs_model = lr_model lr,
              cs_citations = build_citations supported citation_ids,
              cs_usage = response_usage lr,
              cs_retrieved_chunk_count = int (length supported) \<rparr> alog)"

definition answer ::
  "ucd \<Rightarrow> 's chat_service \<Rightarrow> stamp \<Rightarrow> workspace_context \<Rightarrow> chat_request \<Rightarrow> 's \<Rightarrow> chat_response res \<times> 's"
where
  "answer U sv stamp ctx r alog =
     (case sv_retrieve sv (cq_question r) (request_filter ctx r) (retrieval_limit sv r) of
        Inl e \<Rightarrow> (Inl e, alog)
      | Inr chunks \<Rightarrow>
          if chunks = [] then no_answer sv stamp ctx r 0 no_usage alog
          else (case make_rerank_request (cq_question r) chunks (final_top_k sv r) of
             Inl e \<Rightarrow> (Inl e, alog)
           | Inr rerank_req \<Rightarrow>
               (case sv_rerank sv rerank_req of
                  Inl e \<Rightarrow> (Inl e, alog)
                | Inr reranked \<Rightarrow>
                    (let supported = filter_supported_chunks reranked (sv_min_relevance_score sv) in
                     if supported = [] then no_answer sv stamp ctx r 0 no_usage alog
                     else (case sv_generate sv (chat_llm_request (cq_question r) supported) of
                        Inl e \<Rightarrow> (Inl e, alog)
                      | Inr lr \<Rightarrow> answer_from_llm U sv stamp ctx r supported lr alog)))))"

section \<open>The HTTP handler\<close>

definition document_security_forbidden :: exn where
  "document_security_forbidden = HTTPException 403 (py ''DOCUMENT_SECURITY_FORBIDDEN'')
     (py ''Document security level is not allowed for this role.'')"

fun chat_http_error :: "exn \<Rightarrow> exn" where
  "chat_http_error (ChatContextNotFoundError m) = HTTPException 404 (py ''CHAT_CONTEXT_NOT_FOUND'') m"
| "chat_http_error (DocumentSecurityPermissionError m) = document_security_forbidden"
| "chat_http_error (EmbeddingProviderError m) = HTTPException 502 (py ''CHAT_EMBEDDING_UNAVAILABLE'') m"
| "chat_http_error (LLMProviderError m) = HTTPException 502 (py ''CHAT_LLM_UNAVAILABLE'') m"
| "chat_http_error (RerankerProviderError m) = HTTPException 502 (py ''CHAT_RERANKER_UNAVAILABLE'') m"
| "chat_http_error e = e"

definition answer_question ::
  "ucd \<Rightarrow> 's chat_service \<Rightarrow> stamp \<Rightarrow> workspace_context \<Rightarrow> chat_request \<Rightarrow> 's \<Rightarrow> chat_response res \<times> 's"
where
  "answer_question U sv stamp ctx r alog =
     (case filter_document_security_levels_for_role (wc_role ctx) (cq_security_levels r) of
        Inl e \<Rightarrow> (Inl (chat_http_error e), alog)
      | Inr security_levels \<Rightarrow>
          (case answer U sv stamp ctx (r\<lparr> cq_security_levels := security_levels \<rparr>) alog of
             (Inl e, alog') \<Rightarrow> (Inl (chat_http_error e), alog')
           | (Inr response, alog') \<Rightarrow> (Inr response, alog')))"

text \<open>\<open>ChatService.__init__\<close> with the limits of the settings, and \<open>get_chat_service\<close>.\<close>

definition make_chat_service ::
  "settings \<Rightarrow> (pystr \<Rightarrow> retrieval_filter \<Rightarrow> int \<Rightarrow> retrieved_chunk list res)
     \<Rightarrow> (rerank_request \<Rightarrow> reranked_chunk list res) \<Rightarrow> (llm_request \<Rightarrow> llm_response res)
     \<Rightarrow> 's audit_store \<Rightarrow> 's chat_service" where
  "make_chat_service s retrieve rerank generate audit_store =
     \<lparr> sv_retrieve = retrieve, sv_rerank = rerank, sv_generate = generate, sv_audit = audit_store,
       sv_retrieval_limit = cfg_chat_retrieval_limit s, sv_rerank_top_k = cfg_chat_rerank_top_k s,
       sv_min_relevance_score = cfg_chat_min_relevance_score s \<rparr>"

definition get_chat_service ::
  "settings \<Rightarrow> (pystr \<Rightarrow> retrieval_filter \<Rightarrow> int \<Rightarrow> retrieved_chunk list res)
     \<Rightarrow> (http_request \<Rightarrow> http_result) \<Rightarrow> (llm_request \<Rightarrow> llm_response res) \<Rightarrow> 's audit_store
     \<Rightarrow> 's chat_service res" where
  "get_chat_service s retrieve rerank_post generate audit_store =
     (case get_reranker s rerank_post of
        Inl e \<Rightarrow> Inl e
      | Inr rerank \<Rightarrow> Inr (make_chat_service s retrieve rerank generate audit_store))"

lemma make_chat_service_simps [simp]:
  "sv_retrieve (make_chat_service s rt rr g a) = rt" "sv_rerank (make_chat_service s rt rr g a) = rr"
  "sv_generate (make_chat_service s rt rr g a) = g" "sv_audit (make_chat_service s rt rr g a) = a"
  "sv_retrieval_limit (make_chat_service s rt rr g a) = cfg_chat_retrieval_limit s"
  "sv_rerank_top_k (make_chat_service s rt rr g a) = cfg_chat_rerank_top_k s"
  "sv_min_relevance_score (make_chat_service s rt rr g a) = cfg_chat_min_relevance_score s"
  by (simp_all add: make_chat_service_def)

section \<open>Citations of an answer\<close>

lemma in_takeWhile: "c \<in> set (takeWhile P s) \<Longrightarrow> P c"
  by (rule set_takeWhileD [THEN conjunct2])

lemma citation_marks_occur:
  "ds \<in> set (citation_marks U s) \<Longrightarrow>
     (\<exists>a b. s = a @ [91] @ ds @ [93] @ b) \<and> ds \<noteq> [] \<and> (\<forall>c \<in> set ds. is_digit U c)"
proof (induction U s rule: citation_marks.induct)
  case (2 U c s)
  let ?ds = "takeWhile (is_digit U) s" and ?rest = "dropWhile (is_digit U) s"
  have skip: "ds \<in> set (citation_marks U s') \<Longrightarrow> s = l @ s' \<Longrightarrow>
      (\<exists>a b. s' = a @ [91] @ ds @ [93] @ b) \<Longrightarrow> \<exists>a b. c # s = a @ [91] @ ds @ [93] @ b" for s' l
    by (metis append_Cons append_assoc)
  show ?case
  proof (cases "c = 91 \<and> ?ds \<noteq> [] \<and> ?rest \<noteq> [] \<and> hd ?rest = 93")
    case True
    then have split: "s = ?ds @ 93 # tl ?rest" by (metis list.collapse takeWhile_dropWhile_id)
    from True "2.prems" consider "ds = ?ds" | "ds \<in> set (citation_marks U (tl ?rest))"
      by (auto simp: Let_def)
    then show ?thesis
    proof cases
      case 1
      have "c # s = [91] @ (?ds @ 93 # tl ?rest)" by (subst split [symmetric]) (simp add: True)
      then have "c # s = [] @ [91] @ ds @ [93] @ tl ?rest" using 1 by simp
      moreover have "ds \<noteq> [] \<and> (\<forall>x \<in> set ds. is_digit U x)" using True 1 by (auto dest: in_takeWhile)
      ultimately show ?thesis by blast
    next
      case 2
      with "2.IH"(1) [OF _ refl refl] True
      have IH: "(\<exists>a b. tl ?rest = a @ [91] @ ds @ [93] @ b) \<and> ds \<noteq> [] \<and> (\<forall>c \<in> set ds. is_digit U c)"
        by blast
      moreover have "s = (?ds @ [93]) @ tl ?rest" using split by simp
      ultimately show ?thesis using skip [OF 2] by blast
    qed
  next
    case False
    then have "ds \<in> set (citation_marks U s)" using "2.prems" by (auto simp: Let_def split: if_splits)
    moreover from this have "(\<exists>a b. s = a @ [91] @ ds @ [93] @ b) \<and> ds \<noteq> [] \<and> (\<forall>c \<in> set ds. is_digit U c)"
      using "2.IH"(2) [OF _ refl refl] "2.IH"(3) False by blast
    ultimately show ?thesis using skip [of s "[]"] by simp
  qed
qed simp

text \<open>Conversely, every bracketed number of the text is found: the brackets are not digits.\<close>

lemma occurring_mark_found:
  "s = a @ [91] @ ds @ [93] @ b \<Longrightarrow> ds \<noteq> [] \<Longrightarrow> \<forall>c \<in> set ds. is_digit U c \<Longrightarrow>
    \<not> is_digit U 91 \<Longrightarrow> \<not> is_digit U 93 \<Longrightarrow> ds \<in> set (citation_marks U s)"
proof (induction U s arbitrary: a rule: citation_marks.induct)
  case (2 U c s)
  let ?ds = "takeWhile (is_digit U) s" and ?rest = "dropWhile (is_digit U) s"
  note digits = "2.prems"(2-5)
  show ?case
  proof (cases a)
    case Nil
    with "2.prems" have c: "c = 91" and s: "s = ds @ 93 # b" by simp_all
    have "?ds = ds" "?rest = 93 # b"
      unfolding s using digits by (auto simp: takeWhile_append dropWhile_append)
    with c digits show ?thesis by (simp add: Let_def)
  next
    case (Cons x a')
    with "2.prems"(1) have s: "s = a' @ [91] @ ds @ [93] @ b" by simp
    show ?thesis
    proof (cases "c = 91 \<and> ?ds \<noteq> [] \<and> ?rest \<noteq> [] \<and> hd ?rest = 93")
      case True
      have "\<not> (\<forall>x \<in> set a'. is_digit U x)"
      proof
        assume "\<forall>x \<in> set a'. is_digit U x"
        then have "?rest = 91 # ds @ [93] @ b" unfolding s using digits by (simp add: dropWhile_append)
        with True show False by simp
      qed
      then obtain y where y: "y \<in> set a'" "\<not> is_digit U y" by blast
      then have "?rest = dropWhile (is_digit U) a' @ [91] @ ds @ [93] @ b"
        unfolding s by (simp add: dropWhile_append1)
      moreover have "dropWhile (is_digit U) a' \<noteq> []" using y by (auto simp: dropWhile_eq_Nil_conv)
      ultimately have "tl ?rest = tl (dropWhile (is_digit U) a') @ [91] @ ds @ [93] @ b" by simp
      from "2.IH"(1) [OF _ refl refl _ this digits] True have "ds \<in> set (citation_marks U (tl ?rest))" by blast
      with True show ?thesis by (simp add: Let_def)
    next
      case False
      have "ds \<in> set (citation_marks U s)"
        using "2.IH"(2) [OF _ refl refl _ s digits] "2.IH"(3) [OF _ s digits] False by blast
      with False show ?thesis by (auto simp: Let_def)
    qed
  qed
qed simp

text \<open>The loop computes the first occurrences of the values in range.\<close>

definition cited_values :: "ucd \<Rightarrow> pystr \<Rightarrow> int list" where
  "cited_values U ans = map (digits_value U) (citation_marks U ans)"

lemma extract_ids_loop_eq:
  "\<forall>ds \<in> set marks. length ds \<le> 4300 \<Longrightarrow>
   extract_ids_loop U m (first_occurrences (filter (\<lambda>i. 1 \<le> i \<and> i \<le> m) seen)) marks =
     Inr (first_occurrences (filter (\<lambda>i. 1 \<le> i \<and> i \<le> m) (seen @ map (digits_value U) marks)))"
proof (induction marks arbitrary: seen)
  case (Cons ds marks)
  let ?P = "\<lambda>i. 1 \<le> i \<and> i \<le> m" and ?v = "digits_value U ds"
  have "extract_ids_loop U m (first_occurrences (filter ?P seen)) (ds # marks) =
      extract_ids_loop U m (first_occurrences (filter ?P (seen @ [?v]))) marks"
    using Cons.prems by (auto simp: int_of_digits_def first_occurrences_snoc)
  also have "\<dots> = Inr (first_occurrences (filter ?P ((seen @ [?v]) @ map (digits_value U) marks)))"
    using Cons.prems by (intro Cons.IH) simp
  finally show ?case by simp
qed simp

lemma extract_citation_ids_eq:
  assumes "\<forall>ds \<in> set (citation_marks U ans). length ds \<le> 4300"
  shows "extract_citation_ids U ans m =
    Inr (first_occurrences (filter (\<lambda>i. 1 \<le> i \<and> i \<le> m) (cited_values U ans)))"
  using extract_ids_loop_eq [OF assms, where m = m and seen = "[]"]
  by (simp add: extract_citation_ids_def cited_values_def first_occurrences_def)

lemma extract_ids_loop_short: "extract_ids_loop U m acc marks = Inr ids \<Longrightarrow> \<forall>ds \<in> set marks. length ds \<le> 4300"
  by (induction U m acc marks rule: extract_ids_loop.induct)
    (auto simp: int_of_digits_def split: if_splits)

lemma extract_citation_ids_Inr:
  assumes "extract_citation_ids U ans m = Inr ids"
  shows "ids = first_occurrences (filter (\<lambda>i. 1 \<le> i \<and> i \<le> m) (cited_values U ans))"
    and "distinct ids" and "set ids = {i \<in> set (cited_values U ans). 1 \<le> i \<and> i \<le> m}"
proof -
  have "\<forall>ds \<in> set (citation_marks U ans). length ds \<le> 4300"
    using assms unfolding extract_citation_ids_def by (rule extract_ids_loop_short)
  from extract_citation_ids_eq [OF this, where m = m] assms
  show ids: "ids = first_occurrences (filter (\<lambda>i. 1 \<le> i \<and> i \<le> m) (cited_values U ans))" by simp
  show "distinct ids" "set ids = {i \<in> set (cited_values U ans). 1 \<le> i \<and> i \<le> m}"
    unfolding ids by auto
qed

end
