(* ===== verification/Chat_Guarantees.thy ===== *)
theory Chat_Guarantees
  imports Chat
begin

text \<open>
  What an answer of the chat service guarantees. \<open>answer_response\<close> is the specification of the
  response, without the audit log; \<open>answer\<close> is that response followed by one record in the log
  (\<open>answer_eq\<close>). The locale \<open>chat_parts\<close> combines the protocols of the service's collaborators and
  is interpreted for the service the router builds from the settings; the properties follow for the
  HTTP handler.
\<close>

section \<open>The response and the record\<close>

definition grounded_response ::
  "ucd \<Rightarrow> reranked_chunk list \<Rightarrow> llm_response \<Rightarrow> chat_response res" where
  "grounded_response U supported lr =
     (case extract_citation_ids U (lr_content lr) (int (length supported)) of
        Inl e \<Rightarrow> Inl e
      | Inr ids \<Rightarrow> Inr (if ids = [] then no_answer_response (int (length supported)) (response_usage lr)
          else \<lparr> cs_answer = lr_content lr, cs_model = lr_model lr,
            cs_citations = build_citations supported ids, cs_usage = response_usage lr,
            cs_retrieved_chunk_count = int (length supported) \<rparr>))"

text \<open>The supported chunks: what retrieval, reranking and the threshold leave.\<close>

definition supported_chunks :: "'s chat_service \<Rightarrow> workspace_context \<Rightarrow> chat_request \<Rightarrow> reranked_chunk list res" where
  "supported_chunks sv ctx r =
     (case sv_retrieve sv (cq_question r) (request_filter ctx r) (retrieval_limit sv r) of
        Inl e \<Rightarrow> Inl e
      | Inr chunks \<Rightarrow> if chunks = [] then Inr []
          else (case make_rerank_request (cq_question r) chunks (final_top_k sv r) of
             Inl e \<Rightarrow> Inl e
           | Inr req \<Rightarrow> (case sv_rerank sv req of
                Inl e \<Rightarrow> Inl e
              | Inr reranked \<Rightarrow> Inr (filter_supported_chunks reranked (sv_min_relevance_score sv)))))"

definition answer_response :: "ucd \<Rightarrow> 's chat_service \<Rightarrow> workspace_context \<Rightarrow> chat_request \<Rightarrow> chat_response res" where
  "answer_response U sv ctx r =
     (case supported_chunks sv ctx r of
        Inl e \<Rightarrow> Inl e
      | Inr supported \<Rightarrow> if supported = [] then Inr (no_answer_response 0 no_usage)
          else (case sv_generate sv (chat_llm_request (cq_question r) supported) of
             Inl e \<Rightarrow> Inl e
           | Inr lr \<Rightarrow> grounded_response U supported lr))"

lemma answer_eq:
  "answer U sv stamp ctx r alog =
     (case answer_response U sv ctx r of
        Inl e \<Rightarrow> (Inl e, alog)
      | Inr response \<Rightarrow> record_audit_event sv stamp ctx r response alog)"
proof (cases "sv_retrieve sv (cq_question r) (request_filter ctx r) (retrieval_limit sv r)")
  case (Inr chunks)
  show ?thesis
  proof (cases "chunks = []")
    case False
    then show ?thesis
      by (auto simp: answer_def answer_response_def supported_chunks_def Inr no_answer_def
          answer_from_llm_def grounded_response_def Let_def split: sum.split)
  qed (simp add: answer_def answer_response_def supported_chunks_def Inr no_answer_def)
qed (simp add: answer_def answer_response_def supported_chunks_def)

lemma answer_responseE:
  assumes "answer_response U sv ctx r = Inr response"
  obtains (no_answer) n u where "response = no_answer_response n u"
  | (grounded) supported lr ids where
      "supported_chunks sv ctx r = Inr supported"
      "sv_generate sv (chat_llm_request (cq_question r) supported) = Inr lr"
      "extract_citation_ids U (lr_content lr) (int (length supported)) = Inr ids" "ids \<noteq> []"
      "response = \<lparr> cs_answer = lr_content lr, cs_model = lr_model lr,
         cs_citations = build_citations supported ids, cs_usage = response_usage lr,
         cs_retrieved_chunk_count = int (length supported) \<rparr>"
  using assms
  by (auto simp: answer_response_def grounded_response_def split: sum.splits if_splits)

text \<open>The limits of a request do not depend on the language model.\<close>

lemma limits_generate [simp]:
  "final_top_k (sv\<lparr> sv_generate := g \<rparr>) r = final_top_k sv r"
  "retrieval_limit (sv\<lparr> sv_generate := g \<rparr>) r = retrieval_limit sv r"
  by (cases "cq_top_k r"; simp add: retrieval_limit_def final_top_k_def)+

section \<open>The service's collaborators\<close>

locale chat_parts =
  ret: retriever "sv_retrieve sv" ok + rer: reranker "sv_rerank sv" + aud: audit_log_store "sv_audit sv" hist matches
  for sv :: "'s chat_service" and ok :: bool and hist :: "'s \<Rightarrow> chat_audit_event list"
    and matches :: "chat_audit_event \<Rightarrow> chat_audit_event_filters \<Rightarrow> bool"
begin

text \<open>A supported chunk is one the retriever returned.\<close>

lemma supported_retrieved:
  assumes "supported_chunks sv ctx r = Inr supported" "x \<in> set supported"
  shows "\<exists>chunks. sv_retrieve sv (cq_question r) (request_filter ctx r) (retrieval_limit sv r) = Inr chunks
    \<and> 0 \<le> retrieval_limit sv r \<and> rk_chunk x \<in> set chunks \<and> sv_min_relevance_score sv \<le> rk_rerank_score x"
proof -
  from assms obtain chunks req reranked where
    c: "sv_retrieve sv (cq_question r) (request_filter ctx r) (retrieval_limit sv r) = Inr chunks"
    and req: "make_rerank_request (cq_question r) chunks (final_top_k sv r) = Inr req"
    and rr: "sv_rerank sv req = Inr reranked"
    and s: "supported = filter_supported_chunks reranked (sv_min_relevance_score sv)"
    by (auto simp: supported_chunks_def split: sum.splits if_splits)
  from req have k: "0 < final_top_k sv r" and req': "rr_chunks req = chunks" "0 < rr_top_k req"
    by (auto simp: make_rerank_request_def split: if_splits)
  from assms(2) s have x: "x \<in> set reranked" "sv_min_relevance_score sv \<le> rk_rerank_score x"
    by (auto simp: filter_supported_chunks_def)
  have "rk_chunk x \<in> set chunks" using rer.rerank_from_request [OF req'(2) rr x(1)] req' by simp
  moreover have "0 \<le> retrieval_limit sv r" using k by (simp add: retrieval_limit_def)
  ultimately show ?thesis using c x(2) by blast
qed

lemma supported_within:
  assumes "ok" "supported_chunks sv ctx r = Inr supported" "x \<in> set supported"
  shows "chunk_within (request_filter ctx r) (rk_chunk x)"
    and "sv_min_relevance_score sv \<le> rk_rerank_score x"
  using supported_retrieved [OF assms(2,3)] ret.within assms(1) by blast+

lemma supported_bound:
  assumes "supported_chunks sv ctx r = Inr supported" "supported \<noteq> []"
  shows "int (length supported) \<le> final_top_k sv r"
proof -
  from assms obtain chunks req reranked where
    req: "make_rerank_request (cq_question r) chunks (final_top_k sv r) = Inr req"
    and rr: "sv_rerank sv req = Inr reranked"
    and s: "supported = filter_supported_chunks reranked (sv_min_relevance_score sv)"
    by (auto simp: supported_chunks_def split: sum.splits if_splits)
  from req have "0 < rr_top_k req" "rr_top_k req = final_top_k sv r"
    by (auto simp: make_rerank_request_def split: if_splits)
  with rer.rerank_bound [OF _ rr] have "int (length reranked) \<le> final_top_k sv r" by simp
  moreover have "length supported \<le> length reranked" by (simp add: s filter_supported_chunks_def)
  ultimately show ?thesis by linarith
qed

text \<open>A citation of a response is built from a retrieved chunk, which lies within the filter.\<close>

lemma citation_retrieved:
  assumes "answer_response U sv ctx r = Inr response" "c \<in> set (cs_citations response)"
  shows "\<exists>x chunks. c = build_citation (cc_citation_id c) x
    \<and> sv_retrieve sv (cq_question r) (request_filter ctx r) (retrieval_limit sv r) = Inr chunks
    \<and> 0 \<le> retrieval_limit sv r \<and> rk_chunk x \<in> set chunks \<and> sv_min_relevance_score sv \<le> rk_rerank_score x"
  using assms(1)
proof (cases rule: answer_responseE)
  case no_answer
  with assms(2) show ?thesis by (simp add: no_answer_response_def)
next
  case (grounded supported lr ids)
  from assms(2) grounded(5) obtain i where i: "i \<in> set ids"
    and c: "c = build_citation i (supported ! nat (i - 1))"
    by (auto simp: build_citations_def)
  from extract_citation_ids_Inr(3) [OF grounded(3)] i have "1 \<le> i" "i \<le> int (length supported)" by auto
  then have "supported ! nat (i - 1) \<in> set supported" by simp
  from supported_retrieved [OF grounded(1) this] c show ?thesis
    by (auto simp: build_citation_def)
qed

lemma citation_source:
  assumes "ok" "answer_response U sv ctx r = Inr response" "c \<in> set (cs_citations response)"
  shows "\<exists>x. c = build_citation (cc_citation_id c) x
    \<and> chunk_within (request_filter ctx r) (rk_chunk x) \<and> sv_min_relevance_score sv \<le> rk_rerank_score x"
  using citation_retrieved [OF assms(2,3)] ret.within assms(1) by blast

text \<open>The record: a returned response adds exactly its event to the history, an error adds none.\<close>

lemma answer_recorded:
  assumes "answer U sv stamp ctx r s = (Inr response, s')"
  shows "hist s' = hist s @ [audit_event stamp ctx r response (retrieval_limit sv r) (final_top_k sv r)]"
  using assms aud.record_log
  by (auto simp: answer_eq record_audit_event_def split: sum.splits)

lemma answer_error_unrecorded: "answer U sv stamp ctx r s = (Inl e, s') \<Longrightarrow> s' = s"
  by (auto simp: answer_eq record_audit_event_def split: sum.splits)

end

section \<open>The service of the application\<close>

lemma app_chat_parts:
  "reranker rr \<Longrightarrow> chat_parts (make_chat_service s (build_retriever U s emb Q v q) rr g
     (create_audit_log_store U s)) (qdrant_reads_ok Q) (\<lambda>es. es) (store_matches U s)"
  unfolding chat_parts_def make_chat_service_simps
  by (intro conjI built.retriever_axioms app_audit.audit_log_store_axioms)

interpretation score_chat: chat_parts
  "make_chat_service s (build_retriever U s emb Q v q) score_preserving_rerank g (create_audit_log_store U s)"
  "qdrant_reads_ok Q" "\<lambda>es. es" "store_matches U s"
  for s :: settings and U :: ucd and emb :: "pystr list \<Rightarrow> pyfloat list list res" and Q :: "'q qdrant"
    and v :: vector_store and q :: 'q and g :: "llm_request \<Rightarrow> llm_response res"
  by (rule app_chat_parts, rule score_reranker.reranker_axioms)

interpretation bge_chat: chat_parts
  "make_chat_service s (build_retriever U s emb Q v q) (bge_rerank profile post) g (create_audit_log_store U s)"
  "qdrant_reads_ok Q" "\<lambda>es. es" "store_matches U s"
  for s :: settings and U :: ucd and emb :: "pystr list \<Rightarrow> pyfloat list list res" and Q :: "'q qdrant"
    and v :: vector_store and q :: 'q and g :: "llm_request \<Rightarrow> llm_response res"
    and profile :: reranker_profile and post :: "http_request \<Rightarrow> http_result"
  by (rule app_chat_parts, rule bge_reranker.reranker_axioms)

text \<open>The service the dependencies of the router build.\<close>

definition app_chat_service ::
  "ucd \<Rightarrow> settings \<Rightarrow> (pystr list \<Rightarrow> pyfloat list list res) \<Rightarrow> 'q qdrant \<Rightarrow> vector_store \<Rightarrow> 'q
     \<Rightarrow> (http_request \<Rightarrow> http_result) \<Rightarrow> (llm_request \<Rightarrow> llm_response res)
     \<Rightarrow> chat_audit_event list chat_service res" where
  "app_chat_service U s emb Q v q rerank_post generate =
     get_chat_service s (build_retriever U s emb Q v q) rerank_post generate (create_audit_log_store U s)"

lemma app_chat_service_parts:
  assumes "app_chat_service U s emb Q v q post g = Inr sv"
  shows "chat_parts sv (qdrant_reads_ok Q) (\<lambda>es. es) (store_matches U s)"
    and "sv_min_relevance_score sv = cfg_chat_min_relevance_score s"
    and "sv_generate sv = g"
proof -
  from assms obtain rr where rr: "get_reranker s post = Inr rr"
    and sv: "sv = make_chat_service s (build_retriever U s emb Q v q) rr g (create_audit_log_store U s)"
    by (auto simp: app_chat_service_def get_chat_service_def split: sum.splits)
  show "chat_parts sv (qdrant_reads_ok Q) (\<lambda>es. es) (store_matches U s)"
    unfolding sv by (rule app_chat_parts [OF get_reranker_ok [OF rr]])
  show "sv_min_relevance_score sv = cfg_chat_min_relevance_score s" "sv_generate sv = g"
    by (simp_all add: sv)
qed

lemma answer_question_Inr:
  assumes "answer_question U sv stamp ctx r s = (Inr response, s')"
  obtains levels where
    "filter_document_security_levels_for_role (wc_role ctx) (cq_security_levels r) = Inr levels"
    "answer_response U sv ctx (r\<lparr> cq_security_levels := levels \<rparr>) = Inr response"
    "answer U sv stamp ctx (r\<lparr> cq_security_levels := levels \<rparr>) s = (Inr response, s')"
  using assms
  by (auto simp: answer_question_def answer_eq record_audit_event_def split: sum.splits prod.splits)

text \<open>What the filter of a request for a role lets through.\<close>

lemma filter_levels_let_through:
  assumes "filter_document_security_levels_for_role role req = Inr levels"
    and "truthy levels \<longrightarrow> l \<in> set (the levels)"
  shows "role = ADMIN_ROLE \<or> l \<in> {GENERAL_SECURITY_LEVEL, INTERNAL_SECURITY_LEVEL}"
    and "truthy req \<Longrightarrow> l \<in> normalize_security_level ` set (the req)"
proof -
  show "role = ADMIN_ROLE \<or> l \<in> {GENERAL_SECURITY_LEVEL, INTERNAL_SECURITY_LEVEL}"
  proof (cases "role = ADMIN_ROLE")
    case False
    from filter_levels_non_admin [OF this assms(1)] assms(2) show ?thesis by auto
  qed simp
  assume "truthy req"
  then obtain ls where ls: "req = Some ls" "ls \<noteq> []" by (rule truthyE)
  with assms(1) have "levels = Some (first_occurrences (map normalize_security_level ls))"
    by (auto simp: filter_levels_requested split: if_splits)
  with assms(2) ls show "l \<in> normalize_security_level ` set (the req)" by simp
qed

section \<open>A sample run\<close>

text \<open>A member asks one question; the store holds an internal chunk of the member's workspace.\<close>

definition sample_point :: point where
  "sample_point = \<lparr> pt_id = py ''p'', pt_vector = [1],
     pt_payload = \<lparr> pl_workspace_id = py ''w'', pl_workspace_name = py ''W'', pl_document_id = py ''d'',
       pl_uploaded_by_employee_id = None, pl_security_level = Some (py ''internal''),
       pl_filename = py ''a.txt'', pl_parser = py ''text'', pl_chunk_index = 0,
       pl_chunk_text = py ''Paris'' \<rparr> \<rparr>"

definition sample_context :: workspace_context where
  "sample_context = \<lparr> wc_request_id = py ''r'', wc_workspace_id = py ''w'', wc_workspace_name = py ''W'',
     wc_role = MEMBER_ROLE, wc_employee_id = None, wc_display_name = None \<rparr>"

definition sample_request :: chat_request where
  "sample_request = \<lparr> cq_question = py ''capital?'', cq_document_ids = Some [py ''d''],
     cq_security_levels = Some [py ''internal''], cq_top_k = None \<rparr>"

definition sample_embed :: "pystr list \<Rightarrow> pyfloat list list res" where
  "sample_embed ts = Inr (map (\<lambda>_. [1]) ts)"

definition sample_generate :: "llm_request \<Rightarrow> llm_response res" where
  "sample_generate r = Inr \<lparr> lr_content = py ''Paris [1][7]'', lr_model = py ''m'', lr_finish_reason = None,
     lr_prompt_tokens = None, lr_completion_tokens = None, lr_total_tokens = None \<rparr>"

definition sample_store :: vector_store where
  "sample_store = \<lparr> vs_collection_name = py ''c'', vs_vector_size = 1 \<rparr>"

definition sample_service :: "chat_audit_event list chat_service" where
  "sample_service = make_chat_service default_settings
     (build_retriever ascii_ucd default_settings sample_embed list_qdrant sample_store [sample_point])
     score_preserving_rerank sample_generate (create_audit_log_store ascii_ucd default_settings)"

definition sample_response :: chat_response where
  "sample_response = \<lparr> cs_answer = py ''Paris [1][7]'', cs_model = py ''m'',
     cs_citations = [\<lparr> cc_citation_id = 1, cc_document_id = py ''d'', cc_filename = py ''a.txt'',
       cc_security_level = py ''internal'', cc_chunk_index = 0, cc_score = 1, cc_rerank_score = Some 1,
       cc_snippet = py ''Paris'' \<rparr>],
     cs_usage = no_usage, cs_retrieved_chunk_count = 1 \<rparr>"

lemma sample_app_service:
  "app_chat_service ascii_ucd default_settings sample_embed list_qdrant sample_store [sample_point]
     (\<lambda>_. HttpError []) sample_generate = Inr sample_service"
  by (simp add: app_chat_service_def get_chat_service_def get_reranker_def sample_service_def
      default_settings_def)

definition sample_result :: "chat_response res \<times> chat_audit_event list" where
  "sample_result = answer_question ascii_ucd sample_service (py ''e'', 0) sample_context sample_request []"

lemma sample_answer: "sample_result = (Inr sample_response, snd sample_result)"
proof -
  have "fst sample_result = Inr sample_response" by code_simp
  then show ?thesis by (simp add: prod_eq_iff)
qed

lemmas sample_run = sample_answer [unfolded sample_result_def]

section \<open>Properties\<close>



text \<open>
  C2: an answer is grounded. A returned response is either the fixed no-answer message without
  citations, or the model's text, whose citations are the bracketed numbers of that text that name
  a supplied chunk, at least one, without repetition and in order of first appearance; the supplied
  chunks are no more than the requested number.
\<close>

theorem chat_grounding:
  assumes "app_chat_service U cfg emb Q v q post g = Inr sv"
    and "answer_question U sv stamp ctx r s = (Inr response, s')"
  shows "(cs_answer response = NO_ANSWER_MESSAGE \<and> cs_citations response = []) \<or>
    (let ids = map cc_citation_id (cs_citations response); n = cs_retrieved_chunk_count response in
     ids \<noteq> [] \<and> ids = first_occurrences (filter (\<lambda>i. 1 \<le> i \<and> i \<le> n) (cited_values U (cs_answer response)))
     \<and> n \<le> final_top_k sv r)"
proof -
  from assms(2) obtain levels where
    "answer_response U sv ctx (r\<lparr> cq_security_levels := levels \<rparr>) = Inr response"
    by (rule answer_question_Inr)
  then show ?thesis
  proof (cases rule: answer_responseE)
    case no_answer
    then show ?thesis by (simp add: no_answer_response_def)
  next
    case (grounded supported lr ids)
    let ?n = "int (length supported)"
    from grounded(3) have ids: "ids = first_occurrences (filter (\<lambda>i. 1 \<le> i \<and> i \<le> ?n) (cited_values U (lr_content lr)))"
      by (rule extract_citation_ids_Inr)
    have ne: "supported \<noteq> []"
      using extract_citation_ids_Inr(3) [OF grounded(3)] grounded(4) by (cases ids) auto
    have "?n \<le> final_top_k sv (r\<lparr> cq_security_levels := levels \<rparr>)"
      by (rule chat_parts.supported_bound [OF app_chat_service_parts(1) [OF assms(1)] grounded(1) ne])
    then have "?n \<le> final_top_k sv r" by (simp add: final_top_k_def)
    moreover have "map cc_citation_id (cs_citations response) = ids"
      by (simp add: grounded(5) build_citations_def build_citation_def comp_def)
    ultimately show ?thesis using grounded(4,5) ids by (simp add: Let_def)
  qed
qed

theorem chat_grounding_witness:
  "map cc_citation_id (cs_citations sample_response) =
     first_occurrences (filter (\<lambda>i. 1 \<le> i \<and> i \<le> 1) (cited_values ascii_ucd (py ''Paris [1][7]'')))"
  using chat_grounding [OF sample_app_service sample_run]
  by (simp add: sample_response_def Let_def)

text \<open>
  C3: every response the chat handler returns is recorded exactly once: the log grows by one event,
  which names the request, the caller's workspace, the question, the model, the answer and the
  citations of the response; when the handler raises, the log is unchanged.
\<close>

theorem chat_audited_once:
  assumes "app_chat_service U cfg emb Q v q post g = Inr sv"
    and "answer_question U sv stamp ctx r s = (result, s')"
  shows "case result of
      Inl e \<Rightarrow> s' = s
    | Inr response \<Rightarrow> \<exists>event. s' = s @ [event]
        \<and> ce_event_id event = fst stamp \<and> ce_request_id event = wc_request_id ctx
        \<and> ce_workspace_id event = wc_workspace_id ctx \<and> ce_question event = cq_question r
        \<and> ce_model event = cs_model response
        \<and> ce_answer_character_count event = int (length (cs_answer response))
        \<and> map ac_citation_id (ce_citations event) = map cc_citation_id (cs_citations response)
        \<and> map ac_document_id (ce_citations event) = map cc_document_id (cs_citations response)"
proof -
  note parts = app_chat_service_parts(1) [OF assms(1)]
  show ?thesis
  proof (cases result)
    case (Inl e)
    with assms(2) chat_parts.answer_error_unrecorded [OF parts] show ?thesis
      by (auto simp: answer_question_def split: sum.splits prod.splits)
  next
    case (Inr response)
    from assms(2) [unfolded Inr] obtain levels where
      "answer U sv stamp ctx (r\<lparr> cq_security_levels := levels \<rparr>) s = (Inr response, s')"
      by (rule answer_question_Inr)
    from chat_parts.answer_recorded [OF parts this] Inr show ?thesis
      by (auto simp: audit_event_def comp_def)
  qed
qed

theorem chat_audited_once_witness:
  "length (snd sample_result) = 1 \<and> ce_request_id (hd (snd sample_result)) = py ''r''"
  using chat_audited_once [OF sample_app_service sample_run]
  by (auto simp: sample_result_def sample_context_def)



end
