(* ===== verification/Storage.thy ===== *)
theory Storage
  imports Config
begin

text \<open>
  \<open>storage/minio.py\<close>: the object store. The MinIO client is not part of the repository; it is the
  record \<open>minio\<close> with the documented behaviour \<open>minio_ok\<close>: an object that was put is the one that is
  got, removing an object makes it disappear, other objects are untouched. The protocol
  \<open>StorageService\<close> is the record \<open>storage\<close> with the locale \<open>storage_service\<close>, interpreted for
  \<open>MinioStorageService\<close>.
\<close>

record 'm minio =
  mi_bucket_exists :: "pystr \<Rightarrow> 'm \<Rightarrow> bool"
  mi_make_bucket :: "pystr \<Rightarrow> 'm \<Rightarrow> 'm"
  mi_put_object :: "pystr \<Rightarrow> pystr \<Rightarrow> bytes \<Rightarrow> int \<Rightarrow> pystr \<Rightarrow> 'm \<Rightarrow> 'm res"
  mi_get_object :: "pystr \<Rightarrow> pystr \<Rightarrow> 'm \<Rightarrow> bytes res"
  mi_remove_object :: "pystr \<Rightarrow> pystr \<Rightarrow> 'm \<Rightarrow> 'm res"
  mi_objects :: "pystr \<Rightarrow> 'm \<Rightarrow> pystr \<rightharpoonup> bytes"

text \<open>\<open>mi_objects\<close> is the content of a bucket, which the behaviour is stated about.\<close>

definition minio_ok :: "'m minio \<Rightarrow> bool" where
  "minio_ok M \<longleftrightarrow>
     (\<forall>b k data n ct m m'. mi_put_object M b k data n ct m = Inr m' \<longrightarrow> n = int (length data) \<longrightarrow>
        mi_objects M b m' = (mi_objects M b m)(k \<mapsto> data)) \<and>
     (\<forall>b k m data. mi_get_object M b k m = Inr data \<longrightarrow> mi_objects M b m k = Some data) \<and>
     (\<forall>b k m m'. mi_remove_object M b k m = Inr m' \<longrightarrow>
        mi_objects M b m' = (mi_objects M b m)(k := None))"

section \<open>The protocol\<close>

record 'm storage =
  ss_upload :: "pystr \<Rightarrow> pystr \<Rightarrow> pystr \<Rightarrow> pystr \<Rightarrow> bytes \<Rightarrow> 'm \<Rightarrow> (pystr \<times> 'm) res"
  ss_download :: "pystr \<Rightarrow> 'm \<Rightarrow> bytes res"
  ss_delete :: "pystr \<Rightarrow> 'm \<Rightarrow> 'm res"

text \<open>\<open>objects m\<close> is the content the service sees; \<open>ok\<close> carries the laws of the client.\<close>

locale storage_service =
  fixes st :: "'m storage" and objects :: "'m \<Rightarrow> pystr \<rightharpoonup> bytes" and ok :: bool
  assumes upload_objects: "ok \<Longrightarrow> ss_upload st w d f ct data m = Inr (k, m') \<Longrightarrow>
      objects m' = (objects m)(k \<mapsto> data)"
    and upload_key: "ok \<Longrightarrow> ss_upload st w d f ct data m = Inr (k, m') \<Longrightarrow>
      k = w @ py ''/'' @ d @ py ''/'' @ f"
    and download_objects: "ok \<Longrightarrow> ss_download st k m = Inr data \<Longrightarrow> objects m k = Some data"
    and delete_objects: "ok \<Longrightarrow> ss_delete st k m = Inr m' \<Longrightarrow> objects m' = (objects m)(k := None)"
begin

lemma download_uploaded:
  "ok \<Longrightarrow> ss_upload st w d f ct data m = Inr (k, m') \<Longrightarrow> ss_download st k m' = Inr data' \<Longrightarrow> data' = data"
  using upload_objects download_objects by fastforce

lemma download_deleted: "ok \<Longrightarrow> ss_delete st k m = Inr m' \<Longrightarrow> \<exists>e. ss_download st k m' = Inl e"
  using delete_objects download_objects by (cases "ss_download st k m'") fastforce+

end

section \<open>MinioStorageService\<close>

definition ensure_bucket :: "'m minio \<Rightarrow> pystr \<Rightarrow> 'm \<Rightarrow> 'm" where
  "ensure_bucket M bucket m = (if mi_bucket_exists M bucket m then m else mi_make_bucket M bucket m)"

definition object_key :: "pystr \<Rightarrow> pystr \<Rightarrow> pystr \<Rightarrow> pystr" where
  "object_key workspace_id document_id filename =
     workspace_id @ py ''/'' @ document_id @ py ''/'' @ filename"

definition minio_upload ::
  "'m minio \<Rightarrow> pystr \<Rightarrow> pystr \<Rightarrow> pystr \<Rightarrow> pystr \<Rightarrow> pystr \<Rightarrow> bytes \<Rightarrow> 'm \<Rightarrow> (pystr \<times> 'm) res" where
  "minio_upload M bucket workspace_id document_id filename content_type data m =
     (let key = object_key workspace_id document_id filename in
      case mi_put_object M bucket key data (int (length data))
          (if content_type = [] then py ''application/octet-stream'' else content_type) m of
        Inl e \<Rightarrow> Inl e
      | Inr m' \<Rightarrow> Inr (key, m'))"

definition minio_download :: "'m minio \<Rightarrow> pystr \<Rightarrow> pystr \<Rightarrow> 'm \<Rightarrow> bytes res" where
  "minio_download M bucket key m = mi_get_object M bucket key m"

definition minio_delete :: "'m minio \<Rightarrow> pystr \<Rightarrow> pystr \<Rightarrow> 'm \<Rightarrow> 'm res" where
  "minio_delete M bucket key m = mi_remove_object M bucket key m"

definition minio_storage :: "'m minio \<Rightarrow> pystr \<Rightarrow> 'm storage" where
  "minio_storage M bucket = \<lparr> ss_upload = minio_upload M bucket,
     ss_download = minio_download M bucket, ss_delete = minio_delete M bucket \<rparr>"

text \<open>\<open>MinioStorageService.__init__\<close>: the service and the client state with its bucket.\<close>

definition make_minio_storage :: "'m minio \<Rightarrow> settings \<Rightarrow> 'm \<Rightarrow> 'm storage \<times> 'm" where
  "make_minio_storage M s m =
     (minio_storage M (cfg_minio_bucket s), ensure_bucket M (cfg_minio_bucket s) m)"

interpretation minio: storage_service "minio_storage M bucket" "mi_objects M bucket" "minio_ok M"
  for M :: "'m minio" and bucket :: pystr
proof unfold_locales
  fix w d f ct data k and m m' :: 'm
  assume ok: "minio_ok M" and up: "ss_upload (minio_storage M bucket) w d f ct data m = Inr (k, m')"
  then show "k = w @ py ''/'' @ d @ py ''/'' @ f"
    by (auto simp: minio_storage_def minio_upload_def Let_def object_key_def split: sum.splits)
  from up obtain ct' where "mi_put_object M bucket k data (int (length data)) ct' m = Inr m'"
    by (auto simp: minio_storage_def minio_upload_def Let_def split: sum.splits)
  with ok show "mi_objects M bucket m' = (mi_objects M bucket m)(k \<mapsto> data)"
    unfolding minio_ok_def by blast
next
  fix k data and m m' :: 'm
  show "minio_ok M \<Longrightarrow> ss_download (minio_storage M bucket) k m = Inr data \<Longrightarrow> mi_objects M bucket m k = Some data"
    unfolding minio_ok_def by (simp add: minio_storage_def minio_download_def)
  show "minio_ok M \<Longrightarrow> ss_delete (minio_storage M bucket) k m = Inr m' \<Longrightarrow>
      mi_objects M bucket m' = (mi_objects M bucket m)(k := None)"
    unfolding minio_ok_def by (simp add: minio_storage_def minio_delete_def)
qed

section \<open>A client over one bucket\<close>

definition map_minio :: "(pystr \<rightharpoonup> bytes) minio" where
  "map_minio = \<lparr> mi_bucket_exists = (\<lambda>b m. True), mi_make_bucket = (\<lambda>b m. m),
     mi_put_object = (\<lambda>b k data n ct m. Inr (m(k \<mapsto> data))),
     mi_get_object = (\<lambda>b k m. case m k of None \<Rightarrow> Inl (ExternalError (py ''NoSuchKey'')) | Some d \<Rightarrow> Inr d),
     mi_remove_object = (\<lambda>b k m. Inr (m(k := None))),
     mi_objects = (\<lambda>b m. m) \<rparr>"

lemma map_minio_ok: "minio_ok map_minio"
  by (auto simp: minio_ok_def map_minio_def split: option.splits)

end
