(* ===== verification/Parsing.thy ===== *)
theory Parsing
  imports UTF8 "HOL-Library.Sublist"
begin

text \<open>
  \<open>parsers/\<close>: extracting the text of an uploaded document. The protocol \<open>DocumentParser\<close> is the record
  \<open>parser\<close> with the locale \<open>document_parser\<close>, interpreted for the four parsers; \<open>registry_parse\<close> is
  \<open>ParserRegistry.parse\<close> with the choice by file extension. The regular expressions of the Markdown
  parser are written out as scanners. What the PDF library and the ZIP and XML readers extract is an
  argument: the texts of the pages, the texts of the \<open>w:t\<close> nodes.
\<close>

section \<open>Parsed documents\<close>

definition PREVIEW_LIMIT :: nat where "PREVIEW_LIMIT = 200"

record parsed_document =
  pd_parser_name :: pystr
  pd_text :: pystr
  pd_preview :: pystr
  pd_character_count :: int

definition normalize_text :: "pystr \<Rightarrow> pystr" where
  "normalize_text s = strip (replace_crlf s)"

definition build_parsed_document :: "pystr \<Rightarrow> pystr \<Rightarrow> parsed_document res" where
  "build_parsed_document parser_name s =
     (let normalized_text = normalize_text s in
      if normalized_text = [] then Inl (EmptyDocumentError (py ''Document is empty after parsing.''))
      else Inr \<lparr> pd_parser_name = parser_name, pd_text = normalized_text,
        pd_preview = take PREVIEW_LIMIT normalized_text,
        pd_character_count = int (length normalized_text) \<rparr>)"

text \<open>The subclasses of \<open>DocumentProcessingError\<close> with their codes.\<close>

fun processing_error_code :: "exn \<Rightarrow> pystr option" where
  "processing_error_code (UnsupportedDocumentTypeError _) = Some (py ''DOCUMENT_UNSUPPORTED_TYPE'')"
| "processing_error_code (EmptyDocumentError _) = Some (py ''DOCUMENT_EMPTY'')"
| "processing_error_code (CorruptDocumentError _) = Some (py ''DOCUMENT_CORRUPT'')"
| "processing_error_code (DocumentTooLargeError _) = Some (py ''DOCUMENT_TOO_LARGE'')"
| "processing_error_code _ = None"

section \<open>The protocol\<close>

record parser =
  pr_name :: pystr
  pr_supported_extensions :: "pystr list"
  pr_parse :: "bytes \<Rightarrow> parsed_document res"

definition well_parsed :: "pystr \<Rightarrow> parsed_document \<Rightarrow> bool" where
  "well_parsed name d \<longleftrightarrow> pd_parser_name d = name \<and> pd_text d \<noteq> []
     \<and> \<not> is_space (hd (pd_text d)) \<and> \<not> is_space (last (pd_text d))
     \<and> pd_preview d = take 200 (pd_text d) \<and> pd_character_count d = int (length (pd_text d))"

locale document_parser =
  fixes p :: parser
  assumes parse_ok: "pr_parse p data = Inr d \<Longrightarrow> well_parsed (pr_name p) d"
begin

lemma not_empty: "pr_parse p data = Inr d \<Longrightarrow> pd_text d \<noteq> [] \<and> 0 < pd_character_count d"
  using parse_ok by (auto simp: well_parsed_def)

end

lemma build_parsed_document_ok: "build_parsed_document name s = Inr d \<Longrightarrow> well_parsed name d"
  using strip_ends [of "replace_crlf s"]
  by (auto simp: build_parsed_document_def Let_def normalize_text_def well_parsed_def PREVIEW_LIMIT_def
      split: if_splits)

section \<open>TextParser\<close>

definition decode_document :: "bytes \<Rightarrow> pystr res" where
  "decode_document data =
     (case utf8_decode data of
        Inl e \<Rightarrow> Inl (CorruptDocumentError (py ''Document is not valid UTF-8.''))
      | Inr s \<Rightarrow> Inr s)"

definition text_parse :: "bytes \<Rightarrow> parsed_document res" where
  "text_parse data = (case decode_document data of
     Inl e \<Rightarrow> Inl e | Inr s \<Rightarrow> build_parsed_document (py ''text'') s)"

definition text_parser :: parser where
  "text_parser = \<lparr> pr_name = py ''text'', pr_supported_extensions = [py ''.txt''], pr_parse = text_parse \<rparr>"

interpretation text_parser: document_parser text_parser
  by unfold_locales
    (auto simp: text_parser_def text_parse_def split: sum.splits dest: build_parsed_document_ok)

section \<open>MarkdownParser\<close>

text \<open>
  \<open>re.sub(pattern, "", s, flags=re.MULTILINE)\<close> for a pattern that begins with a caret: \<open>len_match\<close> is
  the length of the match at the beginning of a line, 0 when there is none. \<open>bol\<close> tells whether the
  position is the beginning of a line: the start of the text or after a line feed.
\<close>

function re_sub_bol :: "(pystr \<Rightarrow> nat) \<Rightarrow> bool \<Rightarrow> pystr \<Rightarrow> pystr" where
  "re_sub_bol len_match bol [] = []"
| "re_sub_bol len_match bol (c # s) =
     (let n = min (len_match (c # s)) (length (c # s)) in
      if bol \<and> 0 < n then re_sub_bol len_match ((c # s) ! (n - 1) = 10) (drop n (c # s))
      else c # re_sub_bol len_match (c = 10) s)"
  by pat_completeness auto
termination
  by (relation "measure (\<lambda>(m, bol, s). length s)") auto

definition spaces :: "pystr \<Rightarrow> nat" where
  "spaces s = length (takeWhile is_space s)"

text \<open>\<open>^\s{0,3}#{1,6}\s*\<close>\<close>

definition heading_match :: "pystr \<Rightarrow> nat" where
  "heading_match s =
     (let n = spaces s; hashes = min 6 (length (takeWhile (\<lambda>c. c = 35) (drop n s))) in
      if n \<le> 3 \<and> 0 < hashes then n + hashes + spaces (drop (n + hashes) s) else 0)"

text \<open>\<open>^\s*[-*+]\s+\<close>\<close>

definition bullet_match :: "pystr \<Rightarrow> nat" where
  "bullet_match s =
     (let n = spaces s in
      case drop n s of
        [] \<Rightarrow> 0
      | c # r \<Rightarrow> if c \<in> {45, 42, 43} \<and> 0 < spaces r then n + 1 + spaces r else 0)"

text \<open>\<open>^\s*\d+\.\s+\<close>\<close>

definition numbering_match :: "ucd \<Rightarrow> pystr \<Rightarrow> nat" where
  "numbering_match U s =
     (let n = spaces s; digits = length (takeWhile (\<lambda>c. ucd_digit U c \<noteq> None) (drop n s)) in
      case drop (n + digits) s of
        [] \<Rightarrow> 0
      | c # r \<Rightarrow> if 0 < digits \<and> c = 46 \<and> 0 < spaces r then n + digits + 1 + spaces r else 0)"

text \<open>
  \<open>\[(.*?)\]\((.*?)\)\<close> replaced by its first group: after an opening bracket the label is the shortest
  text without a line feed that is followed by \<open>](\<close>, the target the shortest one followed by \<open>)\<close>.
\<close>

fun link_label :: "pystr \<Rightarrow> (pystr \<times> pystr) option" where
  "link_label [] = None"
| "link_label (c # s) =
     (if c = 93 \<and> s \<noteq> [] \<and> hd s = 40 then Some ([], tl s)
      else if c = 10 then None
      else map_option (\<lambda>(label, r). (c # label, r)) (link_label s))"

fun after_target :: "pystr \<Rightarrow> pystr option" where
  "after_target [] = None"
| "after_target (c # s) = (if c = 41 then Some s else if c = 10 then None else after_target s)"

definition link_match :: "pystr \<Rightarrow> (pystr \<times> pystr) option" where
  "link_match s = (case link_label s of
     None \<Rightarrow> None
   | Some (label, r) \<Rightarrow> map_option (\<lambda>r'. (label, r')) (after_target r))"

lemma link_label_length: "link_label s = Some (l, r) \<Longrightarrow> length l + length r < length s"
  by (induction s arbitrary: l) (auto split: if_splits simp: neq_Nil_conv)

lemma after_target_length: "after_target s = Some r \<Longrightarrow> length r < length s"
  by (induction s) (auto split: if_splits)

lemma link_match_length: "link_match s = Some (l, r) \<Longrightarrow> length l + length r < length s"
  by (auto simp: link_match_def split: option.splits dest!: link_label_length after_target_length)

function sub_links :: "pystr \<Rightarrow> pystr" where
  "sub_links [] = []"
| "sub_links (c # s) =
     (if c = 91 then (case link_match s of
        Some (label, r) \<Rightarrow> label @ sub_links r
      | None \<Rightarrow> c # sub_links s)
      else c # sub_links s)"
  by pat_completeness auto
termination
  by (relation "measure length") (auto dest!: link_match_length)

definition markdown_clean :: "ucd \<Rightarrow> pystr \<Rightarrow> pystr" where
  "markdown_clean U s =
     (let cleaned = filter (\<lambda>c. c \<noteq> 96) s;
          cleaned = re_sub_bol heading_match True cleaned;
          cleaned = re_sub_bol bullet_match True cleaned;
          cleaned = re_sub_bol (numbering_match U) True cleaned
      in sub_links cleaned)"

definition markdown_parse :: "ucd \<Rightarrow> bytes \<Rightarrow> parsed_document res" where
  "markdown_parse U data = (case decode_document data of
     Inl e \<Rightarrow> Inl e | Inr s \<Rightarrow> build_parsed_document (py ''markdown'') (markdown_clean U s))"

definition markdown_parser :: "ucd \<Rightarrow> parser" where
  "markdown_parser U = \<lparr> pr_name = py ''markdown'',
     pr_supported_extensions = [py ''.md'', py ''.markdown''], pr_parse = markdown_parse U \<rparr>"

interpretation markdown_parser: document_parser "markdown_parser U" for U :: ucd
  by unfold_locales
    (auto simp: markdown_parser_def markdown_parse_def split: sum.splits dest: build_parsed_document_ok)

section \<open>PdfParser and DocxParser\<close>

text \<open>\<open>pages data\<close> are the page texts, \<open>None\<close> when opening or reading the document raises.\<close>

definition pdf_parse :: "(bytes \<Rightarrow> pystr list option) \<Rightarrow> bytes \<Rightarrow> parsed_document res" where
  "pdf_parse pages data = (case pages data of
     None \<Rightarrow> Inl (CorruptDocumentError (py ''PDF document is corrupt or unreadable.''))
   | Some ts \<Rightarrow> build_parsed_document (py ''pdf'') (join [10] ts))"

definition pdf_parser :: "(bytes \<Rightarrow> pystr list option) \<Rightarrow> parser" where
  "pdf_parser pages = \<lparr> pr_name = py ''pdf'', pr_supported_extensions = [py ''.pdf''],
     pr_parse = pdf_parse pages \<rparr>"

interpretation pdf_parser: document_parser "pdf_parser pages" for pages :: "bytes \<Rightarrow> pystr list option"
  by unfold_locales
    (auto simp: pdf_parser_def pdf_parse_def split: option.splits dest: build_parsed_document_ok)

text \<open>
  Reading \<open>word/document.xml\<close> out of the archive raises one of the handled errors, another error, or
  yields the \<open>text\<close> of the \<open>w:t\<close> nodes in document order.
\<close>

datatype docx_outcome = DocxUnreadable | DocxError exn | DocxNodes "pystr option list"

definition docx_parse :: "(bytes \<Rightarrow> docx_outcome) \<Rightarrow> bytes \<Rightarrow> parsed_document res" where
  "docx_parse nodes data = (case nodes data of
     DocxUnreadable \<Rightarrow> Inl (CorruptDocumentError (py ''DOCX document is corrupt or unreadable.''))
   | DocxError e \<Rightarrow> Inl e
   | DocxNodes ts \<Rightarrow> build_parsed_document (py ''docx'') (join (py '' '') (map the (filter truthy ts))))"

definition docx_parser :: "(bytes \<Rightarrow> docx_outcome) \<Rightarrow> parser" where
  "docx_parser nodes = \<lparr> pr_name = py ''docx'', pr_supported_extensions = [py ''.docx''],
     pr_parse = docx_parse nodes \<rparr>"

interpretation docx_parser: document_parser "docx_parser nodes" for nodes :: "bytes \<Rightarrow> docx_outcome"
  by unfold_locales
    (auto simp: docx_parser_def docx_parse_def split: docx_outcome.splits dest: build_parsed_document_ok)

section \<open>ParserRegistry\<close>

type_synonym registry = "pystr \<rightharpoonup> parser"

fun register_extensions :: "ucd \<Rightarrow> parser \<Rightarrow> pystr list \<Rightarrow> registry \<Rightarrow> registry" where
  "register_extensions U p [] parsers = parsers"
| "register_extensions U p (extension # extensions) parsers =
     register_extensions U p extensions (parsers(ucd_lower U extension \<mapsto> p))"

definition make_registry :: "ucd \<Rightarrow> parser list \<Rightarrow> registry" where
  "make_registry U selected_parsers =
     fold (\<lambda>p parsers. register_extensions U p (pr_supported_extensions p) parsers) selected_parsers Map.empty"

text \<open>
  \<open>Path(filename).suffix\<close>: the last component that is neither empty nor a single dot; its suffix
  starts at the last dot, unless only dots stand before it.
\<close>

definition path_name :: "pystr \<Rightarrow> pystr" where
  "path_name filename =
     (let parts = filter (\<lambda>p. p \<noteq> [] \<and> p \<noteq> [46]) (split_on 47 filename) in
      if parts = [] then [] else last parts)"

definition path_suffix :: "pystr \<Rightarrow> pystr" where
  "path_suffix filename =
     (let name = path_name filename; i = rfind 46 name in
      if 0 \<le> i \<and> (\<exists>c \<in> set (take (nat i) name). c \<noteq> 46) then drop (nat i) name else [])"

definition registry_parse :: "ucd \<Rightarrow> registry \<Rightarrow> pystr \<Rightarrow> bytes \<Rightarrow> parsed_document res" where
  "registry_parse U parsers filename data =
     (let extension = ucd_lower U (path_suffix filename) in
      case parsers extension of
        None \<Rightarrow> Inl (UnsupportedDocumentTypeError (py ''Unsupported document type: '' @ extension))
      | Some p \<Rightarrow> pr_parse p data)"

definition default_registry ::
  "ucd \<Rightarrow> (bytes \<Rightarrow> pystr list option) \<Rightarrow> (bytes \<Rightarrow> docx_outcome) \<Rightarrow> registry" where
  "default_registry U pages nodes =
     make_registry U [text_parser, markdown_parser U, pdf_parser pages, docx_parser nodes]"

text \<open>A registry built from well-behaved parsers only returns well-formed documents.\<close>

definition registry_ok :: "registry \<Rightarrow> bool" where
  "registry_ok parsers \<longleftrightarrow> (\<forall>p \<in> ran parsers. document_parser p)"

lemma register_extensions_ran: "ran (register_extensions U p es m) \<subseteq> insert p (ran m)"
proof (induction U p es m rule: register_extensions.induct)
  case (2 U p e es m)
  have "ran (m(ucd_lower U e \<mapsto> p)) \<subseteq> insert p (ran m)" by (auto simp: ran_def)
  then show ?case unfolding register_extensions.simps using "2.IH" by blast
qed auto

lemma make_registry_ok: "\<forall>p \<in> set ps. document_parser p \<Longrightarrow> registry_ok (make_registry U ps)"
proof -
  have "ran (fold (\<lambda>p. register_extensions U p (pr_supported_extensions p)) ps m) \<subseteq> set ps \<union> ran m" for m
  proof (induction ps arbitrary: m)
    case (Cons p ps)
    from Cons [of "register_extensions U p (pr_supported_extensions p) m"]
      register_extensions_ran [of U p "pr_supported_extensions p" m]
    show ?case by auto
  qed simp
  from this [of Map.empty] show "\<forall>p \<in> set ps. document_parser p \<Longrightarrow> ?thesis"
    by (auto simp: registry_ok_def make_registry_def)
qed

lemma default_registry_ok: "registry_ok (default_registry U pages nodes)"
  unfolding default_registry_def
  by (rule make_registry_ok)
    (simp add: text_parser.document_parser_axioms markdown_parser.document_parser_axioms
      pdf_parser.document_parser_axioms docx_parser.document_parser_axioms)

lemma registry_parse_ok:
  assumes "registry_ok parsers" "registry_parse U parsers filename data = Inr d"
  shows "well_parsed (pd_parser_name d) d"
proof -
  from assms(2) obtain p where p: "p \<in> ran parsers" "pr_parse p data = Inr d"
    by (auto simp: registry_parse_def Let_def ran_def split: option.splits)
  then have "well_parsed (pr_name p) d"
    using assms(1) by (auto simp: registry_ok_def document_parser_def)
  then show ?thesis by (simp add: well_parsed_def)
qed

section \<open>The Markdown scanners only delete\<close>

lemma subseq_drop: "subseq (drop n s) s"
  using suffix_drop [of n s] by (rule suffix_imp_subseq)

lemma re_sub_bol_subseq: "subseq (re_sub_bol m bol s) s"
proof (induction m bol s rule: re_sub_bol.induct)
  case (2 m bol c s)
  let ?n = "min (m (c # s)) (length (c # s))"
  show ?case
  proof (cases "bol \<and> 0 < ?n")
    case True
    have "subseq (re_sub_bol m ((c # s) ! (?n - 1) = 10) (drop ?n (c # s))) (drop ?n (c # s))"
      by (rule "2.IH"(1) [OF refl True])
    with True have "subseq (re_sub_bol m bol (c # s)) (drop ?n (c # s))"
      by (simp only: re_sub_bol.simps Let_def if_True simp_thms)
    then show ?thesis using subseq_drop subseq_order.order_trans by blast
  next
    case False
    have "subseq (re_sub_bol m (c = 10) s) s" by (rule "2.IH"(2) [OF refl False])
    with False show ?thesis by (auto simp: Let_def)
  qed
qed simp

lemma link_label_split: "link_label s = Some (l, r) \<Longrightarrow> s = l @ [93, 40] @ r"
  by (induction s arbitrary: l) (auto split: if_splits simp: neq_Nil_conv)

lemma after_target_split: "after_target s = Some r \<Longrightarrow> \<exists>q. s = q @ r"
  by (induction s) (auto split: if_splits intro: exI [of _ "[_]"] simp: Cons_eq_append_conv)

lemma link_match_split: "link_match s = Some (l, r) \<Longrightarrow> \<exists>q. s = l @ q @ r"
  by (auto simp: link_match_def split: option.splits dest!: link_label_split after_target_split)

lemma sub_links_subseq: "subseq (sub_links s) s"
proof (induction s rule: sub_links.induct)
  case (2 c s)
  show ?case
  proof (cases "c = 91 \<and> link_match s \<noteq> None")
    case True
    then obtain l r where m: "link_match s = Some (l, r)" by auto
    then obtain q where q: "s = l @ q @ r" using link_match_split by blast
    have IH: "subseq (sub_links r) r" using "2.IH"(2) [OF conjunct1 [OF True] m refl] .
    have "subseq (l @ sub_links r) (l @ q @ r)" using list_emb_append_mono [OF subseq_order.order_refl list_emb_append2 [OF IH]] .
    then have "subseq (l @ sub_links r) (91 # s)" unfolding q by (rule list_emb_Cons)
    with True m show ?thesis by simp
  next
    case False
    then show ?thesis using "2.IH" by (auto split: option.splits)
  qed
qed simp

lemma markdown_clean_subseq: "subseq (markdown_clean U s) s"
proof -
  have "subseq (filter (\<lambda>c. c \<noteq> 96) s) s" by (rule subseq_filter_left)
  then show ?thesis unfolding markdown_clean_def Let_def
    by (meson re_sub_bol_subseq sub_links_subseq subseq_order.order_trans)
qed

end
