(* ===== verification/Chunker.thy ===== *)
theory Chunker
  imports PyStr
begin

text \<open>
  \<open>indexing/chunker.py\<close>: splitting the text of a document into overlapping chunks. The loop of
  \<open>CharacterChunker.chunk\<close> is \<open>chunk_loop\<close>, on positions of the white-space normalised text; it
  terminates for every configuration because the start position grows in every round.

  Lemmas: the windows of the loop (\<open>spans\<close>) tile the text without a gap, every window is at most
  \<open>max_characters\<close> wide, and the chunks are the stripped, non-empty windows.
\<close>

record chunker =
  ck_max_characters :: int
  ck_overlap_characters :: int

definition make_chunker :: "int \<Rightarrow> int \<Rightarrow> chunker res" where
  "make_chunker max_characters overlap_characters =
     (if max_characters \<le> 0 then Inl (ValueError (py ''max_characters must be positive.''))
      else if overlap_characters < 0
      then Inl (ValueError (py ''overlap_characters must be zero or positive.''))
      else if max_characters \<le> overlap_characters
      then Inl (ValueError (py ''overlap_characters must be smaller than max_characters.''))
      else Inr \<lparr> ck_max_characters = max_characters, ck_overlap_characters = overlap_characters \<rparr>)"

definition find_chunk_end :: "chunker \<Rightarrow> pystr \<Rightarrow> nat \<Rightarrow> nat" where
  "find_chunk_end c t start =
     (let hard_end = nat (min (int start + ck_max_characters c) (int (length t))) in
      if hard_end = length t then hard_end
      else (let split_at = rfind 32 (slice start hard_end t) in
        if split_at \<le> 0 then hard_end else start + nat split_at))"

definition next_start :: "chunker \<Rightarrow> nat \<Rightarrow> nat \<Rightarrow> nat" where
  "next_start c start chunk_end = nat (max (int chunk_end - ck_overlap_characters c) (int start + 1))"

function chunk_loop :: "chunker \<Rightarrow> pystr \<Rightarrow> nat \<Rightarrow> pystr list" where
  "chunk_loop c t start =
     (if start < length t then
        (let chunk_end = find_chunk_end c t start;
             piece = strip (slice start chunk_end t);
             rest = (if length t \<le> chunk_end then []
                     else chunk_loop c t (next_start c start chunk_end))
         in if piece \<noteq> [] then piece # rest else rest)
      else [])"
  by pat_completeness auto
termination
  by (relation "measure (\<lambda>(c, t, start). length t - start)") (auto simp: next_start_def)

declare chunk_loop.simps [simp del]

definition normalize_ws :: "pystr \<Rightarrow> pystr" where
  "normalize_ws t = join (py '' '') (split_ws t)"

definition chunk :: "chunker \<Rightarrow> pystr \<Rightarrow> pystr list" where
  "chunk c t = (let normalized = normalize_ws t in
     if normalized = [] then [] else chunk_loop c normalized 0)"

definition valid_chunker :: "chunker \<Rightarrow> bool" where
  "valid_chunker c \<longleftrightarrow> 0 < ck_max_characters c \<and> 0 \<le> ck_overlap_characters c
     \<and> ck_overlap_characters c < ck_max_characters c"

lemma make_chunker_valid: "make_chunker m v = Inr c \<longleftrightarrow> c = \<lparr> ck_max_characters = m, ck_overlap_characters = v \<rparr> \<and> valid_chunker c"
  by (auto simp: make_chunker_def valid_chunker_def)

section \<open>White-space normalisation\<close>

lemma py_space: "py '' '' = [32]"
  by (simp add: py_def)

lemma normalize_ws_content: "filter (\<lambda>c. \<not> is_space c) (normalize_ws t) = filter (\<lambda>c. \<not> is_space c) t"
  by (simp add: normalize_ws_def py_space filter_join concat_runs split_ws_def)

lemma split_ws_words: "w \<in> set (split_ws t) \<Longrightarrow> w \<noteq> [] \<and> (\<forall>c \<in> set w. \<not> is_space c)"
  unfolding split_ws_def by (rule runs_words)

lemma normalize_ws_chars: "c \<in> set (normalize_ws t) \<Longrightarrow> c = 32 \<or> \<not> is_space c"
  by (auto simp: normalize_ws_def py_space dest!: set_join split_ws_words)

lemma normalize_ws_empty_iff: "normalize_ws t = [] \<longleftrightarrow> (\<forall>c \<in> set t. is_space c)"
  by (simp add: normalize_ws_def join_empty_iff split_ws_def runs_words runs_empty_iff)

lemma normalize_ws_ends:
  assumes "normalize_ws t \<noteq> []"
  shows "\<not> is_space (hd (normalize_ws t))" and "\<not> is_space (last (normalize_ws t))"
proof -
  let ?ws = "split_ws t"
  have ne: "?ws \<noteq> []" using assms by (auto simp: normalize_ws_def)
  have w: "\<forall>w \<in> set ?ws. w \<noteq> []" using split_ws_words by blast
  have "hd (normalize_ws t) = hd (hd ?ws)"
    using ne w by (simp add: normalize_ws_def join_hd)
  then show "\<not> is_space (hd (normalize_ws t))"
    using split_ws_words [of "hd ?ws" t] ne by simp
  have "last (normalize_ws t) = last (last ?ws)"
    using ne w by (simp add: normalize_ws_def join_last)
  then show "\<not> is_space (last (normalize_ws t))"
    using split_ws_words [of "last ?ws" t] ne by simp
qed

section \<open>The windows of the loop\<close>

function spans :: "chunker \<Rightarrow> pystr \<Rightarrow> nat \<Rightarrow> (nat \<times> nat) list" where
  "spans c t start =
     (if start < length t then
        (let chunk_end = find_chunk_end c t start in
         (start, chunk_end) # (if length t \<le> chunk_end then []
            else spans c t (next_start c start chunk_end)))
      else [])"
  by pat_completeness auto
termination
  by (relation "measure (\<lambda>(c, t, start). length t - start)") (auto simp: next_start_def)

declare spans.simps [simp del]

lemma chunk_loop_spans:
  "chunk_loop c t start = filter (\<lambda>p. p \<noteq> []) (map (\<lambda>(i, j). strip (slice i j t)) (spans c t start))"
proof (induction c t start rule: spans.induct)
  case (1 c t start)
  then show ?case
    by (cases "start < length t")
      (auto simp: chunk_loop.simps [of c t start] spans.simps [of c t start] Let_def)
qed

lemma find_chunk_end_bounds:
  assumes "valid_chunker c" and "start < length t"
  shows "start < find_chunk_end c t start"
    and "find_chunk_end c t start \<le> length t"
    and "int (find_chunk_end c t start) \<le> int start + ck_max_characters c"
proof -
  let ?h = "nat (min (int start + ck_max_characters c) (int (length t)))"
  have h: "start < ?h" "?h \<le> length t" "int ?h \<le> int start + ck_max_characters c"
    using assms by (auto simp: valid_chunker_def)
  have "rfind 32 (slice start ?h t) < int (?h - start)"
    using rfind_bounds [of 32 "slice start ?h t"] h by simp
  then have r: "0 < rfind 32 (slice start ?h t) \<Longrightarrow>
      start < start + nat (rfind 32 (slice start ?h t))
      \<and> start + nat (rfind 32 (slice start ?h t)) \<le> ?h"
    by linarith
  show "start < find_chunk_end c t start" "find_chunk_end c t start \<le> length t"
    "int (find_chunk_end c t start) \<le> int start + ck_max_characters c"
    using h r by (auto simp: find_chunk_end_def Let_def)
qed

lemma next_start_bounds:
  assumes "valid_chunker c" and "start < chunk_end"
  shows "start < next_start c start chunk_end" and "next_start c start chunk_end \<le> chunk_end"
  using assms by (auto simp: next_start_def valid_chunker_def)

lemma spans_window:
  "valid_chunker c \<Longrightarrow> (i, j) \<in> set (spans c t start) \<Longrightarrow>
     start \<le> i \<and> i < j \<and> j \<le> length t \<and> int j \<le> int i + ck_max_characters c"
proof (induction c t start rule: spans.induct)
  case (1 c t start)
  let ?e = "find_chunk_end c t start"
  show ?case
  proof (cases "start < length t")
    case True
    note e = find_chunk_end_bounds [OF "1.prems"(1) True]
    note n = next_start_bounds [OF "1.prems"(1) e(1)]
    from "1.prems"(2) True consider "(i, j) = (start, ?e)"
      | "\<not> length t \<le> ?e" "(i, j) \<in> set (spans c t (next_start c start ?e))"
      by (auto simp: spans.simps [of c t start] Let_def split: if_splits)
    then show ?thesis
    proof cases
      case 1
      with e show ?thesis by simp
    next
      case 2
      from "1.IH" [OF True refl 2(1) "1.prems"(1) 2(2)] n show ?thesis by simp
    qed
  qed (use "1.prems" in \<open>simp add: spans.simps [of c t start]\<close>)
qed

lemma spans_cover:
  "valid_chunker c \<Longrightarrow> start \<le> k \<Longrightarrow> k < length t \<Longrightarrow>
     \<exists>(i, j) \<in> set (spans c t start). i \<le> k \<and> k < j"
proof (induction c t start rule: spans.induct)
  case (1 c t start)
  let ?e = "find_chunk_end c t start"
  have s: "start < length t" using "1.prems" by simp
  note e = find_chunk_end_bounds [OF "1.prems"(1) s]
  note n = next_start_bounds [OF "1.prems"(1) e(1)]
  show ?case
  proof (cases "k < ?e")
    case True
    with "1.prems" s show ?thesis by (auto simp: spans.simps [of c t start] Let_def)
  next
    case False
    then have "\<not> length t \<le> ?e" using "1.prems" by simp
    with "1.IH" [OF s refl] "1.prems" False n
    have "\<exists>(i, j) \<in> set (spans c t (next_start c start ?e)). i \<le> k \<and> k < j" by simp
    with s \<open>\<not> length t \<le> ?e\<close> show ?thesis by (auto simp: spans.simps [of c t start] Let_def)
  qed
qed

section \<open>Properties of the chunks\<close>

lemma chunk_windows:
  "chunk c t = filter (\<lambda>p. p \<noteq> [])
     (map (\<lambda>(i, j). strip (slice i j (normalize_ws t))) (spans c (normalize_ws t) 0))"
  by (auto simp: chunk_def Let_def chunk_loop_spans spans.simps [of c "[]" 0])

lemma chunk_memberE:
  assumes "p \<in> set (chunk c t)"
  obtains i j where "(i, j) \<in> set (spans c (normalize_ws t) 0)"
    "p = strip (slice i j (normalize_ws t))" "p \<noteq> []"
  using assms by (auto simp: chunk_windows)

lemma chunk_size: "valid_chunker c \<Longrightarrow> p \<in> set (chunk c t) \<Longrightarrow> int (length p) \<le> ck_max_characters c"
proof (erule chunk_memberE)
  fix i j
  assume v: "valid_chunker c" and ij: "(i, j) \<in> set (spans c (normalize_ws t) 0)"
    and p: "p = strip (slice i j (normalize_ws t))"
  have "int (length p) \<le> int (j - i)"
    unfolding p using length_strip [of "slice i j (normalize_ws t)"] by simp
  with spans_window [OF v ij] show ?thesis by linarith
qed

lemma slice_append: "i \<le> j \<Longrightarrow> j \<le> length xs \<Longrightarrow> xs = take i xs @ slice i j xs @ drop j xs"
proof -
  assume "i \<le> j" "j \<le> length xs"
  then have "slice i j xs @ drop j xs = drop i xs"
    using append_take_drop_id [of "j - i" "drop i xs"] by (simp add: slice_def)
  then show ?thesis by (metis append_take_drop_id)
qed

text \<open>Every chunk occurs in the text, and no non-space position of the text is lost.\<close>

lemma stripped_window_occurs:
  assumes "i \<le> j" "j \<le> length t"
  shows "\<exists>a b. t = a @ strip (slice i j t) @ b"
proof -
  obtain l r where "slice i j t = l @ strip (slice i j t) @ r" by (rule strip_decomp)
  with slice_append [OF assms] have "t = (take i t @ l) @ strip (slice i j t) @ (r @ drop j t)"
    by (metis append.assoc)
  then show ?thesis by blast
qed

lemma stripped_window_position:
  assumes "i \<le> k" "k < j" "j \<le> length t" "\<not> is_space (t ! k)"
  shows "\<exists>a b. t = a @ strip (slice i j t) @ b \<and> length a \<le> k \<and> k < length a + length (strip (slice i j t))"
proof -
  let ?w = "slice i j t"
  obtain l r where w: "?w = l @ strip ?w @ r"
    and l: "\<forall>c \<in> set l. is_space c" and r: "\<forall>c \<in> set r. is_space c" by (rule strip_decomp)
  have len: "length l + length (strip ?w) + length r = j - i"
    using arg_cong [OF w, of length] assms(1-3) by simp
  have k: "?w ! (k - i) = t ! k" using nth_slice [of i "k - i" j t] assms(1-3) by simp
  have "\<not> k - i < length l"
  proof
    assume *: "k - i < length l"
    then have "?w ! (k - i) = l ! (k - i)" by (subst w) (simp add: nth_append)
    with l * k assms(4) show False by (metis nth_mem)
  qed
  moreover have "k - i < length l + length (strip ?w)"
  proof (rule ccontr)
    assume *: "\<not> k - i < length l + length (strip ?w)"
    let ?m = "k - i - length (l @ strip ?w)"
    have m: "?m < length r" using * len assms(1-3) by simp
    have "?w ! (k - i) = ((l @ strip ?w) @ r) ! (k - i)" by (subst w) simp
    also have "\<dots> = r ! ?m" using * by (subst nth_append) simp
    finally have "?w ! (k - i) = r ! ?m" .
    with r m k assms(4) show False by (metis nth_mem)
  qed
  moreover have "t = (take i t @ l) @ strip ?w @ (r @ drop j t)"
    using slice_append [of i j t] w assms(1-3) by (metis append.assoc le_less_trans less_imp_le)
  moreover have "length (take i t @ l) = i + length l" using assms(1-3) by simp
  ultimately show ?thesis using assms(1) by (intro exI [of _ "take i t @ l"] exI) auto
qed

end
