(* ===== verification/Pipeline.thy ===== *)
theory Pipeline
  imports Storage Parsing Chunker Embedding Vector_Store
begin

text \<open>
  \<open>indexing/pipeline.py\<close>: indexing one document. \<open>pipeline_run\<close> is \<open>IndexingPipeline.run\<close>: download,
  parse, chunk, embed, upsert; the collaborators are the fields of \<open>pipeline\<close>. It reads the object
  store and writes the vector store.
\<close>

record indexing_result =
  ir_job_id :: pystr
  ir_document_id :: pystr
  ir_parser :: pystr
  ir_chunk_count :: int
  ir_chunks :: "pystr list"
  ir_embeddings :: "pyfloat list list"
  ir_embedding_count :: int
  ir_embedding_dimensions :: int

record ('m, 'q) pipeline =
  pp_storage :: "'m storage"
  pp_parse :: "pystr \<Rightarrow> bytes \<Rightarrow> parsed_document res"
  pp_chunker :: chunker
  pp_embed :: "pystr list \<Rightarrow> pyfloat list list res"
  pp_upsert :: "index_job \<Rightarrow> pystr \<Rightarrow> pystr list \<Rightarrow> pyfloat list list \<Rightarrow> 'q \<Rightarrow> 'q res"

definition pipeline_run ::
  "('m, 'q) pipeline \<Rightarrow> index_job \<Rightarrow> 'm \<Rightarrow> 'q \<Rightarrow> (indexing_result \<times> 'q) res" where
  "pipeline_run p job m q =
     (case ss_download (pp_storage p) (job_storage_key job) m of
        Inl e \<Rightarrow> Inl e
      | Inr data \<Rightarrow>
     (case pp_parse p (job_filename job) data of
        Inl e \<Rightarrow> Inl e
      | Inr parsed \<Rightarrow>
          (let chunks = chunk (pp_chunker p) (pd_text parsed) in
           case pp_embed p chunks of
             Inl e \<Rightarrow> Inl e
           | Inr embeddings \<Rightarrow>
               (let dimensions = (case embeddings of [] \<Rightarrow> 0 | v # _ \<Rightarrow> int (length v)) in
                case pp_upsert p job (pd_parser_name parsed) chunks embeddings q of
                  Inl e \<Rightarrow> Inl e
                | Inr q' \<Rightarrow> Inr (\<lparr> ir_job_id = job_id job, ir_document_id = job_document_id job,
                    ir_parser = pd_parser_name parsed, ir_chunk_count = int (length chunks),
                    ir_chunks = chunks, ir_embeddings = embeddings,
                    ir_embedding_count = int (length embeddings),
                    ir_embedding_dimensions = dimensions \<rparr>, q')))))"

text \<open>The pipeline the application builds: \<open>get_indexing_pipeline\<close> with its parser registry and store.\<close>

definition make_pipeline ::
  "'m storage \<Rightarrow> ucd \<Rightarrow> registry \<Rightarrow> chunker \<Rightarrow> (pystr list \<Rightarrow> pyfloat list list res)
     \<Rightarrow> 'q qdrant \<Rightarrow> (pystr \<Rightarrow> pystr) \<Rightarrow> vector_store \<Rightarrow> ('m, 'q) pipeline" where
  "make_pipeline st U parsers c embed_texts Q uuid5 v =
     \<lparr> pp_storage = st, pp_parse = registry_parse U parsers, pp_chunker = c, pp_embed = embed_texts,
       pp_upsert = upsert_chunks Q uuid5 v \<rparr>"

lemma pipeline_run_Inr:
  assumes "pipeline_run p job m q = Inr (res, q')"
  obtains data parsed embeddings where
    "ss_download (pp_storage p) (job_storage_key job) m = Inr data"
    "pp_parse p (job_filename job) data = Inr parsed"
    "pp_embed p (chunk (pp_chunker p) (pd_text parsed)) = Inr embeddings"
    "pp_upsert p job (pd_parser_name parsed) (chunk (pp_chunker p) (pd_text parsed)) embeddings q = Inr q'"
    "ir_chunks res = chunk (pp_chunker p) (pd_text parsed)" "ir_parser res = pd_parser_name parsed"
    "ir_embeddings res = embeddings" "ir_job_id res = job_id job" "ir_document_id res = job_document_id job"
    "ir_chunk_count res = int (length (ir_chunks res))"
    "ir_embedding_count res = int (length embeddings)"
  using assms unfolding pipeline_run_def
  by (auto simp: Let_def split: sum.splits)

text \<open>Chunks of a parsed document: there is at least one.\<close>

lemma chunk_nonempty:
  assumes "valid_chunker c" "t \<noteq> []" "\<not> is_space (hd t)"
  shows "chunk c t \<noteq> []"
proof -
  let ?n = "normalize_ws t"
  have "\<exists>x \<in> set t. \<not> is_space x" using assms(2,3) hd_in_set by blast
  then have ne: "?n \<noteq> []" by (simp add: normalize_ws_empty_iff)
  note hd = normalize_ws_ends(1) [OF ne]
  from spans_cover [OF assms(1), of 0 0 ?n] ne obtain i j where
    ij: "(i, j) \<in> set (spans c ?n 0)" "i \<le> 0" "0 < j" by auto
  from spans_window [OF assms(1) ij(1)] ij have "slice i j ?n \<noteq> []" "hd (slice i j ?n) = hd ?n"
    using ne by (auto simp: slice_def hd_conv_nth)
  then have "strip (slice i j ?n) \<noteq> []" using hd by (metis hd_in_set strip_empty_iff)
  with ij(1) show ?thesis by (auto simp: chunk_windows filter_empty_conv intro!: bexI [of _ "(i, j)"])
qed

section \<open>What indexing stores\<close>

definition document_point_ids :: "(pystr \<Rightarrow> pystr) \<Rightarrow> pystr \<Rightarrow> nat \<Rightarrow> pystr list" where
  "document_point_ids uuid5 document_id n =
     map (\<lambda>i. uuid5 (document_id @ py '':'' @ str_int (int i))) [0..<n]"

lemma pipeline_points:
  assumes "qdrant_writes_ok Q"
    and "pipeline_run (make_pipeline st U parsers c emb Q uuid5 v) job m q = Inr (res, q')"
    and "distinct (document_point_ids uuid5 (job_document_id job) (length (ir_chunks res)))"
    and "ir_chunks res \<noteq> []"
  shows "set (qd_points Q (vs_collection_name v) q') =
      {p \<in> set (qd_points Q (vs_collection_name v) q).
         pt_id p \<notin> set (document_point_ids uuid5 (job_document_id job) (length (ir_chunks res)))}
      \<union> (\<lambda>i. chunk_point uuid5 job (ir_parser res) i (ir_chunks res ! i) (ir_embeddings res ! i))
          ` {..<length (ir_chunks res)}"
proof -
  let ?ids = "document_point_ids uuid5 (job_document_id job) (length (ir_chunks res))"
  let ?ps = "chunk_points uuid5 job (ir_parser res) (ir_chunks res) (ir_embeddings res)"
  from assms(2) have up: "upsert_chunks Q uuid5 v job (ir_parser res) (ir_chunks res) (ir_embeddings res) q = Inr q'"
    by (elim pipeline_run_Inr) (simp add: make_pipeline_def)
  note len = upsert_chunks_Inr(1) [OF up assms(4)]
  have ids: "map pt_id ?ps = ?ids"
    using chunk_points_ids [OF len [symmetric]] by (simp add: document_point_ids_def)
  then have id_set: "pt_id ` set ?ps = set ?ids" by (metis list.set_map)
  have "set (qd_points Q (vs_collection_name v) q') =
      {p \<in> set (qd_points Q (vs_collection_name v) q). pt_id p \<notin> pt_id ` set ?ps} \<union> set ?ps"
    using assms(1,3) upsert_chunks_Inr(2) [OF up assms(4)] ids unfolding qdrant_writes_ok_def by simp
  then show ?thesis unfolding id_set
    by (simp add: chunk_points_eq [OF len [symmetric]] atLeast0LessThan)
qed

lemma pipeline_indexes:
  assumes "qdrant_writes_ok Q" "valid_chunker c" "registry_ok parsers"
    and "pipeline_run (make_pipeline st U parsers c emb Q uuid5 v) job m q = Inr (result, q')"
    and "distinct (document_point_ids uuid5 (job_document_id job) (length (ir_chunks result)))"
  shows "ir_chunks result \<noteq> []" "ir_chunk_count result = int (length (ir_chunks result))"
    and "set (qd_points Q (vs_collection_name v) q') =
      {p \<in> set (qd_points Q (vs_collection_name v) q).
         pt_id p \<notin> set (document_point_ids uuid5 (job_document_id job) (length (ir_chunks result)))}
      \<union> (\<lambda>i. chunk_point uuid5 job (ir_parser result) i (ir_chunks result ! i) (ir_embeddings result ! i))
          ` {..<length (ir_chunks result)}"
proof -
  from assms(4) obtain data parsed where
    parse: "registry_parse U parsers (job_filename job) data = Inr parsed"
    and chunks: "ir_chunks result = chunk c (pd_text parsed)"
    and count: "ir_chunk_count result = int (length (ir_chunks result))"
    by (elim pipeline_run_Inr) (simp add: make_pipeline_def)
  have "pd_text parsed \<noteq> []" "\<not> is_space (hd (pd_text parsed))"
    using registry_parse_ok [OF assms(3) parse] by (auto simp: well_parsed_def)
  then have ne: "ir_chunks result \<noteq> []" unfolding chunks by (rule chunk_nonempty [OF assms(2)])
  with count show "ir_chunks result \<noteq> []" "ir_chunk_count result = int (length (ir_chunks result))" by simp_all
  from pipeline_points [OF assms(1,4,5) ne] show "set (qd_points Q (vs_collection_name v) q') =
      {p \<in> set (qd_points Q (vs_collection_name v) q).
         pt_id p \<notin> set (document_point_ids uuid5 (job_document_id job) (length (ir_chunks result)))}
      \<union> (\<lambda>i. chunk_point uuid5 job (ir_parser result) i (ir_chunks result ! i) (ir_embeddings result ! i))
          ` {..<length (ir_chunks result)}" .
qed

section \<open>Properties\<close>


definition sample_index_job :: index_job where
  "sample_index_job = \<lparr> job_id = py ''j1'', job_workspace_id = py ''w'', job_workspace_name = py ''W'',
     job_document_id = py ''d'', job_filename = py ''a.txt'', job_content_type = py ''text/plain'',
     job_storage_key = py ''w/d/a.txt'', job_uploaded_by_employee_id = None,
     job_security_level = py ''internal'', job_attempt = 1, job_max_attempts = 3 \<rparr>"

definition sample_chunker :: chunker where
  "sample_chunker = \<lparr> ck_max_characters = 5, ck_overlap_characters = 0 \<rparr>"

definition sample_pipeline :: "(pystr \<rightharpoonup> bytes, point list) pipeline" where
  "sample_pipeline = make_pipeline (minio_storage map_minio (py ''b'')) ascii_ucd
     (default_registry ascii_ucd (\<lambda>_. None) (\<lambda>_. DocxUnreadable)) sample_chunker
     (\<lambda>ts. Inr (map (\<lambda>_. [1]) ts)) list_qdrant (\<lambda>s. s)
     \<lparr> vs_collection_name = py ''c'', vs_vector_size = 1 \<rparr>"

definition sample_objects :: "pystr \<rightharpoonup> bytes" where
  "sample_objects = (\<lambda>_. None)(py ''w/d/a.txt'' \<mapsto> py ''ab cd ef'')"

lemma sample_pipeline_chunks:
  "map_sum id (\<lambda>(r, q). (ir_chunks r, q \<noteq> [])) (pipeline_run sample_pipeline sample_index_job sample_objects [])
     = Inr ([py ''ab'', py ''cd'', py ''ef''], True)"
  by code_simp

lemma sample_run: "\<exists>result q'. pipeline_run sample_pipeline sample_index_job sample_objects [] = Inr (result, q')
    \<and> ir_chunks result = [py ''ab'', py ''cd'', py ''ef'']"
  using sample_pipeline_chunks
  by (cases "pipeline_run sample_pipeline sample_index_job sample_objects []") auto

lemma sample_ids: "distinct (document_point_ids (\<lambda>s. s) (py ''d'') 3)"
  by code_simp


end
