(* ===== verification/World.thy ===== *)
theory World
  imports Pipeline Doc_Store
begin

text \<open>
  The state the document operations share: the object store, the vector database, the document
  metadata, the Redis server and the operation events. A queue works on this state, since the
  in-process queue indexes the document while it enqueues; the locale \<open>job_queue_frame\<close> adds to the
  protocol of a queue what the document service relies on: enqueueing leaves the metadata and the
  stored objects alone.
\<close>

record ('m, 'q, 'd, 'r, 'e) world =
  w_storage :: 'm
  w_vectors :: 'q
  w_documents :: 'd
  w_redis :: 'r
  w_events :: 'e

locale job_queue_frame = job_queue enqueue
  for enqueue :: "index_job \<Rightarrow> ('m, 'q, 'd, 'r, 'e) world \<Rightarrow> dispatch_result \<times> ('m, 'q, 'd, 'r, 'e) world" +
  assumes enqueue_documents: "w_documents (snd (enqueue j w)) = w_documents w"
    and enqueue_storage: "w_storage (snd (enqueue j w)) = w_storage w"

text \<open>\<open>if self._operation_event_store is None: return\<close>, otherwise record.\<close>

definition record_optional ::
  "'e event_store option \<Rightarrow> operation_event \<Rightarrow> ('m, 'q, 'd, 'r, 'e) world \<Rightarrow> ('m, 'q, 'd, 'r, 'e) world" where
  "record_optional est ev w =
     (case est of None \<Rightarrow> w | Some st \<Rightarrow> w\<lparr> w_events := es_record st ev (w_events w) \<rparr>)"

lemma record_optional_simps [simp]:
  "w_storage (record_optional est ev w) = w_storage w"
  "w_vectors (record_optional est ev w) = w_vectors w"
  "w_documents (record_optional est ev w) = w_documents w"
  "w_redis (record_optional est ev w) = w_redis w"
  by (simp_all add: record_optional_def split: option.splits)

end
