(* ===== verification/Json_Text.thy ===== *)
theory Json_Text
  imports Http UTF8
begin

text \<open>
  The part of the \<open>json\<close> module the backend uses. \<open>dumps_object\<close> prints the dictionaries it prints: string
  keys with strings, integers or \<open>None\<close> as values, with the separators and the \<open>ensure_ascii\<close> flag of
  the call. \<open>json_loads\<close> reads a JSON text; the literals \<open>NaN\<close> and \<open>Infinity\<close>, which Python also accepts,
  have no value in \<open>json\<close> and are rejected. Reading what was printed gives the fields back
  (\<open>loads_dumps_object\<close>).
\<close>

section \<open>Printing\<close>

datatype field_value = FNull | FInt int | FStr pystr

fun field_json :: "field_value \<Rightarrow> json" where
  "field_json FNull = JNull"
| "field_json (FInt i) = JInt i"
| "field_json (FStr s) = JStr s"

definition hex_digit :: "nat \<Rightarrow> nat" where
  "hex_digit d = (if d < 10 then 48 + d else 87 + d)"

definition hex4 :: "nat \<Rightarrow> pystr" where
  "hex4 u = [hex_digit (u div 4096 mod 16), hex_digit (u div 256 mod 16),
     hex_digit (u div 16 mod 16), hex_digit (u mod 16)]"

definition escape_u :: "nat \<Rightarrow> pystr" where
  "escape_u u = [92, 117] @ hex4 u"

definition json_escape :: "bool \<Rightarrow> nat \<Rightarrow> pystr" where
  "json_escape ensure_ascii c =
     (if c = 34 then [92, 34] else if c = 92 then [92, 92]
      else if c = 8 then [92, 98] else if c = 12 then [92, 102] else if c = 10 then [92, 110]
      else if c = 13 then [92, 114] else if c = 9 then [92, 116]
      else if c < 32 then escape_u c
      else if \<not> ensure_ascii \<or> c < 127 then [c]
      else if c < 65536 then escape_u c
      else escape_u (55296 + (c - 65536) div 1024 mod 1024) @ escape_u (56320 + (c - 65536) mod 1024))"

definition json_string :: "bool \<Rightarrow> pystr \<Rightarrow> pystr" where
  "json_string ensure_ascii s = [34] @ concat (map (json_escape ensure_ascii) s) @ [34]"

fun dumps_field :: "bool \<Rightarrow> field_value \<Rightarrow> pystr" where
  "dumps_field ensure_ascii FNull = py ''null''"
| "dumps_field ensure_ascii (FInt i) = str_int i"
| "dumps_field ensure_ascii (FStr s) = json_string ensure_ascii s"

definition dumps_object :: "bool \<Rightarrow> pystr \<Rightarrow> pystr \<Rightarrow> (pystr \<times> field_value) list \<Rightarrow> pystr" where
  "dumps_object ensure_ascii item_separator key_separator kvs =
     [123] @ join item_separator (map (\<lambda>(k, v). json_string ensure_ascii k @ key_separator
       @ dumps_field ensure_ascii v) kvs) @ [125]"

section \<open>Reading\<close>

definition is_json_ws :: "nat \<Rightarrow> bool" where
  "is_json_ws c \<longleftrightarrow> c = 32 \<or> c = 9 \<or> c = 10 \<or> c = 13"

definition skip_ws :: "pystr \<Rightarrow> pystr" where
  "skip_ws s = dropWhile is_json_ws s"

definition hex_value :: "nat \<Rightarrow> nat option" where
  "hex_value c = (if 48 \<le> c \<and> c \<le> 57 then Some (c - 48)
     else if 97 \<le> c \<and> c \<le> 102 then Some (c - 87)
     else if 65 \<le> c \<and> c \<le> 70 then Some (c - 55) else None)"

definition scan_hex4 :: "pystr \<Rightarrow> (nat \<times> pystr) option" where
  "scan_hex4 s = (case s of a # b # c # d # r \<Rightarrow>
       (case (hex_value a, hex_value b, hex_value c, hex_value d) of
          (Some w, Some x, Some y, Some z) \<Rightarrow> Some (4096 * w + 256 * x + 16 * y + z, r)
        | _ \<Rightarrow> None)
     | _ \<Rightarrow> None)"

definition is_low_surrogate :: "nat \<Rightarrow> bool" where
  "is_low_surrogate u \<longleftrightarrow> 56320 \<le> u \<and> u \<le> 57343"

definition is_high_surrogate :: "nat \<Rightarrow> bool" where
  "is_high_surrogate u \<longleftrightarrow> 55296 \<le> u \<and> u \<le> 56319"

definition scan_unicode :: "pystr \<Rightarrow> (nat \<times> pystr) option" where
  "scan_unicode s = (case scan_hex4 s of
     None \<Rightarrow> None
   | Some (u, r) \<Rightarrow>
       if is_high_surrogate u \<and> take 2 r = [92, 117]
       then (case scan_hex4 (drop 2 r) of
          None \<Rightarrow> None
        | Some (u2, r2) \<Rightarrow> if is_low_surrogate u2
            then Some (65536 + (u - 55296) * 1024 + (u2 - 56320), r2) else Some (u, r))
       else Some (u, r))"

definition scan_escape :: "pystr \<Rightarrow> (nat \<times> pystr) option" where
  "scan_escape s = (case s of
     [] \<Rightarrow> None
   | e # r \<Rightarrow> if e = 117 then scan_unicode r
       else if e = 34 \<or> e = 92 \<or> e = 47 then Some (e, r)
       else if e = 98 then Some (8, r) else if e = 102 then Some (12, r)
       else if e = 110 then Some (10, r) else if e = 114 then Some (13, r)
       else if e = 116 then Some (9, r) else None)"

lemma scan_hex4_length: "scan_hex4 s = Some (u, r) \<Longrightarrow> length r < length s"
  by (auto simp: scan_hex4_def split: list.splits option.splits)

lemma scan_escape_length: "scan_escape s = Some (u, r) \<Longrightarrow> length r < length s"
  by (auto simp: scan_escape_def scan_unicode_def split: list.splits option.splits if_splits
      dest!: scan_hex4_length)

text \<open>The characters of a string after its opening quote, and the rest after the closing one.\<close>

function scan_string :: "pystr \<Rightarrow> (pystr \<times> pystr) option" where
  "scan_string [] = None"
| "scan_string (c # r) =
     (if c = 34 then Some ([], r)
      else if c < 32 then None
      else if c \<noteq> 92 then map_option (\<lambda>(s, r'). (c # s, r')) (scan_string r)
      else (case scan_escape r of
         None \<Rightarrow> None
       | Some (x, r1) \<Rightarrow> map_option (\<lambda>(s, r'). (x # s, r')) (scan_string r1)))"
  by pat_completeness auto
termination
  by (relation "measure length") (auto dest: scan_escape_length)

definition is_ascii_digit :: "nat \<Rightarrow> bool" where
  "is_ascii_digit c \<longleftrightarrow> 48 \<le> c \<and> c \<le> 57"

definition decimal :: "pystr \<Rightarrow> int" where
  "decimal ds = foldl (\<lambda>n c. 10 * n + int (c - 48)) 0 ds"

text \<open>
  A number: an optional sign, an integer part without leading zeros, an optional fraction and an
  optional exponent. Without fraction and exponent it is an integer of at most 4300 digits.
\<close>

definition scan_digits :: "pystr \<Rightarrow> pystr \<times> pystr" where
  "scan_digits s = (takeWhile is_ascii_digit s, dropWhile is_ascii_digit s)"

definition scan_int_part :: "pystr \<Rightarrow> pystr \<times> pystr" where
  "scan_int_part s = (case s of [] \<Rightarrow> ([], [])
     | c # r \<Rightarrow> if c = 48 then ([48], r) else scan_digits s)"

definition scan_fraction :: "pystr \<Rightarrow> pystr \<times> pystr" where
  "scan_fraction s = (case s of
     c # r \<Rightarrow> if c = 46 \<and> fst (scan_digits r) \<noteq> [] then scan_digits r else ([], s)
   | [] \<Rightarrow> ([], []))"

definition scan_exponent :: "pystr \<Rightarrow> int option \<times> pystr" where
  "scan_exponent s = (case s of
     c # r \<Rightarrow>
       (let sign = (if r \<noteq> [] \<and> hd r = 45 then -1 else 1);
            r1 = (if r \<noteq> [] \<and> hd r \<in> {43, 45} then tl r else r) in
        if c \<in> {69, 101} \<and> fst (scan_digits r1) \<noteq> []
        then (Some (sign * decimal (fst (scan_digits r1))), snd (scan_digits r1)) else (None, s))
   | [] \<Rightarrow> (None, []))"

definition ten_power :: "int \<Rightarrow> rat" where
  "ten_power e = (if 0 \<le> e then 10 ^ nat e else 1 / 10 ^ nat (- e))"

definition scan_number :: "pystr \<Rightarrow> (json \<times> pystr) option" where
  "scan_number s =
     (let negative = (s \<noteq> [] \<and> hd s = 45);
          sign = (if negative then -1 else 1);
          (whole, r) = scan_int_part (if negative then tl s else s) in
      if whole = [] then None
      else (let (fraction, r1) = scan_fraction r; (exponent, r2) = scan_exponent r1 in
        if fraction = [] \<and> exponent = None
        then (if 4300 < length whole then None else Some (JInt (sign * decimal whole), r2))
        else Some (JFloat (fl64 (of_int (sign * decimal (whole @ fraction))
          * ten_power ((case exponent of None \<Rightarrow> 0 | Some e \<Rightarrow> e) - int (length fraction)))), r2)))"

text \<open>\<open>d[key] = value\<close> keeps the position of an existing key.\<close>

fun dict_set :: "'k \<Rightarrow> 'v \<Rightarrow> ('k \<times> 'v) list \<Rightarrow> ('k \<times> 'v) list" where
  "dict_set k v [] = [(k, v)]"
| "dict_set k v ((k', v') # d) = (if k = k' then (k, v) # d else (k', v') # dict_set k v d)"

text \<open>
  The reader; every call consumes at least one character, so the length of the text is enough
  fuel. \<open>acc\<close> is the dictionary or the list read so far.
\<close>

fun parse_value :: "nat \<Rightarrow> pystr \<Rightarrow> (json \<times> pystr) option"
  and parse_members :: "nat \<Rightarrow> (pystr \<times> json) list \<Rightarrow> pystr \<Rightarrow> (json \<times> pystr) option"
  and parse_elements :: "nat \<Rightarrow> json list \<Rightarrow> pystr \<Rightarrow> (json \<times> pystr) option" where
  "parse_value 0 s = None"
| "parse_value (Suc n) s = (case s of
     [] \<Rightarrow> None
   | c # r \<Rightarrow>
       if c = 34 then map_option (\<lambda>(x, r'). (JStr x, r')) (scan_string r)
       else if c = 123 then (let r1 = skip_ws r in
         if r1 \<noteq> [] \<and> hd r1 = 125 then Some (JObj [], tl r1) else parse_members n [] r1)
       else if c = 91 then (let r1 = skip_ws r in
         if r1 \<noteq> [] \<and> hd r1 = 93 then Some (JList [], tl r1) else parse_elements n [] r1)
       else if startswith (py ''null'') s then Some (JNull, drop 4 s)
       else if startswith (py ''true'') s then Some (JBool True, drop 4 s)
       else if startswith (py ''false'') s then Some (JBool False, drop 5 s)
       else scan_number s)"
| "parse_members 0 acc s = None"
| "parse_members (Suc n) acc s = (case s of
     [] \<Rightarrow> None
   | c # r \<Rightarrow> if c \<noteq> 34 then None
       else (case scan_string r of
         None \<Rightarrow> None
       | Some (key, r1) \<Rightarrow> (case skip_ws r1 of
           [] \<Rightarrow> None
         | colon # r2 \<Rightarrow> if colon \<noteq> 58 then None
             else (case parse_value n (skip_ws r2) of
               None \<Rightarrow> None
             | Some (v, r3) \<Rightarrow> (case skip_ws r3 of
                 [] \<Rightarrow> None
               | d # r4 \<Rightarrow> if d = 125 then Some (JObj (dict_set key v acc), r4)
                   else if d = 44 then parse_members n (dict_set key v acc) (skip_ws r4)
                   else None)))))"
| "parse_elements 0 acc s = None"
| "parse_elements (Suc n) acc s = (case parse_value n s of
     None \<Rightarrow> None
   | Some (v, r) \<Rightarrow> (case skip_ws r of
       [] \<Rightarrow> None
     | d # r1 \<Rightarrow> if d = 93 then Some (JList (acc @ [v]), r1)
         else if d = 44 then parse_elements n (acc @ [v]) (skip_ws r1)
         else None))"

definition json_decode_error :: exn where
  "json_decode_error = ValueError (py ''Expecting value'')"

definition json_loads :: "pystr \<Rightarrow> json res" where
  "json_loads s = (case parse_value (Suc (length s)) (skip_ws s) of
     None \<Rightarrow> Inl json_decode_error
   | Some (v, r) \<Rightarrow> if skip_ws r = [] then Inr v else Inl json_decode_error)"

section \<open>Strings round trip\<close>

lemma hex_value_digit: "d < 16 \<Longrightarrow> hex_value (hex_digit d) = Some d"
  by (auto simp: hex_value_def hex_digit_def)

lemma scan_hex4_hex4: "u < 65536 \<Longrightarrow> scan_hex4 (hex4 u @ t) = Some (u, t)"
proof -
  assume u: "u < 65536"
  have "4096 * (u div 4096 mod 16) + 256 * (u div 256 mod 16) + 16 * (u div 16 mod 16) + u mod 16 = u"
  proof -
    have "16 * (u div 16) + u mod 16 = u" by simp
    moreover have "16 * (u div 256) + u div 16 mod 16 = u div 16"
      using div_mult2_eq [of u 16 16] mult_div_mod_eq [of 16 "u div 16"] by simp
    moreover have "16 * (u div 4096) + u div 256 mod 16 = u div 256"
      using div_mult2_eq [of u 256 16] mult_div_mod_eq [of 16 "u div 256"] by simp
    moreover have "u div 4096 mod 16 = u div 4096" using u by simp
    ultimately show ?thesis by linarith
  qed
  then show "scan_hex4 (hex4 u @ t) = Some (u, t)" using u by (simp add: scan_hex4_def hex4_def hex_value_digit)
qed

text \<open>A code point that is not a surrogate, and the characters a JSON string may hold.\<close>

definition scalar_value :: "nat \<Rightarrow> bool" where
  "scalar_value c \<longleftrightarrow> c < 1114112 \<and> \<not> is_high_surrogate c \<and> \<not> is_low_surrogate c"

lemma scan_escape_u: "u < 65536 \<Longrightarrow> \<not> is_high_surrogate u \<Longrightarrow>
    scan_string (escape_u u @ t) = map_option (\<lambda>(s, r). (u # s, r)) (scan_string t)"
  by (simp add: escape_u_def scan_escape_def scan_unicode_def scan_hex4_hex4)

lemma scan_unicode_pair:
  "is_high_surrogate h \<Longrightarrow> is_low_surrogate l \<Longrightarrow>
     scan_unicode (hex4 h @ [92, 117] @ hex4 l @ t) = Some (65536 + (h - 55296) * 1024 + (l - 56320), t)"
  by (simp add: scan_unicode_def scan_hex4_hex4 is_high_surrogate_def is_low_surrogate_def)

lemma scan_escape_pair:
  assumes "c < 1114112" "\<not> c < 65536"
  shows "scan_string (escape_u (55296 + (c - 65536) div 1024 mod 1024)
      @ escape_u (56320 + (c - 65536) mod 1024) @ t) = map_option (\<lambda>(s, r). (c # s, r)) (scan_string t)"
proof -
  let ?h = "55296 + (c - 65536) div 1024 mod 1024" and ?l = "56320 + (c - 65536) mod 1024"
  have d: "(c - 65536) div 1024 < 1024" using assms by simp
  then have v: "65536 + (?h - 55296) * 1024 + (?l - 56320) = c" using assms by simp
  have "is_high_surrogate ?h" using d by (simp add: is_high_surrogate_def)
  moreover have "is_low_surrogate ?l" by (simp add: is_low_surrogate_def)
  ultimately have "scan_unicode (hex4 ?h @ [92, 117] @ hex4 ?l @ t) = Some (c, t)"
    using scan_unicode_pair [of ?h ?l t] v by simp
  then show ?thesis by (simp add: escape_u_def scan_escape_def)
qed

lemma scan_string_escape:
  assumes "scalar_value c"
  shows "scan_string (json_escape ascii c @ t) = map_option (\<lambda>(s, r). (c # s, r)) (scan_string t)"
proof -
  consider "c \<in> {34, 92, 8, 12, 10, 13, 9}" | "c \<notin> {34, 92, 8, 12, 10, 13, 9}" "c < 32"
    | "c \<notin> {34, 92}" "32 \<le> c" "\<not> ascii \<or> c < 127"
    | "127 \<le> c" "ascii" "c < 65536" | "127 \<le> c" "ascii" "\<not> c < 65536"
    by fastforce
  then show ?thesis
  proof cases
    case 1 then show ?thesis by (auto simp: json_escape_def scan_escape_def)
  next
    case 2
    then have "json_escape ascii c = escape_u c" "\<not> is_high_surrogate c" "c < 65536"
      by (auto simp: json_escape_def is_high_surrogate_def)
    then show ?thesis by (simp add: scan_escape_u)
  next
    case 3
    then have "json_escape ascii c = [c]" by (auto simp: json_escape_def)
    with 3 show ?thesis by simp
  next
    case 4
    then have "json_escape ascii c = escape_u c" by (auto simp: json_escape_def)
    with 4 assms show ?thesis by (simp add: scan_escape_u scalar_value_def)
  next
    case 5
    then have "json_escape ascii c = escape_u (55296 + (c - 65536) div 1024 mod 1024)
        @ escape_u (56320 + (c - 65536) mod 1024)" by (auto simp: json_escape_def)
    with 5 assms show ?thesis by (simp add: scan_escape_pair scalar_value_def)
  qed
qed

lemma scan_string_json_string:
  "list_all scalar_value s \<Longrightarrow> scan_string (tl (json_string ascii s) @ t) = Some (s, t)"
proof -
  have "list_all scalar_value s \<Longrightarrow>
      scan_string (concat (map (json_escape ascii) s) @ [34] @ t) = Some (s, t)"
    by (induction s) (simp_all add: scan_string_escape)
  then show "list_all scalar_value s \<Longrightarrow> ?thesis" by (simp add: json_string_def)
qed

lemma json_string_quote: "json_string ascii s = 34 # tl (json_string ascii s)"
  by (simp add: json_string_def)

section \<open>Integers round trip\<close>

lemma decimal_append: "decimal (a @ b) = foldl (\<lambda>n c. 10 * n + int (c - 48)) (decimal a) b"
  by (simp add: decimal_def)

lemma nat_digits_facts:
  "list_all is_ascii_digit (nat_digits n) \<and> decimal (nat_digits n) = int n
     \<and> (0 < n \<longrightarrow> hd (nat_digits n) \<noteq> 48)"
proof (induction n rule: nat_digits.induct)
  case (1 n)
  show ?case
  proof (cases "n < 10")
    case True
    then show ?thesis by (simp add: is_ascii_digit_def decimal_def)
  next
    case False
    have d: "nat_digits n = nat_digits (n div 10) @ [48 + n mod 10]"
      using False by (subst nat_digits.simps) simp
    have "decimal (nat_digits n) = int n"
      using 1 False unfolding d by (simp add: decimal_append zdiv_int zmod_int)
    moreover have "hd (nat_digits n) \<noteq> 48" using 1 False unfolding d by simp
    moreover have "list_all is_ascii_digit (nat_digits n)"
    proof -
      have "is_ascii_digit (48 + n mod 10)" by (simp add: is_ascii_digit_def)
      with 1 False show ?thesis unfolding d by simp
    qed
    ultimately show ?thesis by blast
  qed
qed

definition ends_number :: "pystr \<Rightarrow> bool" where
  "ends_number t \<longleftrightarrow> t = [] \<or> \<not> is_ascii_digit (hd t) \<and> hd t \<notin> {46, 69, 101}"

lemma scan_digits_append:
  "list_all is_ascii_digit ds \<Longrightarrow> t = [] \<or> \<not> is_ascii_digit (hd t) \<Longrightarrow> scan_digits (ds @ t) = (ds, t)"
  by (cases t) (auto simp: scan_digits_def takeWhile_append dropWhile_append list_all_iff)

lemma scan_int_part_nat:
  assumes "ends_number t"
  shows "scan_int_part (nat_digits n @ t) = (nat_digits n, t)"
proof (cases "n = 0")
  case False
  obtain c r where c: "nat_digits n = c # r" by (cases "nat_digits n") auto
  with nat_digits_facts [of n] False have "c \<noteq> 48" by simp
  then have "scan_int_part (nat_digits n @ t) = scan_digits (nat_digits n @ t)"
    by (simp add: scan_int_part_def c)
  also have "\<dots> = (nat_digits n, t)"
    using nat_digits_facts [of n] assms by (intro scan_digits_append) (auto simp: ends_number_def)
  finally show ?thesis .
qed (simp add: scan_int_part_def)

lemma scan_number_str_int:
  assumes "ends_number t" "length (str_int i) \<le> 4300"
  shows "scan_number (str_int i @ t) = Some (JInt i, t)"
proof -
  let ?n = "nat \<bar>i\<bar>"
  have tail: "scan_fraction t = ([], t)" "scan_exponent t = (None, t)"
    using assms(1) by (auto simp: scan_fraction_def scan_exponent_def ends_number_def Let_def split: list.split)
  have len: "length (nat_digits ?n) \<le> 4300" using assms(2) by (auto simp: str_int_def split: if_splits)
  have "hd (nat_digits ?n @ t) \<noteq> 45"
    using nat_digits_facts [of ?n] by (cases "nat_digits ?n") (auto simp: is_ascii_digit_def)
  with tail len nat_digits_facts [of ?n] show ?thesis
    by (cases "i < 0") (simp_all add: scan_number_def str_int_def Let_def scan_int_part_nat assms(1))
qed

section \<open>Objects round trip\<close>

fun field_ok :: "field_value \<Rightarrow> bool" where
  "field_ok FNull = True"
| "field_ok (FInt i) = (length (str_int i) \<le> 4300)"
| "field_ok (FStr s) = list_all scalar_value s"

definition fields_ok :: "(pystr \<times> field_value) list \<Rightarrow> bool" where
  "fields_ok kvs \<longleftrightarrow> list_all (\<lambda>(k, v). list_all scalar_value k \<and> field_ok v) kvs \<and> distinct (map fst kvs)"

definition field_start :: "nat \<Rightarrow> bool" where
  "field_start c \<longleftrightarrow> c = 34 \<or> c = 110 \<or> c = 45 \<or> is_ascii_digit c"

lemma str_int_hd: "hd (str_int i) = 45 \<or> is_ascii_digit (hd (str_int i))" "str_int i \<noteq> []"
proof -
  have "is_ascii_digit (hd (nat_digits n))" for n
    using nat_digits_facts [of n] by (cases "nat_digits n") auto
  then show "hd (str_int i) = 45 \<or> is_ascii_digit (hd (str_int i))" by (simp add: str_int_def)
qed (simp add: str_int_def)

lemma dumps_field_start: "\<exists>c r. dumps_field ascii v = c # r \<and> field_start c"
proof (cases v)
  case (FInt i)
  then show ?thesis using str_int_hd [of i] by (cases "str_int i") (auto simp: field_start_def)
qed (simp_all add: field_start_def json_string_def py_def)

lemma skip_ws_start: "list_all is_json_ws w \<Longrightarrow> \<not> is_json_ws c \<Longrightarrow> skip_ws (w @ c # t) = c # t"
  by (simp add: skip_ws_def list_all_iff)

lemma field_start_no_ws: "field_start c \<Longrightarrow> \<not> is_json_ws c"
  by (auto simp: field_start_def is_json_ws_def is_ascii_digit_def)

lemma parse_value_number_start:
  assumes "c = 45 \<or> is_ascii_digit c"
  shows "parse_value (Suc n) (c # r) = scan_number (c # r)"
proof -
  have "c \<noteq> 34 \<and> c \<noteq> 123 \<and> c \<noteq> 91 \<and> c \<noteq> 110 \<and> c \<noteq> 116 \<and> c \<noteq> 102"
    using assms by (auto simp: is_ascii_digit_def)
  then show ?thesis by (simp add: startswith_def py_def)
qed

lemma parse_value_field:
  assumes "field_ok v" "ends_number t"
  shows "parse_value (Suc n) (dumps_field ascii v @ t) = Some (field_json v, t)"
proof (cases v)
  case FNull
  then show ?thesis by (simp add: py_def startswith_def)
next
  case (FInt i)
  obtain c r where c: "str_int i = c # r" "c = 45 \<or> is_ascii_digit c"
    using str_int_hd [of i] by (cases "str_int i") auto
  then show ?thesis
    using FInt assms scan_number_str_int [of t i] parse_value_number_start [of c n "r @ t"] by simp
next
  case (FStr s)
  have "parse_value (Suc n) (34 # tl (json_string ascii s) @ t) = Some (JStr s, t)"
    using FStr assms scan_string_json_string [of s ascii t] by simp
  then show ?thesis using FStr json_string_quote [of ascii s] by (metis append_Cons dumps_field.simps(3) field_json.simps(3))
qed

lemma dict_set_fresh: "k \<notin> fst ` set d \<Longrightarrow> dict_set k v d = d @ [(k, v)]"
  by (induction k v d rule: dict_set.induct) auto

definition separators_ok :: "pystr \<Rightarrow> pystr \<Rightarrow> bool" where
  "separators_ok isep ksep \<longleftrightarrow> isep \<noteq> [] \<and> hd isep = 44 \<and> list_all is_json_ws (tl isep)
     \<and> ksep \<noteq> [] \<and> hd ksep = 58 \<and> list_all is_json_ws (tl ksep)"

definition member_text :: "bool \<Rightarrow> pystr \<Rightarrow> pystr \<times> field_value \<Rightarrow> pystr" where
  "member_text ascii ksep kv = json_string ascii (fst kv) @ ksep @ dumps_field ascii (snd kv)"

text \<open>One member, up to the character that ends its value.\<close>

lemma parse_member:
  assumes "separators_ok isep ksep" "list_all scalar_value k" "field_ok v"
    and "ends_number (d # t)" "\<not> is_json_ws d"
  shows "parse_members (Suc (Suc n)) acc (member_text ascii ksep (k, v) @ d # t) =
    (if d = 125 then Some (JObj (dict_set k (field_json v) acc), t)
     else if d = 44 then parse_members (Suc n) (dict_set k (field_json v) acc) (skip_ws t) else None)"
proof -
  from assms(1) obtain w where w: "ksep = 58 # w" "list_all is_json_ws w"
    by (cases ksep) (auto simp: separators_ok_def)
  obtain c r where c: "dumps_field ascii v = c # r" "\<not> is_json_ws c"
    using dumps_field_start [of ascii v] field_start_no_ws by blast
  have shape: "member_text ascii ksep (k, v) @ d # t =
      34 # tl (json_string ascii k) @ 58 # w @ dumps_field ascii v @ d # t"
    using json_string_quote [of ascii k] by (metis append_Cons append_assoc fst_conv member_text_def snd_conv w(1))
  have key: "scan_string (tl (json_string ascii k) @ 58 # w @ dumps_field ascii v @ d # t)
      = Some (k, 58 # w @ dumps_field ascii v @ d # t)"
    by (rule scan_string_json_string [OF assms(2)])
  have val: "skip_ws (w @ dumps_field ascii v @ d # t) = dumps_field ascii v @ d # t"
    using skip_ws_start [OF w(2) c(2)] c(1) by simp
  have colon: "skip_ws (58 # w') = 58 # w'" for w' by (simp add: skip_ws_def is_json_ws_def)
  have ending: "skip_ws (d # t) = d # t" using assms(5) by (simp add: skip_ws_def)
  show ?thesis
    unfolding shape
    by (simp add: key colon val parse_value_field [OF assms(3,4)] ending del: parse_value.simps)
qed

lemma parse_members_dumps:
  assumes "separators_ok isep ksep"
  shows "fields_ok kvs \<Longrightarrow> kvs \<noteq> [] \<Longrightarrow> length kvs \<le> n \<Longrightarrow> fst ` set kvs \<inter> fst ` set acc = {} \<Longrightarrow>
    parse_members (Suc n) acc (join isep (map (member_text ascii ksep) kvs) @ 125 # t) =
      Some (JObj (acc @ map (\<lambda>(k, v). (k, field_json v)) kvs), t)"
proof (induction kvs arbitrary: n acc)
  case (Cons kv kvs)
  obtain k v where kv: "kv = (k, v)" by fastforce
  obtain m where n: "n = Suc m" using Cons.prems(3) by (cases n) auto
  from Cons.prems(1,4) kv have ok: "list_all scalar_value k" "field_ok v" "fields_ok kvs"
    "k \<notin> fst ` set acc" "k \<notin> fst ` set kvs" by (auto simp: fields_ok_def)
  from assms obtain w where w: "isep = 44 # w" "list_all is_json_ws w"
    by (cases isep) (auto simp: separators_ok_def)
  show ?case
  proof (cases "kvs = []")
    case True
    have "ends_number (125 # t)" "\<not> is_json_ws 125"
      by (simp_all add: ends_number_def is_ascii_digit_def is_json_ws_def)
    from parse_member [OF assms ok(1,2) this] True kv n ok(4) show ?thesis
      by (simp add: dict_set_fresh)
  next
    case False
    let ?rest = "join isep (map (member_text ascii ksep) kvs) @ 125 # t"
    have shape: "join isep (map (member_text ascii ksep) (kv # kvs)) @ 125 # t =
        member_text ascii ksep (k, v) @ 44 # w @ ?rest"
      using False kv w by (simp add: join_Cons)
    obtain r where r: "?rest = 34 # r"
    proof -
      from False obtain kv2 kvs2 where "kvs = kv2 # kvs2" by (cases kvs) auto
      then have "\<exists>r. ?rest = 34 # r"
        by (cases kvs2) (simp_all add: member_text_def json_string_def)
      with that show ?thesis by blast
    qed
    have ws: "skip_ws (w @ ?rest) = ?rest"
      unfolding r by (rule skip_ws_start [OF w(2)]) (simp add: is_json_ws_def)
    have "ends_number (44 # w @ ?rest)" "\<not> is_json_ws 44"
      by (simp_all add: ends_number_def is_ascii_digit_def is_json_ws_def)
    from parse_member [OF assms ok(1,2) this, of m acc ascii]
    have step: "parse_members (Suc n) acc (join isep (map (member_text ascii ksep) (kv # kvs)) @ 125 # t) =
        parse_members n (acc @ [(k, field_json v)]) ?rest"
      unfolding shape n ws by (simp add: dict_set_fresh ok(4))
    have "parse_members (Suc m) (acc @ [(k, field_json v)]) ?rest =
        Some (JObj ((acc @ [(k, field_json v)]) @ map (\<lambda>(k, v). (k, field_json v)) kvs), t)"
      using Cons.prems ok n kv False by (intro Cons.IH) auto
    then show ?thesis unfolding step using kv n by (simp del: parse_members.simps)
  qed
qed simp

lemma length_join_ge: "\<forall>p \<in> set ps. p \<noteq> [] \<Longrightarrow> length ps \<le> length (join sep ps)"
  by (induction sep ps rule: join.induct) (auto simp: Suc_le_eq neq_Nil_conv)

text \<open>Reading a printed dictionary gives its fields back.\<close>

lemma loads_dumps_object:
  assumes "separators_ok isep ksep" "fields_ok kvs"
  shows "json_loads (dumps_object ascii isep ksep kvs) = Inr (JObj (map (\<lambda>(k, v). (k, field_json v)) kvs))"
proof -
  let ?body = "join isep (map (member_text ascii ksep) kvs) @ [125]"
  have shape: "dumps_object ascii isep ksep kvs = 123 # ?body"
    by (simp add: dumps_object_def member_text_def [abs_def] case_prod_unfold)
  have ws: "skip_ws (123 # ?body) = 123 # ?body" by (simp add: skip_ws_def is_json_ws_def)
  have len: "length kvs \<le> length (join isep (map (member_text ascii ksep) kvs))"
    using length_join_ge [of "map (member_text ascii ksep) kvs" isep]
    by (auto simp: member_text_def json_string_def)
  show ?thesis
  proof (cases "kvs = []")
    case True
    then show ?thesis unfolding json_loads_def shape ws by (simp add: skip_ws_def is_json_ws_def)
  next
    case False
    then obtain r where r: "?body = 34 # r"
    proof -
      from False obtain kv2 kvs2 where "kvs = kv2 # kvs2" by (cases kvs) auto
      then have "\<exists>r. ?body = 34 # r" by (cases kvs2) (simp_all add: member_text_def json_string_def)
      with that show ?thesis by blast
    qed
    have "skip_ws ?body = ?body" unfolding r by (simp add: skip_ws_def is_json_ws_def)
    moreover have "hd ?body \<noteq> 125" "?body \<noteq> []" unfolding r by simp_all
    moreover have "parse_members (length (123 # ?body)) [] (join isep (map (member_text ascii ksep) kvs) @ 125 # []) =
        Some (JObj ([] @ map (\<lambda>(k, v). (k, field_json v)) kvs), [])"
    proof -
      have "length (123 # ?body) = Suc (Suc (length (join isep (map (member_text ascii ksep) kvs))))" by simp
      then show ?thesis using len False assms
        by (simp only:) (rule parse_members_dumps, auto)
    qed
    ultimately have "parse_value (Suc (length (123 # ?body))) (123 # ?body) =
        Some (JObj (map (\<lambda>(k, v). (k, field_json v)) kvs), [])"
      by (simp add: Let_def)
    then show ?thesis unfolding json_loads_def shape ws by (simp add: skip_ws_def del: parse_value.simps)
  qed
qed

lemma scalar_value_encodable: "scalar_value = encodable"
  by (auto simp: fun_eq_iff scalar_value_def encodable_def is_surrogate_def is_high_surrogate_def is_low_surrogate_def)

lemma py_scalar [simp]: "list_all scalar_value (py cs)"
  by (simp add: scalar_value_encodable)

end
