(* ===== verification/Queues.thy ===== *)
theory Queues
  imports World Json_Text
begin

text \<open>
  \<open>jobs/inprocess.py\<close> and \<open>jobs/redis_queue.py\<close>: the two implementations of the protocol \<open>JobQueue\<close>.
  The in-process queue runs the pipeline at once. The Redis queue pushes the serialized job to the
  tail of a Redis list and takes jobs from the tail as well; the Redis client is the record \<open>redis\<close>
  with the documented behaviour \<open>redis_ok\<close> of the list commands.
\<close>

section \<open>InProcessJobQueue\<close>

definition inprocess_failed_event :: "index_job \<Rightarrow> exn \<Rightarrow> operation_event" where
  "inprocess_failed_event job exc =
     \<lparr> ev_event_type = py ''indexing.failed'', ev_severity = Error, ev_source = py ''indexing'',
       ev_message = py ''Document indexing failed: '' @ str_exn exc, ev_details = job_details job \<rparr>"

definition inprocess_enqueue ::
  "('m, 'q) pipeline \<Rightarrow> 'e event_store option \<Rightarrow> index_job \<Rightarrow> ('m, 'q, 'd, 'r, 'e) world
     \<Rightarrow> dispatch_result \<times> ('m, 'q, 'd, 'r, 'e) world" where
  "inprocess_enqueue p est job w =
     (case pipeline_run p job (w_storage w) (w_vectors w) of
        Inl exc \<Rightarrow>
          (\<lparr> dr_job_id = job_id job, dr_status = Failed, dr_chunk_count = 0,
             dr_failure_reason = Some (str_exn exc) \<rparr>,
           record_optional est (inprocess_failed_event job exc) w)
      | Inr (result, q') \<Rightarrow>
          (\<lparr> dr_job_id = job_id job, dr_status = Completed, dr_chunk_count = ir_chunk_count result,
             dr_failure_reason = None \<rparr>,
           w\<lparr> w_vectors := q' \<rparr>))"

interpretation inprocess: job_queue_frame "inprocess_enqueue p est"
  for p :: "('m, 'q) pipeline" and est :: "'e event_store option"
  by unfold_locales (auto simp: inprocess_enqueue_def split: sum.splits prod.splits)

section \<open>Serialization\<close>

definition opt_field :: "pystr option \<Rightarrow> field_value" where
  "opt_field x = (case x of None \<Rightarrow> FNull | Some s \<Rightarrow> FStr s)"

text \<open>\<open>asdict(job)\<close>\<close>

definition job_fields :: "index_job \<Rightarrow> (pystr \<times> field_value) list" where
  "job_fields j = [
     (py ''job_id'', FStr (job_id j)),
     (py ''workspace_id'', FStr (job_workspace_id j)),
     (py ''workspace_name'', FStr (job_workspace_name j)),
     (py ''document_id'', FStr (job_document_id j)),
     (py ''filename'', FStr (job_filename j)),
     (py ''content_type'', FStr (job_content_type j)),
     (py ''storage_key'', FStr (job_storage_key j)),
     (py ''uploaded_by_employee_id'', opt_field (job_uploaded_by_employee_id j)),
     (py ''security_level'', FStr (job_security_level j)),
     (py ''attempt'', FInt (job_attempt j)),
     (py ''max_attempts'', FInt (job_max_attempts j))]"

definition serialize :: "index_job \<Rightarrow> pystr" where
  "serialize j = dumps_object True (py '', '') (py '': '') (job_fields j)"

text \<open>
  \<open>IndexDocumentJob(**d)\<close>: the required fields, the defaults of the others, no further key. A value of
  another type than the declared one has no counterpart in the model's record and is rejected.
\<close>

definition job_keys :: "pystr list" where
  "job_keys = map py [''job_id'', ''workspace_id'', ''workspace_name'', ''document_id'', ''filename'',
     ''content_type'', ''storage_key'', ''uploaded_by_employee_id'', ''security_level'', ''attempt'',
     ''max_attempts'']"

definition bad_job :: exn where
  "bad_job = TypeError (py ''IndexDocumentJob.__init__() got unexpected arguments'')"

definition str_field :: "(pystr \<times> json) list \<Rightarrow> string \<Rightarrow> pystr res" where
  "str_field d k = (case map_of d (py k) of Some (JStr s) \<Rightarrow> Inr s | _ \<Rightarrow> Inl bad_job)"

definition opt_str_field :: "(pystr \<times> json) list \<Rightarrow> string \<Rightarrow> pystr option res" where
  "opt_str_field d k = (case map_of d (py k) of
     None \<Rightarrow> Inr None | Some JNull \<Rightarrow> Inr None | Some (JStr s) \<Rightarrow> Inr (Some s) | _ \<Rightarrow> Inl bad_job)"

definition default_field :: "(pystr \<times> json) list \<Rightarrow> string \<Rightarrow> json \<Rightarrow> json" where
  "default_field d k v = (case map_of d (py k) of None \<Rightarrow> v | Some x \<Rightarrow> x)"

definition job_of_dict :: "(pystr \<times> json) list \<Rightarrow> index_job res" where
  "job_of_dict d =
     (if \<not> fst ` set d \<subseteq> set job_keys then Inl bad_job
      else case (str_field d ''job_id'', str_field d ''workspace_id'', str_field d ''workspace_name'',
          str_field d ''document_id'', str_field d ''filename'', str_field d ''content_type'',
          str_field d ''storage_key'', opt_str_field d ''uploaded_by_employee_id'',
          default_field d ''security_level'' (JStr (py ''internal'')),
          default_field d ''attempt'' (JInt 1), default_field d ''max_attempts'' (JInt 3)) of
        (Inr i, Inr w, Inr wn, Inr doc, Inr f, Inr ct, Inr k, Inr u, JStr l, JInt a, JInt n) \<Rightarrow>
          Inr \<lparr> job_id = i, job_workspace_id = w, job_workspace_name = wn, job_document_id = doc,
            job_filename = f, job_content_type = ct, job_storage_key = k,
            job_uploaded_by_employee_id = u, job_security_level = l, job_attempt = a,
            job_max_attempts = n \<rparr>
      | _ \<Rightarrow> Inl bad_job)"

definition deserialize :: "pystr \<Rightarrow> index_job res" where
  "deserialize payload =
     (case json_loads payload of
        Inl e \<Rightarrow> Inl e
      | Inr v \<Rightarrow> (case as_obj v of None \<Rightarrow> Inl bad_job | Some d \<Rightarrow> job_of_dict d))"

text \<open>Jobs whose texts are Unicode scalar values survive the queue unchanged.\<close>

definition serializable :: "index_job \<Rightarrow> bool" where
  "serializable j \<longleftrightarrow> list_all (\<lambda>(k, v). field_ok v) (job_fields j)"

lemma job_fields_ok: "serializable j \<Longrightarrow> fields_ok (job_fields j)"
  by (auto simp: fields_ok_def serializable_def job_fields_def py_scalar)

lemma field_json_opt: "field_json (opt_field x) = (case x of None \<Rightarrow> JNull | Some s \<Rightarrow> JStr s)"
  by (cases x) (simp_all add: opt_field_def)

lemma deserialize_serialize: "serializable j \<Longrightarrow> deserialize (serialize j) = Inr j"
proof -
  assume j: "serializable j"
  have seps: "separators_ok (py '', '') (py '': '')"
    by (simp add: separators_ok_def py_def is_json_ws_def)
  have "json_loads (serialize j) = Inr (JObj (map (\<lambda>(k, v). (k, field_json v)) (job_fields j)))"
    unfolding serialize_def by (rule loads_dumps_object [OF seps job_fields_ok [OF j]])
  moreover have "job_of_dict (map (\<lambda>(k, v). (k, field_json v)) (job_fields j)) = Inr j"
    by (cases j; cases "job_uploaded_by_employee_id j")
      (simp_all add: job_of_dict_def job_fields_def job_keys_def str_field_def opt_str_field_def
        default_field_def field_json_opt)
  ultimately show "deserialize (serialize j) = Inr j" by (simp add: deserialize_def)
qed

section \<open>The Redis client\<close>

record 'r redis =
  rd_rpush :: "pystr \<Rightarrow> pystr \<Rightarrow> 'r \<Rightarrow> 'r res"
  rd_brpop :: "pystr \<Rightarrow> int \<Rightarrow> 'r \<Rightarrow> pystr option res \<times> 'r"
  rd_llen :: "pystr \<Rightarrow> 'r \<Rightarrow> int res"
  rd_items :: "pystr \<Rightarrow> 'r \<Rightarrow> pystr list"

text \<open>
  \<open>rd_items key r\<close> is the list stored at \<open>key\<close>. \<open>RPUSH\<close> appends to its tail, \<open>BRPOP\<close> removes the
  tail, or returns nothing when the list stays empty; a client error leaves the list as it is.
\<close>

definition redis_ok :: "'r redis \<Rightarrow> bool" where
  "redis_ok R \<longleftrightarrow>
     (\<forall>key x r r'. rd_rpush R key x r = Inr r' \<longrightarrow> rd_items R key r' = rd_items R key r @ [x]) \<and>
     (\<forall>key t r res r'. rd_brpop R key t r = (res, r') \<longrightarrow>
        (case res of
           Inr (Some x) \<Rightarrow> rd_items R key r = rd_items R key r' @ [x]
         | _ \<Rightarrow> rd_items R key r' = rd_items R key r)) \<and>
     (\<forall>key r n. rd_llen R key r = Inr n \<longrightarrow> n = int (length (rd_items R key r)))"

section \<open>RedisJobQueue\<close>

record 'r redis_queue =
  rq_client :: "'r redis"
  rq_queue_key :: pystr
  rq_max_attempts :: int

definition queue_unavailable_event :: "index_job \<Rightarrow> exn \<Rightarrow> operation_event" where
  "queue_unavailable_event job exc =
     \<lparr> ev_event_type = py ''indexing.queue_unavailable'', ev_severity = Error,
       ev_source = py ''indexing'', ev_message = py ''Indexing queue is unavailable: '' @ str_exn exc,
       ev_details = job_details job \<rparr>"

definition redis_enqueue ::
  "'r redis_queue \<Rightarrow> 'e event_store option \<Rightarrow> index_job \<Rightarrow> ('m, 'q, 'd, 'r, 'e) world
     \<Rightarrow> dispatch_result \<times> ('m, 'q, 'd, 'r, 'e) world" where
  "redis_enqueue rq est job0 w =
     (let job = job0\<lparr> job_max_attempts := rq_max_attempts rq \<rparr> in
      case rd_rpush (rq_client rq) (rq_queue_key rq) (serialize job) (w_redis w) of
        Inl exc \<Rightarrow>
          (\<lparr> dr_job_id = job_id job, dr_status = Failed, dr_chunk_count = 0,
             dr_failure_reason = Some (str_exn exc) \<rparr>,
           record_optional est (queue_unavailable_event job exc) w)
      | Inr r' \<Rightarrow>
          (\<lparr> dr_job_id = job_id job, dr_status = Queued, dr_chunk_count = 0, dr_failure_reason = None \<rparr>,
           w\<lparr> w_redis := r' \<rparr>))"

text \<open>A timeout of the client counts as an empty queue; other errors propagate.\<close>

definition redis_pop ::
  "'r redis_queue \<Rightarrow> int \<Rightarrow> ('m, 'q, 'd, 'r, 'e) world
     \<Rightarrow> index_job option res \<times> ('m, 'q, 'd, 'r, 'e) world" where
  "redis_pop rq timeout_seconds w =
     (case rd_brpop (rq_client rq) (rq_queue_key rq) timeout_seconds (w_redis w) of
        (Inl (RedisTimeoutError m), r') \<Rightarrow> (Inr None, w\<lparr> w_redis := r' \<rparr>)
      | (Inl e, r') \<Rightarrow> (Inl e, w\<lparr> w_redis := r' \<rparr>)
      | (Inr None, r') \<Rightarrow> (Inr None, w\<lparr> w_redis := r' \<rparr>)
      | (Inr (Some payload), r') \<Rightarrow>
          (case deserialize payload of
             Inl e \<Rightarrow> (Inl e, w\<lparr> w_redis := r' \<rparr>)
           | Inr job \<Rightarrow> (Inr (Some job), w\<lparr> w_redis := r' \<rparr>)))"

definition redis_pending_count :: "'r redis_queue \<Rightarrow> ('m, 'q, 'd, 'r, 'e) world \<Rightarrow> int res" where
  "redis_pending_count rq w = rd_llen (rq_client rq) (rq_queue_key rq) (w_redis w)"

text \<open>\<open>create_redis_job_queue\<close>\<close>

definition create_redis_job_queue :: "'r redis \<Rightarrow> settings \<Rightarrow> 'r redis_queue" where
  "create_redis_job_queue R s = \<lparr> rq_client = R, rq_queue_key = cfg_indexing_queue_redis_key s,
     rq_max_attempts = cfg_indexing_queue_max_attempts s \<rparr>"

interpretation redisq: job_queue_frame "redis_enqueue rq est"
  for rq :: "'r redis_queue" and est :: "'e event_store option"
  by unfold_locales (auto simp: redis_enqueue_def Let_def split: sum.splits)

definition queued :: "'r redis_queue \<Rightarrow> ('m, 'q, 'd, 'r, 'e) world \<Rightarrow> pystr list" where
  "queued rq w = rd_items (rq_client rq) (rq_queue_key rq) (w_redis w)"

lemma redis_enqueue_queued:
  assumes "redis_ok (rq_client rq)"
  shows "queued rq (snd (redis_enqueue rq est j w)) =
    (if dr_status (fst (redis_enqueue rq est j w)) = Queued
     then queued rq w @ [serialize (j\<lparr> job_max_attempts := rq_max_attempts rq \<rparr>)] else queued rq w)"
  using assms unfolding redis_ok_def
  by (auto simp: redis_enqueue_def Let_def queued_def split: sum.splits)

lemma redis_enqueue_status: "dr_status (fst (redis_enqueue rq est j w)) \<in> {Queued, Failed}"
  by (auto simp: redis_enqueue_def Let_def split: sum.splits)

lemma redis_pop_queued:
  assumes "redis_ok (rq_client rq)" "redis_pop rq t w = (res, w')"
  shows "case res of
      Inr (Some job) \<Rightarrow> \<exists>payload. queued rq w = queued rq w' @ [payload] \<and> deserialize payload = Inr job
    | Inr None \<Rightarrow> queued rq w' = queued rq w
    | Inl e \<Rightarrow> queued rq w' = queued rq w \<or> (\<exists>payload. queued rq w = queued rq w' @ [payload] \<and> deserialize payload = Inl e)"
proof -
  obtain out r' where b: "rd_brpop (rq_client rq) (rq_queue_key rq) t (w_redis w) = (out, r')" by fastforce
  have law: "case out of Inr (Some x) \<Rightarrow> rd_items (rq_client rq) (rq_queue_key rq) (w_redis w)
        = rd_items (rq_client rq) (rq_queue_key rq) r' @ [x]
      | _ \<Rightarrow> rd_items (rq_client rq) (rq_queue_key rq) r' = rd_items (rq_client rq) (rq_queue_key rq) (w_redis w)"
    using assms(1) b unfolding redis_ok_def by blast
  show ?thesis
    using assms(2) law
    by (auto simp: redis_pop_def b queued_def split: sum.splits option.splits exn.splits)
qed

section \<open>A client over one list\<close>

definition list_redis :: "pystr list redis" where
  "list_redis = \<lparr> rd_rpush = (\<lambda>key x r. Inr (r @ [x])),
     rd_brpop = (\<lambda>key t r. if r = [] then (Inr None, r) else (Inr (Some (last r)), butlast r)),
     rd_llen = (\<lambda>key r. Inr (int (length r))),
     rd_items = (\<lambda>key r. r) \<rparr>"

lemma list_redis_ok: "redis_ok list_redis"
  by (auto simp: redis_ok_def list_redis_def)

section \<open>Properties\<close>

text \<open>
  C22: a job comes out of the queue as it went in: reading the JSON text a job is serialized to gives
  the job back, for any job whose texts consist of Unicode scalar values.
\<close>

theorem job_round_trip:
  assumes "serializable j"
  shows "deserialize (serialize j) = Inr j"
  using assms by (rule deserialize_serialize)

definition sample_job :: index_job where
  "sample_job = \<lparr> job_id = py ''j1'', job_workspace_id = py ''w'', job_workspace_name = [54620, 44544],
     job_document_id = py ''d'', job_filename = py ''a \"b\".txt'', job_content_type = py ''text/plain'',
     job_storage_key = py ''w/d/a.txt'', job_uploaded_by_employee_id = None,
     job_security_level = py ''internal'', job_attempt = 1, job_max_attempts = 3 \<rparr>"

lemma sample_job_serializable: "serializable sample_job"
  by code_simp

theorem job_round_trip_witness: "deserialize (serialize sample_job) = Inr sample_job"
  by (rule job_round_trip [OF sample_job_serializable])

text \<open>
  The Redis queue is a stack. A job that was accepted is the next one a successful \<open>pop\<close> returns,
  whatever was queued before it: later uploads are indexed first.
\<close>

lemma redis_queue_last_in_first_out:
  assumes "redis_ok (rq_client rq)"
    and "serializable (j\<lparr> job_max_attempts := rq_max_attempts rq \<rparr>)"
    and "redis_enqueue rq est j w = (dispatch, w1)" "dr_status dispatch = Queued"
    and "redis_pop rq t w1 = (Inr (Some j'), w2)"
  shows "j' = j\<lparr> job_max_attempts := rq_max_attempts rq \<rparr> \<and> queued rq w2 = queued rq w"
proof -
  have "queued rq w1 = queued rq w @ [serialize (j\<lparr> job_max_attempts := rq_max_attempts rq \<rparr>)]"
    using redis_enqueue_queued [OF assms(1), of est j w] assms(3,4) by simp
  moreover from redis_pop_queued [OF assms(1,5)] obtain payload where
    "queued rq w1 = queued rq w2 @ [payload]" "deserialize payload = Inr j'" by auto
  ultimately show ?thesis using deserialize_serialize [OF assms(2)] by simp
qed

end
