(* ===== verification/Documents.thy ===== *)
theory Documents
  imports Queues Auth_Models
begin

text \<open>
  \<open>documents/service.py\<close> and \<open>documents/router.py\<close>: uploading, deleting, re-indexing and listing
  documents, with the HTTP handlers. An operation returns its result and the new state; a Python
  exception is an \<open>Inl\<close> with the state the operation left behind. Identifiers from \<open>uuid4\<close> and the
  time of the upload are arguments.

  The service is the record \<open>document_service\<close>; the locale \<open>document_parts\<close> combines the contracts of
  its collaborators (metadata store, queue, object store) and holds the lemmas about the operations.
\<close>

section \<open>The service\<close>

record ('m, 'q, 'd, 'r, 'e) document_service =
  sv_parse :: "pystr \<Rightarrow> bytes \<Rightarrow> parsed_document res"
  sv_storage :: "'m storage"
  sv_enqueue :: "index_job \<Rightarrow> ('m, 'q, 'd, 'r, 'e) world \<Rightarrow> dispatch_result \<times> ('m, 'q, 'd, 'r, 'e) world"
  sv_documents :: "'d doc_store"
  sv_delete_vectors :: "pystr \<Rightarrow> pystr \<Rightarrow> 'q \<Rightarrow> 'q res"
  sv_max_document_bytes :: int

definition validate_document_size :: "int \<Rightarrow> bytes \<Rightarrow> unit res" where
  "validate_document_size max_document_bytes data =
     (if max_document_bytes < int (length data)
      then Inl (DocumentTooLargeError (py ''Document exceeds maximum size of ''
        @ str_int max_document_bytes @ py '' bytes.''))
      else Inr ())"

text \<open>\<open>guess_type\<close> is \<open>mimetypes.guess_type(filename)[0]\<close>, which depends on the host's type tables.\<close>

definition guess_content_type :: "(pystr \<Rightarrow> pystr option) \<Rightarrow> pystr \<Rightarrow> pystr" where
  "guess_content_type guess_type filename =
     (if truthy (guess_type filename) then the (guess_type filename) else py ''application/octet-stream'')"

definition normalize_filename :: "pystr \<Rightarrow> pystr" where
  "normalize_filename filename =
     (let normalized = strip (last (split_on 47 (replace_char 92 47 filename))) in
      if normalized = [] then py ''document'' else normalized)"

definition normalize_content_type :: "ucd \<Rightarrow> (pystr \<Rightarrow> pystr option) \<Rightarrow> pystr \<Rightarrow> pystr \<Rightarrow> pystr" where
  "normalize_content_type U guess_type content_type filename =
     (let normalized = ucd_lower U (strip content_type) in
      if normalized \<noteq> [] then normalized else guess_content_type guess_type filename)"

lemma normalize_filename_facts:
  "normalize_filename f \<noteq> []" "47 \<notin> set (normalize_filename f)" "strip (normalize_filename f) = normalize_filename f"
proof -
  let ?l = "last (split_on 47 (replace_char 92 47 f))"
  show "normalize_filename f \<noteq> []" by (simp add: normalize_filename_def Let_def)
  have "47 \<notin> set ?l" by (rule split_on_no_sep [of _ 47 "replace_char 92 47 f"]) simp
  then have "47 \<notin> set (strip ?l)" using set_strip by blast
  then show "47 \<notin> set (normalize_filename f)" by (simp add: normalize_filename_def Let_def py_def)
  have "strip (py ''document'') = py ''document''" by code_simp
  then show "strip (normalize_filename f) = normalize_filename f" by (simp add: normalize_filename_def Let_def)
qed

section \<open>upload\_document\<close>

record upload_ids =
  up_document_id :: pystr
  up_job_id :: pystr

definition upload_job ::
  "upload_ids \<Rightarrow> workspace_context \<Rightarrow> pystr \<Rightarrow> pystr \<Rightarrow> pystr \<Rightarrow> pystr \<Rightarrow> index_job" where
  "upload_job ids ctx filename content_type storage_key security_level =
     \<lparr> job_id = up_job_id ids, job_workspace_id = wc_workspace_id ctx,
       job_workspace_name = wc_workspace_name ctx, job_document_id = up_document_id ids,
       job_filename = filename, job_content_type = content_type, job_storage_key = storage_key,
       job_uploaded_by_employee_id = wc_employee_id ctx, job_security_level = security_level,
       job_attempt = 1, job_max_attempts = 3 \<rparr>"

definition upload_response ::
  "upload_ids \<Rightarrow> workspace_context \<Rightarrow> pystr \<Rightarrow> pystr \<Rightarrow> pystr \<Rightarrow> parsed_document \<Rightarrow> dispatch_result
     \<Rightarrow> document_metadata" where
  "upload_response ids ctx filename storage_key security_level parsed dispatch =
     \<lparr> dm_document_id = up_document_id ids, dm_workspace_id = wc_workspace_id ctx,
       dm_workspace_name = wc_workspace_name ctx,
       dm_uploaded_by_employee_id = wc_employee_id ctx, dm_security_level = security_level,
       dm_filename = filename, dm_parser = pd_parser_name parsed,
       dm_character_count = pd_character_count parsed, dm_text_preview = pd_preview parsed,
       dm_storage_key = storage_key, dm_indexing_job_id = dr_job_id dispatch,
       dm_indexing_status = status_str (dr_status dispatch),
       dm_indexing_error = dr_failure_reason dispatch, dm_chunk_count = dr_chunk_count dispatch \<rparr>"

text \<open>
  The operation in the two parts between which other processes can act on the shared services: up
  to the dispatch of the job, and the record of the metadata.
\<close>

definition upload_dispatch ::
  "ucd \<Rightarrow> (pystr \<Rightarrow> pystr option) \<Rightarrow> ('m, 'q, 'd, 'r, 'e) document_service \<Rightarrow> upload_ids \<Rightarrow> workspace_context
     \<Rightarrow> pystr \<Rightarrow> pystr \<Rightarrow> bytes \<Rightarrow> pystr \<Rightarrow> ('m, 'q, 'd, 'r, 'e) world
     \<Rightarrow> document_metadata res \<times> ('m, 'q, 'd, 'r, 'e) world" where
  "upload_dispatch U guess_type sv ids ctx raw_filename raw_content_type data security_level w =
     (let filename = normalize_filename raw_filename;
          content_type = normalize_content_type U guess_type raw_content_type filename in
      case validate_document_size (sv_max_document_bytes sv) data of
        Inl e \<Rightarrow> (Inl e, w)
      | Inr _ \<Rightarrow>
     (case sv_parse sv filename data of
        Inl e \<Rightarrow> (Inl e, w)
      | Inr parsed \<Rightarrow>
     (case ss_upload (sv_storage sv) (wc_workspace_id ctx) (up_document_id ids) filename content_type data
          (w_storage w) of
        Inl e \<Rightarrow> (Inl e, w)
      | Inr (storage_key, m') \<Rightarrow>
          (let (dispatch, w1) = sv_enqueue sv
                 (upload_job ids ctx filename content_type storage_key security_level)
                 (w\<lparr> w_storage := m' \<rparr>)
           in (Inr (upload_response ids ctx filename storage_key security_level parsed dispatch), w1)))))"

definition upload_record ::
  "('m, 'q, 'd, 'r, 'e) document_service \<Rightarrow> timestamp \<Rightarrow> document_metadata \<Rightarrow> ('m, 'q, 'd, 'r, 'e) world
     \<Rightarrow> ('m, 'q, 'd, 'r, 'e) world" where
  "upload_record sv now response w =
     w\<lparr> w_documents := ds_record (sv_documents sv) (to_document_record now response) (w_documents w) \<rparr>"

definition upload_document ::
  "ucd \<Rightarrow> (pystr \<Rightarrow> pystr option) \<Rightarrow> ('m, 'q, 'd, 'r, 'e) document_service \<Rightarrow> upload_ids \<Rightarrow> timestamp
     \<Rightarrow> workspace_context \<Rightarrow> pystr \<Rightarrow> pystr \<Rightarrow> bytes \<Rightarrow> pystr \<Rightarrow> ('m, 'q, 'd, 'r, 'e) world
     \<Rightarrow> document_metadata res \<times> ('m, 'q, 'd, 'r, 'e) world" where
  "upload_document U guess_type sv ids now ctx filename content_type data security_level w =
     (case upload_dispatch U guess_type sv ids ctx filename content_type data security_level w of
        (Inl e, w') \<Rightarrow> (Inl e, w')
      | (Inr response, w') \<Rightarrow> (Inr response, upload_record sv now response w'))"

section \<open>delete\_document and reindex\_document\<close>

definition document_not_found :: "pystr \<Rightarrow> exn" where
  "document_not_found document_id = DocumentNotFoundError (py ''Document not found: '' @ document_id)"

text \<open>The common beginning: the caller's document, which the caller's role may access.\<close>

definition accessible_document ::
  "'d doc_store \<Rightarrow> workspace_context \<Rightarrow> pystr \<Rightarrow> 'd \<Rightarrow> document_record res" where
  "accessible_document st ctx document_id d =
     (case ds_get st (wc_workspace_id ctx) document_id d of
        None \<Rightarrow> Inl (document_not_found document_id)
      | Some record \<Rightarrow>
          (case ensure_document_security_level_allowed (wc_role ctx) (dm_security_level record) of
             Inl e \<Rightarrow> Inl e
           | Inr _ \<Rightarrow> Inr record))"

record delete_response =
  dd_document_id :: pystr
  dd_workspace_id :: pystr
  dd_deleted :: bool

definition delete_document ::
  "('m, 'q, 'd, 'r, 'e) document_service \<Rightarrow> workspace_context \<Rightarrow> pystr \<Rightarrow> ('m, 'q, 'd, 'r, 'e) world
     \<Rightarrow> delete_response res \<times> ('m, 'q, 'd, 'r, 'e) world" where
  "delete_document sv ctx document_id w =
     (case accessible_document (sv_documents sv) ctx document_id (w_documents w) of
        Inl e \<Rightarrow> (Inl e, w)
      | Inr record \<Rightarrow>
     (case sv_delete_vectors sv (wc_workspace_id ctx) document_id (w_vectors w) of
        Inl e \<Rightarrow> (Inl e, w)
      | Inr q' \<Rightarrow>
          (let w1 = w\<lparr> w_vectors := q' \<rparr> in
           case ss_delete (sv_storage sv) (dm_storage_key record) (w_storage w1) of
             Inl e \<Rightarrow> (Inl e, w1)
           | Inr m' \<Rightarrow>
               (Inr \<lparr> dd_document_id = document_id, dd_workspace_id = wc_workspace_id ctx, dd_deleted = True \<rparr>,
                w1\<lparr> w_storage := m',
                  w_documents := snd (ds_delete (sv_documents sv) (wc_workspace_id ctx) document_id
                    (w_documents w1)) \<rparr>))))"

definition reindex_job ::
  "(pystr \<Rightarrow> pystr option) \<Rightarrow> pystr \<Rightarrow> workspace_context \<Rightarrow> pystr \<Rightarrow> document_record \<Rightarrow> index_job" where
  "reindex_job guess_type indexing_job_id ctx document_id record =
     \<lparr> job_id = indexing_job_id, job_workspace_id = wc_workspace_id ctx,
       job_workspace_name = wc_workspace_name ctx, job_document_id = document_id,
       job_filename = dm_filename record,
       job_content_type = guess_content_type guess_type (dm_filename record),
       job_storage_key = dm_storage_key record,
       job_uploaded_by_employee_id = dm_uploaded_by_employee_id record,
       job_security_level = dm_security_level record, job_attempt = 1, job_max_attempts = 3 \<rparr>"

definition reindexed_record ::
  "workspace_context \<Rightarrow> parsed_document \<Rightarrow> dispatch_result \<Rightarrow> document_record \<Rightarrow> document_record" where
  "reindexed_record ctx parsed dispatch record = record\<lparr>
     dm_workspace_name := wc_workspace_name ctx,
     dm_parser := pd_parser_name parsed,
     dm_character_count := pd_character_count parsed,
     dm_text_preview := pd_preview parsed,
     dm_indexing_job_id := dr_job_id dispatch,
     dm_indexing_status := status_str (dr_status dispatch),
     dm_indexing_error := dr_failure_reason dispatch,
     dm_chunk_count := dr_chunk_count dispatch \<rparr>"

definition reindex_document ::
  "(pystr \<Rightarrow> pystr option) \<Rightarrow> ('m, 'q, 'd, 'r, 'e) document_service \<Rightarrow> pystr \<Rightarrow> workspace_context \<Rightarrow> pystr
     \<Rightarrow> ('m, 'q, 'd, 'r, 'e) world \<Rightarrow> document_record res \<times> ('m, 'q, 'd, 'r, 'e) world" where
  "reindex_document guess_type sv indexing_job_id ctx document_id w =
     (case accessible_document (sv_documents sv) ctx document_id (w_documents w) of
        Inl e \<Rightarrow> (Inl e, w)
      | Inr record \<Rightarrow>
     (case ss_download (sv_storage sv) (dm_storage_key record) (w_storage w) of
        Inl e \<Rightarrow> (Inl e, w)
      | Inr data \<Rightarrow>
     (case validate_document_size (sv_max_document_bytes sv) data of
        Inl e \<Rightarrow> (Inl e, w)
      | Inr _ \<Rightarrow>
     (case sv_parse sv (dm_filename record) data of
        Inl e \<Rightarrow> (Inl e, w)
      | Inr parsed \<Rightarrow>
     (case sv_delete_vectors sv (wc_workspace_id ctx) document_id (w_vectors w) of
        Inl e \<Rightarrow> (Inl e, w)
      | Inr q' \<Rightarrow>
          (let (dispatch, w1) = sv_enqueue sv
                 (reindex_job guess_type indexing_job_id ctx document_id record)
                 (w\<lparr> w_vectors := q' \<rparr>);
               updated = reindexed_record ctx parsed dispatch record
           in (Inr updated, w1\<lparr> w_documents := ds_record (sv_documents sv) updated (w_documents w1) \<rparr>)))))))"

section \<open>The HTTP handlers\<close>

definition document_not_found_http :: "pystr \<Rightarrow> exn" where
  "document_not_found_http document_id = HTTPException 404 (py ''DOCUMENT_NOT_FOUND'')
     (py ''Document not found: '' @ document_id)"

definition documents_security_forbidden :: exn where
  "documents_security_forbidden = HTTPException 403 (py ''DOCUMENT_SECURITY_FORBIDDEN'')
     (py ''Document security level is not allowed for this role.'')"

definition document_processing_error :: "pystr \<Rightarrow> exn \<Rightarrow> exn" where
  "document_processing_error code exc =
     HTTPException (if code = py ''DOCUMENT_TOO_LARGE'' then 413 else 400) code (str_exn exc)"

text \<open>The \<open>except\<close> clauses of the handlers; \<open>document_id\<close> is absent for an upload.\<close>

definition documents_http_error :: "pystr option \<Rightarrow> exn \<Rightarrow> exn" where
  "documents_http_error document_id exc =
     (case (exc, document_id) of
        (DocumentNotFoundError m, Some i) \<Rightarrow> document_not_found_http i
      | (DocumentSecurityPermissionError m, _) \<Rightarrow> documents_security_forbidden
      | _ \<Rightarrow> (case processing_error_code exc of
          Some code \<Rightarrow> document_processing_error code exc
        | None \<Rightarrow> exc))"

definition upload_handler ::
  "ucd \<Rightarrow> (pystr \<Rightarrow> pystr option) \<Rightarrow> ('m, 'q, 'd, 'r, 'e) document_service \<Rightarrow> upload_ids \<Rightarrow> timestamp
     \<Rightarrow> workspace_context \<Rightarrow> pystr option \<Rightarrow> pystr option \<Rightarrow> bytes \<Rightarrow> pystr \<Rightarrow> ('m, 'q, 'd, 'r, 'e) world
     \<Rightarrow> document_metadata res \<times> ('m, 'q, 'd, 'r, 'e) world" where
  "upload_handler U guess_type sv ids now ctx filename content_type data security_level w =
     (case validate_document_security_level security_level of
        Inl e \<Rightarrow> (Inl (documents_http_error None e), w)
      | Inr validated \<Rightarrow>
     (case ensure_document_security_level_allowed (wc_role ctx) validated of
        Inl e \<Rightarrow> (Inl (documents_http_error None e), w)
      | Inr _ \<Rightarrow>
     (case upload_document U guess_type sv ids now ctx
          (if truthy filename then the filename else py ''document'')
          (if truthy content_type then the content_type else py ''application/octet-stream'')
          data validated w of
        (Inl e, w') \<Rightarrow> (Inl (documents_http_error None e), w')
      | (Inr response, w') \<Rightarrow> (Inr response, w'))))"

definition delete_handler ::
  "('m, 'q, 'd, 'r, 'e) document_service \<Rightarrow> workspace_context \<Rightarrow> pystr \<Rightarrow> ('m, 'q, 'd, 'r, 'e) world
     \<Rightarrow> delete_response res \<times> ('m, 'q, 'd, 'r, 'e) world" where
  "delete_handler sv ctx document_id w =
     (case delete_document sv ctx document_id w of
        (Inl (DocumentNotFoundError m), w') \<Rightarrow> (Inl (document_not_found_http document_id), w')
      | (Inl (DocumentSecurityPermissionError m), w') \<Rightarrow> (Inl documents_security_forbidden, w')
      | (r, w') \<Rightarrow> (r, w'))"

definition reindex_handler ::
  "(pystr \<Rightarrow> pystr option) \<Rightarrow> ('m, 'q, 'd, 'r, 'e) document_service \<Rightarrow> pystr \<Rightarrow> workspace_context \<Rightarrow> pystr
     \<Rightarrow> ('m, 'q, 'd, 'r, 'e) world \<Rightarrow> document_record res \<times> ('m, 'q, 'd, 'r, 'e) world" where
  "reindex_handler guess_type sv indexing_job_id ctx document_id w =
     (case reindex_document guess_type sv indexing_job_id ctx document_id w of
        (Inl e, w') \<Rightarrow> (Inl (documents_http_error (Some document_id) e), w')
      | (Inr updated, w') \<Rightarrow> (Inr updated, w'))"

text \<open>\<open>_is_document_visible\<close>: an invalid stored level raises, which ends the listing.\<close>

definition is_document_visible :: "workspace_context \<Rightarrow> document_record \<Rightarrow> bool res" where
  "is_document_visible ctx document =
     (case ensure_document_security_level_allowed (wc_role ctx) (dm_security_level document) of
        Inl (DocumentSecurityPermissionError m) \<Rightarrow> Inr False
      | Inl e \<Rightarrow> Inl e
      | Inr _ \<Rightarrow> Inr True)"

fun visible_documents :: "workspace_context \<Rightarrow> document_record list \<Rightarrow> document_record list res" where
  "visible_documents ctx [] = Inr []"
| "visible_documents ctx (d # ds) =
     (case is_document_visible ctx d of
        Inl e \<Rightarrow> Inl e
      | Inr visible \<Rightarrow>
          (case visible_documents ctx ds of
             Inl e \<Rightarrow> Inl e
           | Inr rest \<Rightarrow> Inr (if visible then d # rest else rest)))"

definition list_documents_handler ::
  "'d doc_store \<Rightarrow> workspace_context \<Rightarrow> int \<Rightarrow> 'd \<Rightarrow> (document_record list \<times> int) res" where
  "list_documents_handler st ctx limit d =
     (case visible_documents ctx (ds_list st (wc_workspace_id ctx) limit d) of
        Inl e \<Rightarrow> Inl e
      | Inr ds \<Rightarrow> Inr (ds, int (length ds)))"

section \<open>The configured service\<close>

text \<open>\<open>get_job_queue\<close> and \<open>get_document_service\<close>.\<close>

definition get_job_queue ::
  "settings \<Rightarrow> 'r redis \<Rightarrow> ('m, 'q) pipeline \<Rightarrow> 'e event_store option \<Rightarrow> index_job
     \<Rightarrow> ('m, 'q, 'd, 'r, 'e) world \<Rightarrow> dispatch_result \<times> ('m, 'q, 'd, 'r, 'e) world" where
  "get_job_queue s R p est =
     (if cfg_indexing_queue_backend s = py ''redis'' then redis_enqueue (create_redis_job_queue R s) est
      else inprocess_enqueue p est)"

interpretation app_queue: job_queue_frame "get_job_queue s R p est"
  for s :: settings and R :: "'r redis" and p :: "('m, 'q) pipeline" and est :: "'e event_store option"
  by (cases "cfg_indexing_queue_backend s = py ''redis''")
    (simp_all add: get_job_queue_def redisq.job_queue_frame_axioms inprocess.job_queue_frame_axioms)

definition get_document_service ::
  "settings \<Rightarrow> 'm minio \<Rightarrow> 'r redis \<Rightarrow> ('m, 'q) pipeline \<Rightarrow> 'q qdrant \<Rightarrow> vector_store
     \<Rightarrow> ('m, 'q, document_record list, 'r, mem_events) document_service" where
  "get_document_service s M R p Q v =
     \<lparr> sv_parse = pp_parse p, sv_storage = minio_storage M (cfg_minio_bucket s),
       sv_enqueue = get_job_queue s R p (Some mem_event_store),
       sv_documents = create_document_metadata_store s,
       sv_delete_vectors = vs_delete_document Q v,
       sv_max_document_bytes = cfg_document_max_bytes s \<rparr>"

end
