(* ===== verification/Worker.thy ===== *)
theory Worker
  imports Queues
begin

text \<open>
  \<open>jobs/worker.py\<close>: the indexing worker of the Redis queue. \<open>process_next\<close> takes one job and runs the
  pipeline; a failed job is queued again while it has attempts left. The log calls have no effect on
  the state and are left out.

  Lemmas: the status a job leaves behind on each path, and the accounting of the attempts, by which
  the worker empties the queue.
\<close>

section \<open>The worker\<close>

record ('m, 'q, 'd, 'r, 'e) worker =
  wk_queue :: "'r redis_queue"
  wk_pipeline :: "('m, 'q) pipeline"
  wk_documents :: "'d doc_store"
  wk_events :: "'e event_store option"

definition worker_event :: "pystr \<Rightarrow> severity \<Rightarrow> pystr \<Rightarrow> index_job \<Rightarrow> operation_event" where
  "worker_event event_type sev message job =
     \<lparr> ev_event_type = event_type, ev_severity = sev, ev_source = py ''indexing'', ev_message = message,
       ev_details = job_details job @ [(py ''attempt'', str_int (job_attempt job)),
         (py ''max_attempts'', str_int (job_max_attempts job))] \<rparr>"

definition update_document_status ::
  "('m, 'q, 'd, 'r, 'e) worker \<Rightarrow> index_job \<Rightarrow> job_status \<Rightarrow> pystr option \<Rightarrow> int option
     \<Rightarrow> ('m, 'q, 'd, 'r, 'e) world \<Rightarrow> ('m, 'q, 'd, 'r, 'e) world" where
  "update_document_status wk job status indexing_error chunk_count w =
     (case ds_get (wk_documents wk) (job_workspace_id job) (job_document_id job) (w_documents w) of
        None \<Rightarrow> record_optional (wk_events wk) (worker_event (py ''indexing.metadata_missing'') Warning
          (py ''Document metadata was not found for indexing job.'') job) w
      | Some record \<Rightarrow>
          (let updated = record\<lparr> dm_indexing_status := status_str status, dm_indexing_error := indexing_error,
             dm_chunk_count := (case chunk_count of None \<Rightarrow> dm_chunk_count record | Some n \<Rightarrow> n) \<rparr>
           in w\<lparr> w_documents := ds_record (wk_documents wk) updated (w_documents w) \<rparr>))"

definition handle_failure ::
  "('m, 'q, 'd, 'r, 'e) worker \<Rightarrow> index_job \<Rightarrow> exn \<Rightarrow> ('m, 'q, 'd, 'r, 'e) world
     \<Rightarrow> ('m, 'q, 'd, 'r, 'e) world" where
  "handle_failure wk job exc w =
     (let give_up = (\<lambda>failure_reason w.
            record_optional (wk_events wk) (worker_event (py ''indexing.failed'') Error
              (py ''Document indexing failed: '' @ failure_reason) job)
              (update_document_status wk job Failed (Some failure_reason) (Some 0) w));
          failure_reason = str_exn exc
      in if job_attempt job < job_max_attempts job
         then (let retry_job = job\<lparr> job_attempt := job_attempt job + 1 \<rparr>;
                   (dispatch, w1) = redis_enqueue (wk_queue wk) (wk_events wk) retry_job w
               in if dr_status dispatch = Queued
                  then record_optional (wk_events wk) (worker_event (py ''indexing.retry_scheduled'') Warning
                    (py ''Document indexing retry scheduled: '' @ failure_reason) retry_job)
                    (update_document_status wk job Queued (Some failure_reason) None w1)
                  else give_up (if truthy (dr_failure_reason dispatch)
                    then the (dr_failure_reason dispatch) else failure_reason) w1)
         else give_up failure_reason w)"

text \<open>The work on one job, after it was taken from the queue.\<close>

definition process_job ::
  "('m, 'q, 'd, 'r, 'e) worker \<Rightarrow> index_job \<Rightarrow> ('m, 'q, 'd, 'r, 'e) world
     \<Rightarrow> ('m, 'q, 'd, 'r, 'e) world" where
  "process_job wk job w =
     (let w1 = update_document_status wk job Processing None None w in
      case pipeline_run (wk_pipeline wk) job (w_storage w1) (w_vectors w1) of
        Inl exc \<Rightarrow> handle_failure wk job exc w1
      | Inr (result, q') \<Rightarrow>
          update_document_status wk job Completed None (Some (ir_chunk_count result))
            (w1\<lparr> w_vectors := q' \<rparr>))"

definition process_next ::
  "('m, 'q, 'd, 'r, 'e) worker \<Rightarrow> int \<Rightarrow> ('m, 'q, 'd, 'r, 'e) world
     \<Rightarrow> bool res \<times> ('m, 'q, 'd, 'r, 'e) world" where
  "process_next wk timeout_seconds w =
     (case redis_pop (wk_queue wk) timeout_seconds w of
        (Inl e, w') \<Rightarrow> (Inl e, w')
      | (Inr None, w') \<Rightarrow> (Inr False, w')
      | (Inr (Some job), w') \<Rightarrow> (Inr True, process_job wk job w'))"

text \<open>
  \<open>worker.main\<close> with the Redis backend: \<open>process_next\<close> again and again; an exception ends the
  process. \<open>n\<close> bounds the number of rounds that are observed.
\<close>

fun worker_loop ::
  "nat \<Rightarrow> ('m, 'q, 'd, 'r, 'e) worker \<Rightarrow> ('m, 'q, 'd, 'r, 'e) world \<Rightarrow> exn option \<times> ('m, 'q, 'd, 'r, 'e) world"
where
  "worker_loop 0 wk w = (None, w)"
| "worker_loop (Suc n) wk w =
     (case process_next wk 5 w of
        (Inl e, w') \<Rightarrow> (Some e, w')
      | (Inr _, w') \<Rightarrow> worker_loop n wk w')"

section \<open>Frame facts\<close>

lemma update_status_frame [simp]:
  "w_storage (update_document_status wk job st err cnt w) = w_storage w"
  "w_vectors (update_document_status wk job st err cnt w) = w_vectors w"
  "w_redis (update_document_status wk job st err cnt w) = w_redis w"
  by (simp_all add: update_document_status_def Let_def split: option.splits)

lemma redis_enqueue_vectors: "w_vectors (snd (redis_enqueue rq est job w)) = w_vectors w"
  by (auto simp: redis_enqueue_def Let_def split: sum.splits)

lemma handle_failure_frame [simp]:
  "w_storage (handle_failure wk job exc w) = w_storage w"
  "w_vectors (handle_failure wk job exc w) = w_vectors w"
  using redisq.enqueue_storage [of "wk_queue wk" "wk_events wk" "job\<lparr> job_attempt := job_attempt job + 1 \<rparr>" w]
    redis_enqueue_vectors [of "wk_queue wk" "wk_events wk" "job\<lparr> job_attempt := job_attempt job + 1 \<rparr>" w]
  by (auto simp: handle_failure_def Let_def split: prod.splits)

lemma queued_frame [simp]:
  "queued rq (update_document_status wk job st err cnt w) = queued rq w"
  "queued rq (record_optional est ev w) = queued rq w"
  "queued rq (w\<lparr> w_vectors := q \<rparr>) = queued rq w"
  by (simp_all add: queued_def)

text \<open>The queue after a job: a failed job with attempts left is queued again, once, if Redis takes it.\<close>

lemma handle_failure_queued:
  assumes "redis_ok (rq_client (wk_queue wk))"
  shows "queued (wk_queue wk) (handle_failure wk job exc w) = queued (wk_queue wk) w
    \<or> (job_attempt job < job_max_attempts job \<and>
       queued (wk_queue wk) (handle_failure wk job exc w) = queued (wk_queue wk) w @
         [serialize (job\<lparr> job_attempt := job_attempt job + 1, job_max_attempts := rq_max_attempts (wk_queue wk) \<rparr>)])"
proof (cases "job_attempt job < job_max_attempts job")
  case True
  let ?d = "redis_enqueue (wk_queue wk) (wk_events wk) (job\<lparr> job_attempt := job_attempt job + 1 \<rparr>) w"
  show ?thesis
  proof (cases "dr_status (fst ?d) = Queued")
    case q: True
    have "queued (wk_queue wk) (handle_failure wk job exc w) = queued (wk_queue wk) (snd ?d)"
      using True q by (auto simp: handle_failure_def Let_def split: prod.splits)
    with True q show ?thesis by (simp add: redis_enqueue_queued [OF assms])
  next
    case nq: False
    have "queued (wk_queue wk) (handle_failure wk job exc w) = queued (wk_queue wk) (snd ?d)"
      using True nq by (auto simp: handle_failure_def Let_def split: prod.splits)
    with nq show ?thesis by (simp add: redis_enqueue_queued [OF assms])
  qed
qed (simp add: handle_failure_def Let_def)

lemma process_job_queued:
  assumes "redis_ok (rq_client (wk_queue wk))"
  shows "queued (wk_queue wk) (process_job wk job w) = queued (wk_queue wk) w
    \<or> (job_attempt job < job_max_attempts job \<and>
       queued (wk_queue wk) (process_job wk job w) = queued (wk_queue wk) w @
         [serialize (job\<lparr> job_attempt := job_attempt job + 1, job_max_attempts := rq_max_attempts (wk_queue wk) \<rparr>)])"
  using handle_failure_queued [OF assms, of job _ "update_document_status wk job Processing None None w"]
  by (auto simp: process_job_def Let_def split: sum.splits)

section \<open>The status a job leaves behind\<close>

text \<open>\<open>_create_indexing_worker\<close>: the queue and the worker share one event store of the process.\<close>

definition create_indexing_worker ::
  "settings \<Rightarrow> 'r redis \<Rightarrow> ('m, 'q) pipeline
     \<Rightarrow> ('m, 'q, document_record list, 'r, mem_events) worker" where
  "create_indexing_worker s R p =
     \<lparr> wk_queue = create_redis_job_queue R s, wk_pipeline = p,
       wk_documents = create_document_metadata_store s, wk_events = Some mem_event_store \<rparr>"

locale indexing_worker = document_metadata_store "wk_documents wk" invar can_record
  for wk :: "('m, 'q, 'd, 'r, 'e) worker" and invar can_record
begin

lemma update_status_get:
  assumes "invar (w_documents w)"
    and "ds_get (wk_documents wk) (job_workspace_id job) (job_document_id job) (w_documents w) = Some d"
  shows "ds_get (wk_documents wk) w' i (w_documents (update_document_status wk job st err cnt w)) =
      (if (w', i) = (job_workspace_id job, job_document_id job)
       then Some (d\<lparr> dm_indexing_status := status_str st, dm_indexing_error := err,
          dm_chunk_count := (case cnt of None \<Rightarrow> dm_chunk_count d | Some n \<Rightarrow> n) \<rparr>)
       else ds_get (wk_documents wk) w' i (w_documents w))"
    and "invar (w_documents (update_document_status wk job st err cnt w))"
  using assms update_get [OF assms] record_invar
  by (simp_all add: update_document_status_def Let_def doc_key_def)

lemma update_status_missing:
  "ds_get (wk_documents wk) (job_workspace_id job) (job_document_id job) (w_documents w) = None \<Longrightarrow>
     w_documents (update_document_status wk job st err cnt w) = w_documents w"
  by (simp add: update_document_status_def)

lemma process_job_missing:
  assumes "ds_get (wk_documents wk) (job_workspace_id job) (job_document_id job) (w_documents w) = None"
  shows "w_documents (process_job wk job w) = w_documents w"
proof -
  have upd: "w_documents (update_document_status wk job st err cnt w2) = w_documents w"
    if "w_documents w2 = w_documents w" for st err cnt w2
    using update_status_missing [of job w2] that assms by simp
  have "w_documents (handle_failure wk job exc w2) = w_documents w"
    if w2: "w_documents w2 = w_documents w" for exc w2
  proof -
    let ?e = "redis_enqueue (wk_queue wk) (wk_events wk) (job\<lparr> job_attempt := job_attempt job + 1 \<rparr>) w2"
    have "w_documents (snd ?e) = w_documents w" by (simp add: redisq.enqueue_documents w2)
    with w2 show ?thesis
      by (auto simp: handle_failure_def Let_def upd split: prod.splits)
  qed
  then show ?thesis using upd by (simp add: process_job_def Let_def split: sum.splits prod.splits)
qed

lemma process_job_success:
  assumes "invar (w_documents w)"
    and "ds_get (wk_documents wk) (job_workspace_id job) (job_document_id job) (w_documents w) = Some d"
    and "pipeline_run (wk_pipeline wk) job (w_storage w) (w_vectors w) = Inr (result, q')"
  shows "ds_get (wk_documents wk) w' i (w_documents (process_job wk job w)) =
    (if (w', i) = (job_workspace_id job, job_document_id job)
     then Some (d\<lparr> dm_indexing_status := status_str Completed, dm_indexing_error := None,
        dm_chunk_count := ir_chunk_count result \<rparr>)
     else ds_get (wk_documents wk) w' i (w_documents w))"
    and "w_vectors (process_job wk job w) = q'"
proof -
  let ?w1 = "update_document_status wk job Processing None None w"
  let ?d1 = "d\<lparr> dm_indexing_status := status_str Processing, dm_indexing_error := None \<rparr>"
  have "ds_get (wk_documents wk) (job_workspace_id job) (job_document_id job)
      (w_documents (?w1\<lparr> w_vectors := q' \<rparr>)) = Some ?d1"
    using update_status_get(1) [OF assms(1,2)] by simp
  moreover have "invar (w_documents (?w1\<lparr> w_vectors := q' \<rparr>))" using update_status_get(2) [OF assms(1,2)] by simp
  ultimately show "ds_get (wk_documents wk) w' i (w_documents (process_job wk job w)) =
    (if (w', i) = (job_workspace_id job, job_document_id job)
     then Some (d\<lparr> dm_indexing_status := status_str Completed, dm_indexing_error := None,
        dm_chunk_count := ir_chunk_count result \<rparr>)
     else ds_get (wk_documents wk) w' i (w_documents w))"
    using update_status_get(1) [OF assms(1,2)] assms(3)
    by (simp add: process_job_def Let_def update_status_get(1))
  show "w_vectors (process_job wk job w) = q'" using assms(3) by (simp add: process_job_def Let_def)
qed

text \<open>The error a failed job leaves in the metadata, and its status.\<close>

definition failed_status :: "index_job \<Rightarrow> bool \<Rightarrow> document_record \<Rightarrow> exn \<Rightarrow> document_record \<Rightarrow> bool" where
  "failed_status job requeued d exc d' \<longleftrightarrow>
     (if requeued
      then d' = d\<lparr> dm_indexing_status := status_str Queued, dm_indexing_error := Some (str_exn exc) \<rparr>
      else \<exists>reason. d' = d\<lparr> dm_indexing_status := status_str Failed, dm_indexing_error := Some reason,
             dm_chunk_count := 0 \<rparr>)"

lemma process_job_failure:
  assumes "invar (w_documents w)"
    and "ds_get (wk_documents wk) (job_workspace_id job) (job_document_id job) (w_documents w) = Some d"
    and "pipeline_run (wk_pipeline wk) job (w_storage w) (w_vectors w) = Inl exc"
  shows "\<exists>requeued d'. (requeued \<longrightarrow> job_attempt job < job_max_attempts job)
    \<and> failed_status job requeued d exc d'
    \<and> ds_get (wk_documents wk) (job_workspace_id job) (job_document_id job)
        (w_documents (process_job wk job w)) = Some d'"
proof -
  let ?w1 = "update_document_status wk job Processing None None w"
  let ?d1 = "d\<lparr> dm_indexing_status := status_str Processing, dm_indexing_error := None \<rparr>"
  let ?rj = "job\<lparr> job_attempt := job_attempt job + 1 \<rparr>"
  let ?e = "redis_enqueue (wk_queue wk) (wk_events wk) ?rj ?w1"
  have g: "ds_get (wk_documents wk) (job_workspace_id job) (job_document_id job) (w_documents ?w1) = Some ?d1"
    and inv: "invar (w_documents ?w1)"
    using update_status_get [OF assms(1,2)] by simp_all
  have same: "w_documents (snd ?e) = w_documents ?w1" by (rule redisq.enqueue_documents)
  have upd: "ds_get (wk_documents wk) (job_workspace_id job) (job_document_id job)
      (w_documents (update_document_status wk job st err cnt w2)) =
      Some (d\<lparr> dm_indexing_status := status_str st, dm_indexing_error := err,
        dm_chunk_count := (case cnt of None \<Rightarrow> dm_chunk_count d | Some n \<Rightarrow> n) \<rparr>)"
    if "w_documents w2 = w_documents ?w1" for st err cnt w2
    using update_status_get(1) [of w2 job ?d1] that g inv by (cases cnt) simp_all
  have p: "process_job wk job w = handle_failure wk job exc ?w1"
    using assms(3) by (simp add: process_job_def Let_def)
  show ?thesis
  proof (cases "job_attempt job < job_max_attempts job \<and> dr_status (fst ?e) = Queued")
    case True
    then have "w_documents (process_job wk job w) =
        w_documents (update_document_status wk job Queued (Some (str_exn exc)) None (snd ?e))"
      unfolding p by (auto simp: handle_failure_def Let_def split: prod.splits)
    with upd [OF same] True show ?thesis
      by (intro exI [of _ True]) (simp add: failed_status_def)
  next
    case False
    have "\<exists>reason w2. w_documents w2 = w_documents ?w1 \<and> w_documents (process_job wk job w) =
        w_documents (update_document_status wk job Failed (Some reason) (Some 0) w2)"
    proof (cases "job_attempt job < job_max_attempts job")
      case True
      with False have "dr_status (fst ?e) \<noteq> Queued" by blast
      with True same show ?thesis unfolding p
        by (intro exI [of _ "if truthy (dr_failure_reason (fst ?e)) then the (dr_failure_reason (fst ?e))
            else str_exn exc"] exI [of _ "snd ?e"])
          (auto simp: handle_failure_def Let_def split: prod.splits)
    next
      case f: False
      then show ?thesis unfolding p
        by (intro exI [of _ "str_exn exc"] exI [of _ ?w1]) (simp add: handle_failure_def Let_def)
    qed
    then show ?thesis using upd by (intro exI [of _ False]) (auto simp: failed_status_def)
  qed
qed

end

interpretation app_worker: indexing_worker "create_indexing_worker s R p" "docs_invar s" "docs_can_record s"
  for s :: settings and R :: "'r redis" and p :: "('m, 'q) pipeline"
  by (simp add: indexing_worker_def create_indexing_worker_def app_docs.document_metadata_store_axioms)

section \<open>The attempts run out\<close>

definition job_ok :: "int \<Rightarrow> index_job \<Rightarrow> bool" where
  "job_ok N j \<longleftrightarrow> serializable j \<and> 1 \<le> job_attempt j \<and> job_attempt j \<le> N \<and> job_max_attempts j = N"

definition payload_ok :: "int \<Rightarrow> pystr \<Rightarrow> bool" where
  "payload_ok N p \<longleftrightarrow> (case deserialize p of Inl _ \<Rightarrow> False | Inr j \<Rightarrow> job_ok N j)"

definition attempts_left :: "int \<Rightarrow> pystr \<Rightarrow> nat" where
  "attempts_left N p = (case deserialize p of Inl _ \<Rightarrow> 0 | Inr j \<Rightarrow> nat (N - job_attempt j + 1))"

definition queue_ok :: "'r redis_queue \<Rightarrow> ('m, 'q, 'd, 'r, 'e) world \<Rightarrow> bool" where
  "queue_ok rq w \<longleftrightarrow> list_all (payload_ok (rq_max_attempts rq)) (queued rq w)"

definition pending_work :: "'r redis_queue \<Rightarrow> ('m, 'q, 'd, 'r, 'e) world \<Rightarrow> nat" where
  "pending_work rq w = sum_list (map (attempts_left (rq_max_attempts rq)) (queued rq w))"

lemma length_nat_digits: "0 < k \<Longrightarrow> n < 10 ^ k \<Longrightarrow> length (nat_digits n) \<le> k"
proof (induction n arbitrary: k rule: nat_digits.induct)
  case (1 n)
  show ?case
  proof (cases "n < 10")
    case False
    have d: "nat_digits n = nat_digits (n div 10) @ [48 + n mod 10]"
      using False by (subst nat_digits.simps) simp
    obtain k' where k: "k = Suc k'" using "1.prems" by (cases k) auto
    with False "1.prems" have "0 < k'" by (cases k') auto
    moreover have "n div 10 < 10 ^ k'" using "1.prems"(2) k by (simp add: less_mult_imp_div_less mult.commute)
    ultimately show ?thesis using "1.IH" False d k by simp
  qed (use 1 in simp)
qed

lemma length_str_int: "0 \<le> i \<Longrightarrow> i \<le> 10 ^ 100 \<Longrightarrow> length (str_int i) \<le> 4300"
proof -
  assume i: "0 \<le> i" "i \<le> 10 ^ 100"
  have "(10 :: int) ^ 100 < 10 ^ 101" by simp
  with i have "nat i < nat (10 ^ 101)" by linarith
  then have "nat i < 10 ^ 101" by (simp add: nat_power_eq)
  from length_nat_digits [OF _ this] i show "length (str_int i) \<le> 4300" by (simp add: str_int_def)
qed

lemma retry_job_read:
  assumes "job_ok N j" "N \<le> 10 ^ 100" "job_attempt j < N"
  defines "j' \<equiv> j\<lparr> job_attempt := job_attempt j + 1, job_max_attempts := N \<rparr>"
  shows "deserialize (serialize j') = Inr j'" and "job_ok N j'"
proof -
  have "serializable j'"
    using assms length_str_int [of "job_attempt j + 1"] length_str_int [of N]
    by (auto simp: job_ok_def serializable_def job_fields_def)
  with assms(1,3) show "deserialize (serialize j') = Inr j'" "job_ok N j'"
    by (simp_all add: deserialize_serialize job_ok_def j'_def)
qed

lemma retry_job_ok:
  assumes "job_ok N j" "N \<le> 10 ^ 100" "job_attempt j < N"
  shows "payload_ok N (serialize (j\<lparr> job_attempt := job_attempt j + 1, job_max_attempts := N \<rparr>))"
    and "attempts_left N (serialize (j\<lparr> job_attempt := job_attempt j + 1, job_max_attempts := N \<rparr>))
      = nat (N - job_attempt j)"
  using retry_job_read [OF assms] by (simp_all add: payload_ok_def attempts_left_def)

text \<open>Every job taken from the queue uses up one attempt.\<close>

lemma process_next_decreases:
  fixes wk :: "('m, 'q, 'd, 'r, 'e) worker"
  assumes R: "redis_ok (rq_client (wk_queue wk))" and N: "rq_max_attempts (wk_queue wk) \<le> 10 ^ 100"
    and ok: "queue_ok (wk_queue wk) w" and p: "process_next wk t w = (Inr b, w')"
  shows "queue_ok (wk_queue wk) w'"
    and "if b then pending_work (wk_queue wk) w' < pending_work (wk_queue wk) w
      else queued (wk_queue wk) w' = queued (wk_queue wk) w"
proof -
  let ?q = "wk_queue wk" and ?N = "rq_max_attempts (wk_queue wk)"
  obtain res w1 where pop: "redis_pop ?q t w = (res, w1)" by fastforce
  note law = redis_pop_queued [OF R pop]
  have "queue_ok ?q w' \<and> (if b then pending_work ?q w' < pending_work ?q w else queued ?q w' = queued ?q w)"
  proof (cases res)
    case (Inl e)
    with p pop show ?thesis by (simp add: process_next_def)
  next
    case (Inr jo)
    show ?thesis
    proof (cases jo)
      case None
      with Inr p pop have "b = False" "w' = w1" by (auto simp: process_next_def)
      with Inr None law ok show ?thesis by (simp add: queue_ok_def)
    next
      case (Some job)
      with Inr p pop have b: "b = True" and w': "w' = process_job wk job w1" by (auto simp: process_next_def)
      from law Inr Some obtain payload where
        q: "queued ?q w = queued ?q w1 @ [payload]" and d: "deserialize payload = Inr job" by auto
      from ok q d have job: "job_ok ?N job" and rest: "list_all (payload_ok ?N) (queued ?q w1)"
        by (auto simp: queue_ok_def payload_ok_def)
      have left: "attempts_left ?N payload = nat (?N - job_attempt job + 1)" by (simp add: attempts_left_def d)
      from process_job_queued [OF R, of job w1] show ?thesis
      proof
        assume same: "queued ?q (process_job wk job w1) = queued ?q w1"
        have "0 < attempts_left ?N payload" using left job by (simp add: job_ok_def)
        with same b w' q rest show ?thesis by (simp add: queue_ok_def pending_work_def)
      next
        let ?r = "serialize (job\<lparr> job_attempt := job_attempt job + 1, job_max_attempts := ?N \<rparr>)"
        assume a: "job_attempt job < job_max_attempts job \<and>
          queued ?q (process_job wk job w1) = queued ?q w1 @ [?r]"
        with job have lt: "job_attempt job < ?N" by (simp add: job_ok_def)
        note r = retry_job_ok [OF job N lt]
        have "attempts_left ?N ?r < attempts_left ?N payload" using r(2) left lt by simp
        with a r(1) b w' q rest show ?thesis by (simp add: queue_ok_def pending_work_def)
      qed
    qed
  qed
  then show "queue_ok ?q w'" "if b then pending_work ?q w' < pending_work ?q w else queued ?q w' = queued ?q w"
    by blast+
qed

text \<open>A Redis server that answers: \<open>BRPOP\<close> returns an element of a non-empty list, nothing otherwise.\<close>

definition redis_live :: "'r redis \<Rightarrow> bool" where
  "redis_live R \<longleftrightarrow> (\<forall>key t r. if rd_items R key r = [] then fst (rd_brpop R key t r) = Inr None
     else \<exists>x. fst (rd_brpop R key t r) = Inr (Some x))"

lemma process_next_live:
  assumes "redis_ok (rq_client (wk_queue wk))" "redis_live (rq_client (wk_queue wk))" "queue_ok (wk_queue wk) w"
  shows "\<exists>w'. process_next wk t w = (Inr (queued (wk_queue wk) w \<noteq> []), w')"
proof -
  let ?q = "wk_queue wk"
  obtain out r' where out: "rd_brpop (rq_client ?q) (rq_queue_key ?q) t (w_redis w) = (out, r')" by fastforce
  have b: "if queued ?q w = [] then out = Inr None else \<exists>x. out = Inr (Some x)"
    using assms(2) out unfolding redis_live_def queued_def by (metis fst_conv)
  show ?thesis
  proof (cases "queued ?q w = []")
    case True
    with b out show ?thesis by (simp add: process_next_def redis_pop_def)
  next
    case False
    with b out obtain x where x: "rd_brpop (rq_client ?q) (rq_queue_key ?q) t (w_redis w) = (Inr (Some x), r')" by auto
    with assms(1) have "queued ?q w = rd_items (rq_client ?q) (rq_queue_key ?q) r' @ [x]"
      unfolding redis_ok_def queued_def by (fastforce split: sum.splits option.splits)
    with assms(3) obtain j where "deserialize x = Inr j"
      by (auto simp: queue_ok_def payload_ok_def split: sum.splits)
    with x False show ?thesis by (simp add: process_next_def redis_pop_def)
  qed
qed

lemma pending_work_bound:
  assumes "queue_ok rq w"
  shows "pending_work rq w \<le> length (queued rq w) * nat (rq_max_attempts rq)"
proof -
  let ?N = "rq_max_attempts rq"
  have "list_all (payload_ok ?N) ps \<Longrightarrow> sum_list (map (attempts_left ?N) ps) \<le> length ps * nat ?N" for ps
  proof (induction ps)
    case (Cons x xs)
    have "attempts_left ?N x \<le> nat ?N"
      using Cons.prems by (auto simp: payload_ok_def attempts_left_def job_ok_def split: sum.splits)
    with Cons show ?case by simp
  qed simp
  with assms show ?thesis by (simp add: pending_work_def queue_ok_def)
qed

lemma worker_loop_drains:
  fixes wk :: "('m, 'q, 'd, 'r, 'e) worker"
  assumes R: "redis_ok (rq_client (wk_queue wk))" "redis_live (rq_client (wk_queue wk))"
    and N: "rq_max_attempts (wk_queue wk) \<le> 10 ^ 100"
  shows "queue_ok (wk_queue wk) w \<Longrightarrow> pending_work (wk_queue wk) w \<le> n \<Longrightarrow>
    fst (worker_loop n wk w) = None \<and> queued (wk_queue wk) (snd (worker_loop n wk w)) = []"
proof (induction n arbitrary: w)
  case 0
  have "queued (wk_queue wk) w = []"
  proof (rule ccontr)
    assume "queued (wk_queue wk) w \<noteq> []"
    then obtain x xs where x: "queued (wk_queue wk) w = x # xs" by (cases "queued (wk_queue wk) w") auto
    with 0 obtain j where "deserialize x = Inr j" "job_ok (rq_max_attempts (wk_queue wk)) j"
      by (auto simp: queue_ok_def payload_ok_def split: sum.splits)
    with x 0 show False by (simp add: pending_work_def attempts_left_def job_ok_def)
  qed
  then show ?case by simp
next
  case (Suc n)
  from process_next_live [OF R Suc.prems(1)] obtain w' where
    p: "process_next wk 5 w = (Inr (queued (wk_queue wk) w \<noteq> []), w')" by blast
  note d = process_next_decreases [OF R(1) N Suc.prems(1) p]
  have "pending_work (wk_queue wk) w' \<le> n"
  proof (cases "queued (wk_queue wk) w = []")
    case True
    with d(2) show ?thesis by (simp add: pending_work_def)
  next
    case False
    with d(2) Suc.prems(2) show ?thesis by simp
  qed
  with Suc.IH [OF d(1)] p show ?case by simp
qed

text \<open>
  The worker empties the queue. If Redis answers and every queued job is within its attempts, the
  loop has an empty queue after as many rounds as there are queued jobs times the attempt limit,
  and no exception ends it, whatever the pipeline does with the jobs.
\<close>

lemma worker_drains_queue:
  fixes wk :: "('m, 'q, 'd, 'r, 'e) worker"
  assumes "redis_ok (rq_client (wk_queue wk))" "redis_live (rq_client (wk_queue wk))"
    and "rq_max_attempts (wk_queue wk) \<le> 10 ^ 100" "queue_ok (wk_queue wk) w"
    and "length (queued (wk_queue wk) w) * nat (rq_max_attempts (wk_queue wk)) \<le> n"
  shows "fst (worker_loop n wk w) = None \<and> queued (wk_queue wk) (snd (worker_loop n wk w)) = []"
  using worker_loop_drains [OF assms(1-4)] pending_work_bound [OF assms(4)] assms(5) by simp

section \<open>Properties\<close>


section \<open>A sample worker\<close>

lemma list_redis_live: "redis_live list_redis"
  by (simp add: redis_live_def list_redis_def)

definition sample_record :: document_record where
  "sample_record = to_document_record 0
     \<lparr> dm_document_id = py ''d'', dm_workspace_id = py ''w'', dm_workspace_name = py ''W'',
       dm_uploaded_by_employee_id = None, dm_security_level = py ''internal'', dm_filename = py ''a.txt'',
       dm_parser = py ''text'', dm_character_count = 8, dm_text_preview = py ''ab cd ef'',
       dm_storage_key = py ''w/d/a.txt'', dm_indexing_job_id = py ''j1'', dm_indexing_status = py ''queued'',
       dm_indexing_error = None, dm_chunk_count = 0 \<rparr>"

definition sample_worker ::
  "(pystr \<rightharpoonup> bytes, point list, document_record list, pystr list, mem_events) worker" where
  "sample_worker = create_indexing_worker default_settings list_redis sample_pipeline"

definition sample_world ::
  "(pystr \<rightharpoonup> bytes) \<Rightarrow> pystr list \<Rightarrow> (pystr \<rightharpoonup> bytes, point list, document_record list, pystr list, mem_events) world" where
  "sample_world objects jobs = \<lparr> w_storage = objects, w_vectors = [], w_documents = [sample_record],
     w_redis = jobs, w_events = new_event_store 200 \<rparr>"

lemma sample_get: "ds_get (wk_documents sample_worker) (job_workspace_id sample_index_job)
    (job_document_id sample_index_job) (w_documents (sample_world objects jobs)) = Some sample_record"
  by (simp add: sample_worker_def create_indexing_worker_def create_document_metadata_store_def
      default_settings_def mem_doc_store_def mem_get_document_def sample_world_def sample_record_def
      to_document_record_def document_metadata.defs document_record.defs sample_index_job_def)

lemma sample_invar: "docs_invar default_settings (w_documents (sample_world objects jobs))"
  by (simp add: docs_invar_def default_settings_def sample_world_def mem_invar_def)


end
