(* ===== verification/Documents_Guarantees.thy ===== *)
theory Documents_Guarantees
  imports Documents Worker
begin

text \<open>
  What the document operations guarantee. The locale \<open>document_parts\<close> combines the contracts of the
  service's collaborators and is interpreted for the configured service; the properties state the
  effect of each operation on the metadata, the object store and the vector store, on every path.
\<close>

locale document_parts =
  docs: document_metadata_store "sv_documents sv" invar can_record +
  queue: job_queue_frame "sv_enqueue sv" +
  store: storage_service "sv_storage sv" objects ok
  for sv :: "('m, 'q, 'd, 'r, 'e) document_service" and invar can_record objects ok
begin

lemma upload_dispatch_Inr:
  assumes "upload_dispatch U g sv ids ctx rf rct data l w = (Inr response, w1)"
  obtains parsed key m' dispatch where
    "int (length data) \<le> sv_max_document_bytes sv"
    "sv_parse sv (normalize_filename rf) data = Inr parsed"
    "ss_upload (sv_storage sv) (wc_workspace_id ctx) (up_document_id ids) (normalize_filename rf)
       (normalize_content_type U g rct (normalize_filename rf)) data (w_storage w) = Inr (key, m')"
    "sv_enqueue sv (upload_job ids ctx (normalize_filename rf)
       (normalize_content_type U g rct (normalize_filename rf)) key l) (w\<lparr> w_storage := m' \<rparr>) = (dispatch, w1)"
    "response = upload_response ids ctx (normalize_filename rf) key l parsed dispatch"
  using assms
  by (auto simp: upload_dispatch_def Let_def validate_document_size_def split: sum.splits if_splits prod.splits)

lemma upload_dispatch_frame:
  assumes "upload_dispatch U g sv ids ctx rf rct data l w = (Inr response, w1)"
  shows "w_documents w1 = w_documents w"
    and "ok \<Longrightarrow> objects (w_storage w1) = (objects (w_storage w))(dm_storage_key response \<mapsto> data)"
    and "dm_indexing_job_id response = up_job_id ids"
    and "dm_workspace_id response = wc_workspace_id ctx" "dm_document_id response = up_document_id ids"
    and "dm_security_level response = l" "dm_filename response = normalize_filename rf"
    and "int (length data) \<le> sv_max_document_bytes sv"
proof -
  from assms obtain parsed key m' dispatch where
    size: "int (length data) \<le> sv_max_document_bytes sv"
    and up: "ss_upload (sv_storage sv) (wc_workspace_id ctx) (up_document_id ids) (normalize_filename rf)
       (normalize_content_type U g rct (normalize_filename rf)) data (w_storage w) = Inr (key, m')"
    and enq: "sv_enqueue sv (upload_job ids ctx (normalize_filename rf)
       (normalize_content_type U g rct (normalize_filename rf)) key l) (w\<lparr> w_storage := m' \<rparr>) = (dispatch, w1)"
    and r: "response = upload_response ids ctx (normalize_filename rf) key l parsed dispatch"
    by (rule upload_dispatch_Inr)
  let ?job = "upload_job ids ctx (normalize_filename rf)
       (normalize_content_type U g rct (normalize_filename rf)) key l"
  note f = queue.enqueue_documents [of ?job "w\<lparr> w_storage := m' \<rparr>"]
    queue.enqueue_storage [of ?job "w\<lparr> w_storage := m' \<rparr>"]
    queue.dispatch_id [of ?job "w\<lparr> w_storage := m' \<rparr>"]
  show "w_documents w1 = w_documents w" using f(1) enq by simp
  show "ok \<Longrightarrow> objects (w_storage w1) = (objects (w_storage w))(dm_storage_key response \<mapsto> data)"
    using f(2) enq store.upload_objects [OF _ up] r by (simp add: upload_response_def)
  show "dm_indexing_job_id response = up_job_id ids"
    using f(3) enq r by (simp add: upload_response_def upload_job_def)
  show "dm_workspace_id response = wc_workspace_id ctx" "dm_document_id response = up_document_id ids"
    "dm_security_level response = l" "dm_filename response = normalize_filename rf"
    by (simp_all add: r upload_response_def)
  show "int (length data) \<le> sv_max_document_bytes sv" by (rule size)
qed

lemma upload_error: "upload_document U g sv ids now ctx rf rct data l w = (Inl e, w') \<Longrightarrow> w' = w"
  by (auto simp: upload_document_def upload_dispatch_def Let_def split: sum.splits prod.splits if_splits)

lemma upload_ok:
  assumes "invar (w_documents w)" "\<And>v. ds_get (sv_documents sv) v (up_document_id ids) (w_documents w) = None"
    and "upload_document U g sv ids now ctx rf rct data l w = (Inr response, w')"
  shows "ds_get (sv_documents sv) v i (w_documents w') =
      (if (v, i) = (wc_workspace_id ctx, up_document_id ids) then Some (to_document_record now response)
       else ds_get (sv_documents sv) v i (w_documents w))"
    and "ok \<Longrightarrow> objects (w_storage w') = (objects (w_storage w))(dm_storage_key response \<mapsto> data)"
    and "invar (w_documents w')"
proof -
  from assms(3) obtain w1 where d: "upload_dispatch U g sv ids ctx rf rct data l w = (Inr response, w1)"
    and w': "w' = upload_record sv now response w1"
    by (auto simp: upload_document_def split: sum.splits prod.splits)
  note f = upload_dispatch_frame [OF d]
  let ?r = "to_document_record now response"
  have key: "dm_document_id ?r = up_document_id ids" "doc_key ?r = (wc_workspace_id ctx, up_document_id ids)"
    using f(4,5) by (simp_all add: to_document_record_def doc_key_def document_metadata.defs document_record.defs)
  have "can_record ?r (w_documents w)" using docs.can_create [OF assms(1), of ?r] assms(2) key by simp
  from docs.get_record [OF assms(1) this] key
  show "ds_get (sv_documents sv) v i (w_documents w') =
      (if (v, i) = (wc_workspace_id ctx, up_document_id ids) then Some ?r
       else ds_get (sv_documents sv) v i (w_documents w))"
    by (auto simp: w' upload_record_def f(1))
  show "ok \<Longrightarrow> objects (w_storage w') = (objects (w_storage w))(dm_storage_key response \<mapsto> data)"
    using f(2) by (simp add: w' upload_record_def)
  show "invar (w_documents w')" using docs.record_invar assms(1) by (simp add: w' upload_record_def f(1))
qed

lemma accessible_Inr:
  "accessible_document (sv_documents sv) ctx i d = Inr record \<longleftrightarrow>
     ds_get (sv_documents sv) (wc_workspace_id ctx) i d = Some record \<and>
     normalize_security_level (dm_security_level record) \<in> set (allowed_document_security_levels (wc_role ctx))"
  using ensure_allowed_iff [of "wc_role ctx" "dm_security_level record"]
  by (auto simp: accessible_document_def split: option.splits sum.splits)

lemma delete_ok:
  assumes "invar (w_documents w)" "delete_document sv ctx i w = (Inr response, w')"
  shows "\<exists>rec. accessible_document (sv_documents sv) ctx i (w_documents w) = Inr rec
    \<and> (\<forall>v j. ds_get (sv_documents sv) v j (w_documents w') =
        (if (v, j) = (wc_workspace_id ctx, i) then None else ds_get (sv_documents sv) v j (w_documents w)))
    \<and> sv_delete_vectors sv (wc_workspace_id ctx) i (w_vectors w) = Inr (w_vectors w')
    \<and> (ok \<longrightarrow> objects (w_storage w') = (objects (w_storage w))(dm_storage_key rec := None))"
proof -
  from assms(2) obtain rec q' m' where
    a: "accessible_document (sv_documents sv) ctx i (w_documents w) = Inr rec"
    and v: "sv_delete_vectors sv (wc_workspace_id ctx) i (w_vectors w) = Inr q'"
    and m: "ss_delete (sv_storage sv) (dm_storage_key rec) (w_storage w) = Inr m'"
    and w': "w' = w\<lparr> w_vectors := q', w_storage := m',
       w_documents := snd (ds_delete (sv_documents sv) (wc_workspace_id ctx) i (w_documents w)) \<rparr>"
    by (auto simp: delete_document_def Let_def split: sum.splits)
  with docs.get_delete [OF assms(1)] store.delete_objects [OF _ m] show ?thesis by simp
qed

lemma delete_error_documents:
  "delete_document sv ctx i w = (Inl e, w') \<Longrightarrow> w_documents w' = w_documents w \<and> w_storage w' = w_storage w"
  by (auto simp: delete_document_def Let_def split: sum.splits)

lemma reindex_ok:
  assumes "invar (w_documents w)" "reindex_document g sv jid ctx i w = (Inr updated, w')"
  shows "\<exists>rec parsed dispatch q1.
      accessible_document (sv_documents sv) ctx i (w_documents w) = Inr rec
    \<and> updated = reindexed_record ctx parsed dispatch rec
    \<and> sv_delete_vectors sv (wc_workspace_id ctx) i (w_vectors w) = Inr q1
    \<and> fst (sv_enqueue sv (reindex_job g jid ctx i rec) (w\<lparr> w_vectors := q1 \<rparr>)) = dispatch
    \<and> w_vectors w' = w_vectors (snd (sv_enqueue sv (reindex_job g jid ctx i rec) (w\<lparr> w_vectors := q1 \<rparr>)))
    \<and> w_storage w' = w_storage w
    \<and> (\<forall>v j. ds_get (sv_documents sv) v j (w_documents w') =
        (if (v, j) = (wc_workspace_id ctx, i) then Some updated else ds_get (sv_documents sv) v j (w_documents w)))"
proof -
  from assms(2) obtain rec data parsed q1 dispatch w1 where
    a: "accessible_document (sv_documents sv) ctx i (w_documents w) = Inr rec"
    and v: "sv_delete_vectors sv (wc_workspace_id ctx) i (w_vectors w) = Inr q1"
    and e: "sv_enqueue sv (reindex_job g jid ctx i rec) (w\<lparr> w_vectors := q1 \<rparr>) = (dispatch, w1)"
    and u: "updated = reindexed_record ctx parsed dispatch rec"
    and w': "w' = w1\<lparr> w_documents := ds_record (sv_documents sv) updated (w_documents w1) \<rparr>"
    by (auto simp: reindex_document_def Let_def split: sum.splits prod.splits)
  note f = queue.enqueue_documents [of "reindex_job g jid ctx i rec" "w\<lparr> w_vectors := q1 \<rparr>"]
    queue.enqueue_storage [of "reindex_job g jid ctx i rec" "w\<lparr> w_vectors := q1 \<rparr>"]
  have g: "ds_get (sv_documents sv) (wc_workspace_id ctx) i (w_documents w) = Some rec"
    using a by (simp add: accessible_Inr)
  have "doc_key updated = doc_key rec" by (simp add: u reindexed_record_def doc_key_def)
  from docs.update_get [OF assms(1) g this] f e a v u w' show ?thesis
    by (intro exI [of _ rec] exI [of _ parsed] exI [of _ dispatch] exI [of _ q1]) simp
qed

lemma reindex_error: "reindex_document g sv jid ctx i w = (Inl e, w') \<Longrightarrow> w' = w"
  by (auto simp: reindex_document_def Let_def split: sum.splits prod.splits)

end

interpretation app_documents: document_parts "get_document_service s M R p Q v" "docs_invar s" "docs_can_record s"
  "mi_objects M (cfg_minio_bucket s)" "minio_ok M"
  for s :: settings and M :: "'m minio" and R :: "'r redis" and p :: "('m, 'q) pipeline"
    and Q :: "'q qdrant" and v :: vector_store
  by (simp add: document_parts_def get_document_service_def app_docs.document_metadata_store_axioms
      app_queue.job_queue_frame_axioms minio.storage_service_axioms)

section \<open>The handlers and the service\<close>

lemma upload_handler_Inr:
  assumes "upload_handler U g sv ids now ctx fn ct data l w = (Inr response, w')"
  obtains rf rct where
    "normalize_security_level l \<in> set (allowed_document_security_levels (wc_role ctx))"
    "upload_document U g sv ids now ctx rf rct data (normalize_security_level l) w = (Inr response, w')"
proof -
  from assms obtain u rf rct where v: "validate_document_security_level l = Inr (normalize_security_level l)"
    and e: "ensure_document_security_level_allowed (wc_role ctx) (normalize_security_level l) = Inr u"
    and up: "upload_document U g sv ids now ctx rf rct data (normalize_security_level l) w = (Inr response, w')"
    by (auto simp: upload_handler_def validate_level_Inr_iff split: sum.splits prod.splits)
  from v have "normalize_security_level (normalize_security_level l) = normalize_security_level l"
    by (simp add: validate_level_Inr_iff normalize_supported)
  with e have "normalize_security_level l \<in> set (allowed_document_security_levels (wc_role ctx))"
    using ensure_allowed_iff [of "wc_role ctx" "normalize_security_level l"] by (cases u) simp
  with up that show ?thesis by blast
qed

section \<open>Properties\<close>

text \<open>
  C14: a successful upload. The level is one the caller's role may use and the file is within the size
  limit; afterwards the caller's workspace holds the new document's metadata as returned, the
  object store holds the file's bytes under its key, and every other document is as before. For a
  fresh document identifier, with either metadata store and either queue.
\<close>

theorem upload_effect:
  assumes "docs_invar s (w_documents w)" "minio_ok M"
    and "sv = get_document_service s M R p Q v"
    and "\<And>u. ds_get (sv_documents sv) u (up_document_id ids) (w_documents w) = None"
    and "upload_handler U g sv ids now ctx fn ct data l w = (Inr response, w')"
  shows "dm_security_level response \<in> set (allowed_document_security_levels (wc_role ctx))
    \<and> int (length data) \<le> cfg_document_max_bytes s
    \<and> dm_workspace_id response = wc_workspace_id ctx \<and> dm_document_id response = up_document_id ids
    \<and> dm_filename response \<noteq> [] \<and> 47 \<notin> set (dm_filename response)
    \<and> (\<forall>u i. ds_get (sv_documents sv) u i (w_documents w') =
        (if (u, i) = (wc_workspace_id ctx, up_document_id ids) then Some (to_document_record now response)
         else ds_get (sv_documents sv) u i (w_documents w)))
    \<and> mi_objects M (cfg_minio_bucket s) (w_storage w') =
        (mi_objects M (cfg_minio_bucket s) (w_storage w))(dm_storage_key response \<mapsto> data)"
proof -
  from assms(5) obtain rf rct where
    allowed: "normalize_security_level l \<in> set (allowed_document_security_levels (wc_role ctx))"
    and up: "upload_document U g sv ids now ctx rf rct data (normalize_security_level l) w = (Inr response, w')"
    by (rule upload_handler_Inr)
  from up obtain w1 where
    d: "upload_dispatch U g sv ids ctx rf rct data (normalize_security_level l) w = (Inr response, w1)"
    by (auto simp: upload_document_def split: sum.splits prod.splits)
  note f = app_documents.upload_dispatch_frame [OF d [unfolded assms(3)]]
  have max: "sv_max_document_bytes (get_document_service s M R p Q v) = cfg_document_max_bytes s"
    by (simp add: get_document_service_def)
  from app_documents.upload_ok [OF assms(1) assms(4) [unfolded assms(3)] up [unfolded assms(3)]]
    f allowed assms(2) normalize_filename_facts [of rf] max show ?thesis
    unfolding assms(3) by auto
qed


text \<open>
  C16: deletion. After a successful deletion the document's metadata, its stored object and all its
  points in the vector database are gone, and the metadata and points of every other document are
  as before; the caller's role may access the document's level.
\<close>

theorem delete_effect:
  assumes "docs_invar s (w_documents w)" "minio_ok M" "qdrant_writes_ok Q"
    and "sv = get_document_service s M R p Q v"
    and "delete_handler sv ctx i w = (Inr response, w')"
  shows "\<exists>d. ds_get (sv_documents sv) (wc_workspace_id ctx) i (w_documents w) = Some d
    \<and> normalize_security_level (dm_security_level d) \<in> set (allowed_document_security_levels (wc_role ctx))
    \<and> (\<forall>u j. ds_get (sv_documents sv) u j (w_documents w') =
        (if (u, j) = (wc_workspace_id ctx, i) then None else ds_get (sv_documents sv) u j (w_documents w)))
    \<and> mi_objects M (cfg_minio_bucket s) (w_storage w') =
        (mi_objects M (cfg_minio_bucket s) (w_storage w))(dm_storage_key d := None)
    \<and> set (qd_points Q (vs_collection_name v) (w_vectors w')) =
        {p \<in> set (qd_points Q (vs_collection_name v) (w_vectors w)).
           (pl_workspace_id (pt_payload p), pl_document_id (pt_payload p)) \<noteq> (wc_workspace_id ctx, i)}"
proof -
  from assms(5) have del: "delete_document (get_document_service s M R p Q v) ctx i w = (Inr response, w')"
    by (auto simp: delete_handler_def assms(4) split: sum.splits prod.splits exn.splits)
  from app_documents.delete_ok [OF assms(1) del] obtain d where
    a: "accessible_document (sv_documents sv) ctx i (w_documents w) = Inr d"
    and docs: "\<forall>u j. ds_get (sv_documents sv) u j (w_documents w') =
        (if (u, j) = (wc_workspace_id ctx, i) then None else ds_get (sv_documents sv) u j (w_documents w))"
    and vec: "sv_delete_vectors sv (wc_workspace_id ctx) i (w_vectors w) = Inr (w_vectors w')"
    and obj: "mi_objects M (cfg_minio_bucket s) (w_storage w') =
        (mi_objects M (cfg_minio_bucket s) (w_storage w))(dm_storage_key d := None)"
    using assms(2) unfolding assms(4) by blast
  from vec have "vs_delete_document Q v (wc_workspace_id ctx) i (w_vectors w) = Inr (w_vectors w')"
    by (simp add: assms(4) get_document_service_def)
  from vs_delete_document_points [OF assms(3) this] docs obj
    a [unfolded assms(4) app_documents.accessible_Inr, folded assms(4)]
  show ?thesis by (intro exI [of _ d]) auto
qed

text \<open>
  C17: nobody deletes or re-indexes a document of another workspace or above the own role. A document
  the caller's workspace does not have is reported missing, one whose level the role may not access
  is forbidden, and neither request changes any state.
\<close>

theorem document_access_denied:
  "case ds_get (sv_documents sv) (wc_workspace_id ctx) i (w_documents w) of
     None \<Rightarrow> delete_handler sv ctx i w = (Inl (document_not_found_http i), w)
       \<and> reindex_handler g sv jid ctx i w = (Inl (document_not_found_http i), w)
   | Some d \<Rightarrow>
       if normalize_security_level (dm_security_level d)
          \<in> set SUPPORTED_DOCUMENT_SECURITY_LEVELS - set (allowed_document_security_levels (wc_role ctx))
       then delete_handler sv ctx i w = (Inl documents_security_forbidden, w)
         \<and> reindex_handler g sv jid ctx i w = (Inl documents_security_forbidden, w)
       else True"
proof (cases "ds_get (sv_documents sv) (wc_workspace_id ctx) i (w_documents w)")
  case None
  then show ?thesis
    by (simp add: delete_handler_def reindex_handler_def delete_document_def reindex_document_def
        accessible_document_def document_not_found_def documents_http_error_def)
next
  case (Some d)
  show ?thesis
  proof (cases "normalize_security_level (dm_security_level d) \<in> set SUPPORTED_DOCUMENT_SECURITY_LEVELS
      \<and> normalize_security_level (dm_security_level d) \<notin> set (allowed_document_security_levels (wc_role ctx))")
    case True
    then obtain m where "ensure_document_security_level_allowed (wc_role ctx) (dm_security_level d) =
        Inl (DocumentSecurityPermissionError m)"
      by (auto simp: ensure_document_security_level_allowed_def validate_document_security_level_def Let_def)
    with Some show ?thesis
      by (simp add: delete_handler_def reindex_handler_def delete_document_def reindex_document_def
          accessible_document_def documents_http_error_def)
  next
    case False
    with Some show ?thesis by auto
  qed
qed

text \<open>
  C18: the listing. If every listed document has a supported level, the response holds exactly the
  documents of the caller's workspace among the newest \<open>limit\<close> whose level the caller's role may
  access, in the order of the store, with their number; an unsupported stored level fails the request.
\<close>

theorem listing_shows_accessible_documents:
  "list_documents_handler st ctx limit d =
     (let ds = ds_list st (wc_workspace_id ctx) limit d;
          accessible = filter (\<lambda>x. normalize_security_level (dm_security_level x)
            \<in> set (allowed_document_security_levels (wc_role ctx))) ds
      in if list_all (\<lambda>x. normalize_security_level (dm_security_level x) \<in> set SUPPORTED_DOCUMENT_SECURITY_LEVELS) ds
         then Inr (accessible, int (length accessible)) else Inl invalid_security_level)"
proof -
  have visible: "is_document_visible ctx x =
      (if normalize_security_level (dm_security_level x) \<in> set SUPPORTED_DOCUMENT_SECURITY_LEVELS
       then Inr (normalize_security_level (dm_security_level x) \<in> set (allowed_document_security_levels (wc_role ctx)))
       else Inl invalid_security_level)" for x
    by (auto simp: is_document_visible_def ensure_document_security_level_allowed_def
        validate_document_security_level_def Let_def invalid_security_level_def)
  have "visible_documents ctx ds =
      (if list_all (\<lambda>x. normalize_security_level (dm_security_level x) \<in> set SUPPORTED_DOCUMENT_SECURITY_LEVELS) ds
       then Inr (filter (\<lambda>x. normalize_security_level (dm_security_level x)
            \<in> set (allowed_document_security_levels (wc_role ctx))) ds)
       else Inl invalid_security_level)" for ds
    by (induction ds) (simp_all add: visible)
  then show ?thesis by (simp add: list_documents_handler_def Let_def)
qed


section \<open>A sample run\<close>

definition sample_member :: workspace_context where
  "sample_member = \<lparr> wc_request_id = py ''r'', wc_workspace_id = py ''w'', wc_workspace_name = py ''W'',
     wc_role = MEMBER_ROLE, wc_employee_id = None, wc_display_name = None \<rparr>"

definition sample_collection :: vector_store where
  "sample_collection = \<lparr> vs_collection_name = py ''c'', vs_vector_size = 1 \<rparr>"

definition sample_documents ::
  "settings \<Rightarrow> (pystr \<rightharpoonup> bytes, point list, document_record list, pystr list, mem_events) document_service" where
  "sample_documents s = get_document_service s map_minio list_redis sample_pipeline list_qdrant sample_collection"

definition sample_empty_world ::
  "(pystr \<rightharpoonup> bytes, point list, document_record list, pystr list, mem_events) world" where
  "sample_empty_world = \<lparr> w_storage = (\<lambda>_. None), w_vectors = [], w_documents = [], w_redis = [],
     w_events = new_event_store 200 \<rparr>"

definition sample_upload_ids :: upload_ids where
  "sample_upload_ids = \<lparr> up_document_id = py ''d'', up_job_id = py ''j1'' \<rparr>"

definition sample_upload where
  "sample_upload = upload_handler ascii_ucd (\<lambda>_. None) (sample_documents default_settings) sample_upload_ids 0
     sample_member (Some (py ''a.txt'')) None (py ''ab cd ef'') (py ''internal'') sample_empty_world"

lemma sample_upload_result:
  "map_prod (map_sum (\<lambda>_. ()) (\<lambda>r. (dm_indexing_status r, dm_chunk_count r, dm_storage_key r)))
     (\<lambda>w. length (w_vectors w)) sample_upload
     = (Inr (py ''completed'', 3, py ''w/d/a.txt''), 3)"
  by code_simp

lemma sample_empty: "ds_get (sv_documents (sample_documents s)) u i (w_documents sample_empty_world) = None"
  by (simp add: sample_documents_def get_document_service_def create_document_metadata_store_def
      sample_empty_world_def mem_doc_store_def mem_get_document_def pg_doc_store_def pg_get_document_def)

lemma sample_empty_invar: "docs_invar s (w_documents sample_empty_world)"
  by (simp add: sample_empty_world_def)

theorem upload_effect_witness:
  "\<exists>response w'. sample_upload = (Inr response, w')
     \<and> w_storage w' (py ''w/d/a.txt'') = Some (py ''ab cd ef'')
     \<and> ds_get (sv_documents (sample_documents default_settings)) (py ''w'') (py ''d'') (w_documents w')
         = Some (to_document_record 0 response)"
proof -
  from summary_Inr [OF sample_upload_result] obtain response w' where run: "sample_upload = (Inr response, w')"
    and key: "dm_storage_key response = py ''w/d/a.txt''" by auto
  from upload_effect [OF sample_empty_invar map_minio_ok sample_documents_def sample_empty run [unfolded sample_upload_def]]
    key have "w_storage w' = [py ''w/d/a.txt'' \<mapsto> py ''ab cd ef'']"
      "ds_get (sv_documents (sample_documents default_settings)) (py ''w'') (py ''d'') (w_documents w')
         = Some (to_document_record 0 response)"
    by (simp_all add: map_minio_def sample_member_def sample_upload_ids_def sample_empty_world_def)
  with run show ?thesis by (intro exI [of _ response] exI [of _ w']) simp
qed

definition sample_delete where
  "sample_delete = delete_handler (sample_documents default_settings) sample_member (py ''d'')
     (snd sample_upload)"

lemma sample_delete_result: "map_prod (map_sum (\<lambda>_. ()) dd_deleted) (\<lambda>w. length (w_vectors w)) sample_delete = (Inr True, 0)"
  by code_simp

lemma sample_upload_invar: "docs_invar default_settings (w_documents (snd sample_upload))"
proof -
  from summary_Inr [OF sample_upload_result] obtain response w' where run: "sample_upload = (Inr response, w')" by auto
  then obtain rf rct where "upload_document ascii_ucd (\<lambda>_. None) (sample_documents default_settings)
      sample_upload_ids 0 sample_member rf rct (py ''ab cd ef'') (normalize_security_level (py ''internal''))
      sample_empty_world = (Inr response, w')"
    unfolding sample_upload_def by (rule upload_handler_Inr)
  from app_documents.upload_ok(3) [OF sample_empty_invar sample_empty [unfolded sample_documents_def]
    this [unfolded sample_documents_def]] show ?thesis unfolding run by simp
qed

theorem delete_effect_witness:
  "\<exists>response w'. sample_delete = (Inr response, w') \<and> w_storage w' (py ''w/d/a.txt'') = None
     \<and> ds_get (sv_documents (sample_documents default_settings)) (py ''w'') (py ''d'') (w_documents w') = None"
proof -
  from summary_Inr [OF sample_delete_result] obtain response w' where run: "sample_delete = (Inr response, w')" by auto
  from delete_effect [OF sample_upload_invar map_minio_ok list_qdrant_writes sample_documents_def run [unfolded sample_delete_def]]
  obtain d where d: "ds_get (sv_documents (sample_documents default_settings)) (py ''w'') (py ''d'')
      (w_documents (snd sample_upload)) = Some d"
    and w': "w_storage w' = (w_storage (snd sample_upload))(dm_storage_key d := None)"
      "ds_get (sv_documents (sample_documents default_settings)) (py ''w'') (py ''d'') (w_documents w') = None"
    by (auto simp: sample_member_def map_minio_def)
  have "map_option dm_storage_key (ds_get (sv_documents (sample_documents default_settings)) (py ''w'') (py ''d'')
      (w_documents (snd sample_upload))) = Some (py ''w/d/a.txt'')" by code_simp
  with d have "dm_storage_key d = py ''w/d/a.txt''" by simp
  with w' run show ?thesis by (intro exI [of _ response] exI [of _ w']) simp
qed

definition redis_settings :: settings where
  "redis_settings = default_settings\<lparr> cfg_indexing_queue_backend := py ''redis'' \<rparr>"

definition sample_dispatch where
  "sample_dispatch = upload_dispatch ascii_ucd (\<lambda>_. None) (sample_documents redis_settings) sample_upload_ids
     sample_member (py ''a.txt'') [] (py ''ab cd ef'') (py ''internal'') sample_empty_world"

lemma sample_dispatch_result:
  "map_prod (map_sum (\<lambda>_. ()) dm_indexing_status) (\<lambda>w. length (w_redis w)) sample_dispatch = (Inr (py ''queued''), 1)"
  by code_simp


end
