(* ===== verification/Search.thy ===== *)
theory Search
  imports Chat_Guarantees
begin

text \<open>
  \<open>search/models.py\<close> and \<open>search/router.py\<close>: the request and response models and the handler of
  \<open>POST /v1/search\<close>, which retrieves through the same retrievers as the chat and returns the chunks
  as they come. The results rest on the interpretation \<open>built\<close> of the locale \<open>retriever\<close>.
\<close>

section \<open>Models\<close>

record search_request =
  sq_query :: pystr
  sq_document_ids :: "pystr list option"
  sq_security_levels :: "pystr list option"
  sq_limit :: int

definition valid_search_request :: "search_request \<Rightarrow> bool" where
  "valid_search_request r \<longleftrightarrow> 1 \<le> length (sq_query r) \<and> length (sq_query r) \<le> 4000
     \<and> 1 \<le> sq_limit r \<and> sq_limit r \<le> 20"

record search_result_chunk =
  sc_document_id :: pystr
  sc_filename :: pystr
  sc_parser :: pystr
  sc_security_level :: pystr
  sc_chunk_index :: int
  sc_score :: pyfloat
  sc_snippet :: pystr

record search_response =
  sp_query :: pystr
  sp_total :: int
  sp_results :: "search_result_chunk list"

section \<open>The handler\<close>

definition search_result :: "retrieved_chunk \<Rightarrow> search_result_chunk" where
  "search_result c = \<lparr> sc_document_id = ch_document_id c, sc_filename = ch_filename c,
     sc_parser = ch_parser c, sc_security_level = ch_security_level c,
     sc_chunk_index = ch_chunk_index c, sc_score = ch_score c, sc_snippet = ch_chunk_text c \<rparr>"

fun search_http_error :: "exn \<Rightarrow> exn" where
  "search_http_error (EmbeddingProviderError m) = HTTPException 502 (py ''SEARCH_EMBEDDING_UNAVAILABLE'') m"
| "search_http_error e = e"

fun search_filter_error :: "exn \<Rightarrow> exn" where
  "search_filter_error (DocumentSecurityPermissionError m) = document_security_forbidden"
| "search_filter_error e = e"

definition search_documents ::
  "(pystr \<Rightarrow> retrieval_filter \<Rightarrow> int \<Rightarrow> retrieved_chunk list res) \<Rightarrow> workspace_context \<Rightarrow> search_request
     \<Rightarrow> search_response res" where
  "search_documents retrieve ctx r =
     (case filter_document_security_levels_for_role (wc_role ctx) (sq_security_levels r) of
        Inl e \<Rightarrow> Inl (search_filter_error e)
      | Inr security_levels \<Rightarrow>
          (case retrieve (sq_query r) \<lparr> rf_workspace_id = wc_workspace_id ctx,
               rf_document_ids = sq_document_ids r, rf_security_levels = security_levels \<rparr> (sq_limit r) of
             Inl e \<Rightarrow> Inl (search_http_error e)
           | Inr chunks \<Rightarrow>
               (let results = map search_result chunks in
                Inr \<lparr> sp_query = sq_query r, sp_total = int (length results), sp_results = results \<rparr>)))"

lemma search_documents_Inr:
  assumes "search_documents retrieve ctx r = Inr response"
  obtains levels chunks where
    "filter_document_security_levels_for_role (wc_role ctx) (sq_security_levels r) = Inr levels"
    "retrieve (sq_query r) \<lparr> rf_workspace_id = wc_workspace_id ctx,
       rf_document_ids = sq_document_ids r, rf_security_levels = levels \<rparr> (sq_limit r) = Inr chunks"
    "response = \<lparr> sp_query = sq_query r, sp_total = int (length chunks), sp_results = map search_result chunks \<rparr>"
  using assms by (auto simp: search_documents_def Let_def split: sum.splits)

section \<open>Properties\<close>


definition sample_search :: search_request where
  "sample_search = \<lparr> sq_query = py ''capital?'', sq_document_ids = None,
     sq_security_levels = Some [py '' internal ''], sq_limit = 5 \<rparr>"


end
