(* ===== verification/Web.thy ===== *)
theory Web
  imports PyStr
begin

text \<open>
  HTTP requests and responses as the middleware of the backend sees them, and two of its three
  middlewares: \<open>middleware/request_context.py\<close> and \<open>middleware/security_headers.py\<close>. Starlette itself is
  not modelled: an application is a function from a request and a state to a response (or an
  exception) and the new state, and a middleware turns an application into an application, as
  \<open>dispatch(request, call_next)\<close> does.

  Header names are the lower-case names of the ASGI interface, which Starlette compares without
  case.
\<close>

section \<open>Requests, responses, state\<close>

record request =
  wr_method :: pystr
  wr_path :: pystr
  wr_headers :: "(pystr \<times> pystr) list"
  wr_client :: "pystr option"

definition header :: "string \<Rightarrow> request \<Rightarrow> pystr option" where
  "header name r = map_of (wr_headers r) (py name)"

text \<open>A body is the error detail \<open>{"detail": {"code", "message"}}\<close> or what a handler returned.\<close>

datatype 'b body = Detail pystr pystr | Content 'b

record 'b response =
  wp_status :: int
  wp_headers :: "(pystr \<times> pystr) list"
  wp_body :: "'b body"

text \<open>\<open>response.headers[name] = value\<close>: replaces the first header of that name and drops the others.\<close>

fun set_header_list :: "pystr \<Rightarrow> pystr \<Rightarrow> (pystr \<times> pystr) list \<Rightarrow> (pystr \<times> pystr) list" where
  "set_header_list k v [] = [(k, v)]"
| "set_header_list k v ((k', v') # hs) =
     (if k' = k then (k, v) # filter (\<lambda>h. fst h \<noteq> k) hs else (k', v') # set_header_list k v hs)"

definition set_header :: "pystr \<Rightarrow> pystr \<Rightarrow> 'b response \<Rightarrow> 'b response" where
  "set_header k v r = r\<lparr> wp_headers := set_header_list k v (wp_headers r) \<rparr>"

definition response_header :: "pystr \<Rightarrow> 'b response \<Rightarrow> pystr option" where
  "response_header k r = map_of (wp_headers r) k"

record request_context_state =
  rc_request_id :: pystr
  rc_workspace_id :: "pystr option"
  rc_workspace_name :: "pystr option"

text \<open>
  The state of one process while it serves a request: the context of the request, the state of the
  rate limiter, the operation events of \<open>app.state\<close> and whatever the routers work on.
\<close>

record ('l, 'e, 'a) http_state =
  hs_context :: "request_context_state option"
  hs_limiter :: 'l
  hs_events :: 'e
  hs_app :: 'a

type_synonym ('b, 's) app = "request \<Rightarrow> 's \<Rightarrow> 'b response res \<times> 's"

lemma map_of_filter_neq: "j \<noteq> k \<Longrightarrow> map_of (filter (\<lambda>h. fst h \<noteq> k) hs) j = map_of hs j"
  by (induction hs) auto

lemma map_of_set_header_list: "map_of (set_header_list k v hs) j = (if j = k then Some v else map_of hs j)"
  by (induction k v hs rule: set_header_list.induct) (auto simp: map_of_filter_neq)

lemma set_header_simps [simp]:
  "response_header j (set_header k v r) = (if j = k then Some v else response_header j r)"
  "wp_status (set_header k v r) = wp_status r"
  "wp_body (set_header k v r) = wp_body r"
  by (simp_all add: set_header_def response_header_def map_of_set_header_list)

section \<open>Security headers\<close>

definition SECURITY_HEADERS :: "(pystr \<times> pystr) list" where
  "SECURITY_HEADERS =
     [(py ''x-content-type-options'', py ''nosniff''),
      (py ''x-frame-options'', py ''DENY''),
      (py ''referrer-policy'', py ''no-referrer''),
      (py ''permissions-policy'', py ''camera=(), microphone=(), geolocation=()'')]"

fun add_missing_headers :: "(pystr \<times> pystr) list \<Rightarrow> 'b response \<Rightarrow> 'b response" where
  "add_missing_headers [] r = r"
| "add_missing_headers ((k, v) # hs) r =
     add_missing_headers hs (if response_header k r = None then set_header k v r else r)"

definition security_headers_middleware :: "('b, 's) app \<Rightarrow> ('b, 's) app" where
  "security_headers_middleware call_next request s =
     (case call_next request s of
        (Inl e, s') \<Rightarrow> (Inl e, s')
      | (Inr response, s') \<Rightarrow> (Inr (add_missing_headers SECURITY_HEADERS response), s'))"

lemma add_missing_header [simp]:
  "response_header k (add_missing_headers hs r) =
     (case response_header k r of Some v \<Rightarrow> Some v | None \<Rightarrow> map_of hs k)"
  by (induction hs r rule: add_missing_headers.induct) (auto split: option.splits)

lemma add_missing_status [simp]: "wp_status (add_missing_headers hs r) = wp_status r"
  by (induction hs r rule: add_missing_headers.induct) auto

lemma add_missing_body [simp]: "wp_body (add_missing_headers hs r) = wp_body r"
  by (induction hs r rule: add_missing_headers.induct) auto

section \<open>Request context\<close>

text \<open>The hexadecimal digits of a fresh UUID are an argument.\<close>

definition request_context_middleware ::
  "pystr \<Rightarrow> ('b, ('l, 'e, 'a) http_state) app \<Rightarrow> ('b, ('l, 'e, 'a) http_state) app" where
  "request_context_middleware uuid_hex call_next request s =
     (let ctx = \<lparr> rc_request_id = py ''req_'' @ uuid_hex, rc_workspace_id = None, rc_workspace_name = None \<rparr> in
      case call_next request (s\<lparr> hs_context := Some ctx \<rparr>) of
        (Inl e, s') \<Rightarrow> (Inl e, s')
      | (Inr response, s') \<Rightarrow>
          (case hs_context s' of
             None \<Rightarrow> (Inl (AttributeError (py ''State object has no attribute request_context'')), s')
           | Some ctx' \<Rightarrow> (Inr (set_header (py ''x-request-id'') (rc_request_id ctx') response), s')))"

text \<open>What the middleware relies on: the application keeps the request identifier.\<close>

definition keeps_request_id :: "('b, ('l, 'e, 'a) http_state) app \<Rightarrow> bool" where
  "keeps_request_id call_next \<longleftrightarrow>
     (\<forall>r s. map_option rc_request_id (hs_context (snd (call_next r s))) = map_option rc_request_id (hs_context s))"

lemma keeps_request_idD:
  "keeps_request_id call_next \<Longrightarrow> call_next r s = (x, s') \<Longrightarrow>
     map_option rc_request_id (hs_context s') = map_option rc_request_id (hs_context s)"
  unfolding keeps_request_id_def by (metis snd_conv)

lemma keeps_request_id_security:
  "keeps_request_id call_next \<Longrightarrow> keeps_request_id (security_headers_middleware call_next)"
  unfolding keeps_request_id_def
  by (auto simp: security_headers_middleware_def dest: spec split: prod.splits sum.splits) (metis snd_conv)+

end
