(* ===== verification/Rate_Limit.thy ===== *)
theory Rate_Limit
  imports Web Config Events UTF8 PyFloat "HOL-Library.Product_Lexorder" "HOL-Library.List_Lexorder"
begin

text \<open>
  \<open>middleware/rate_limit.py\<close>: the sliding-window limiter in memory, the limiter over a Redis sorted set
  with its Lua script, the bucket of a request and the middleware.

  Both limiters are interpreted as \<open>sliding_window\<close>: whatever the requests, in every window at most
  \<open>limit\<close> requests of one bucket are admitted, as long as the clock does not go back. The commands of
  the Redis server are a parameter (\<open>zset\<close>) with their documented behaviour (\<open>zset_ok\<close>); the expiry of
  an idle key, which Redis performs on its own clock, is not modelled. The locks make every check
  atomic, so a history of checks is a list.
\<close>

section \<open>Decisions\<close>

record rate_limit_decision =
  rd_allowed :: bool
  rd_limit :: int
  rd_remaining :: int
  rd_retry_after_seconds :: int
  rd_reset_after_seconds :: int

type_synonym 's limiter_check = "pyfloat \<Rightarrow> pystr \<Rightarrow> pystr \<Rightarrow> 's \<Rightarrow> rate_limit_decision res \<times> 's"

text \<open>
  A check is applied to the time, a fresh member name (used by the Redis store) and the bucket. A
  history is a list of them; \<open>admitted\<close> are the times and buckets of the admitted checks.
\<close>

definition admits :: "rate_limit_decision res \<Rightarrow> bool" where
  "admits r \<longleftrightarrow> (case r of Inl _ \<Rightarrow> False | Inr d \<Rightarrow> rd_allowed d)"

fun admitted :: "'s limiter_check \<Rightarrow> (pyfloat \<times> pystr \<times> pystr) list \<Rightarrow> 's \<Rightarrow> (pyfloat \<times> pystr) list" where
  "admitted check [] s = []"
| "admitted check ((t, m, k) # xs) s =
     (if admits (fst (check t m k s)) then [(t, k)] else []) @ admitted check xs (snd (check t m k s))"

section \<open>The contract of a limiter\<close>

text \<open>
  \<open>live t k s\<close> are the recorded ticks of bucket \<open>k\<close> that are inside the window ending at tick \<open>t\<close>. A
  limiter may count more than these, never less.
\<close>

locale sliding_window =
  fixes check :: "'s limiter_check" and live :: "'t::linorder \<Rightarrow> pystr \<Rightarrow> 's \<Rightarrow> 't multiset"
    and tick :: "pyfloat \<Rightarrow> 't" and cut :: "'t \<Rightarrow> 't" and fresh :: "pystr \<Rightarrow> 's \<Rightarrow> bool"
    and limit :: int and ok :: bool
  assumes tick_mono: "t \<le> t' \<Longrightarrow> tick t \<le> tick t'"
    and cut_mono: "u \<le> u' \<Longrightarrow> cut u \<le> cut u'"
    and fresh_check: "ok \<Longrightarrow> fresh m s \<Longrightarrow> fresh m' s \<Longrightarrow> m \<noteq> m' \<Longrightarrow> fresh m (snd (check t m' k s))"
    and admits_limit: "ok \<Longrightarrow> fresh m s \<Longrightarrow> admits (fst (check t m k s)) \<Longrightarrow> int (size (live (tick t) k s)) < limit"
    and keeps: "ok \<Longrightarrow> fresh m s \<Longrightarrow> tick t \<le> u \<Longrightarrow>
        {#x \<in># live (tick t) j s. cut u < x#} \<subseteq># live u j (snd (check t m k s))"
    and adds: "ok \<Longrightarrow> fresh m s \<Longrightarrow> tick t \<le> u \<Longrightarrow> admits (fst (check t m k s)) \<Longrightarrow>
        {#x \<in># add_mset (tick t) (live (tick t) k s). cut u < x#} \<subseteq># live u k (snd (check t m k s))"
begin

definition ticks :: "pystr \<Rightarrow> (pyfloat \<times> pystr) list \<Rightarrow> 't multiset" where
  "ticks k as = mset (map (\<lambda>a. tick (fst a)) (filter (\<lambda>a. snd a = k) as))"

text \<open>Every admitted check of the history that is still in the window is recorded.\<close>

definition recorded :: "(pyfloat \<times> pystr) list \<Rightarrow> pyfloat \<Rightarrow> 's \<Rightarrow> bool" where
  "recorded as t0 s \<longleftrightarrow> (\<forall>t \<ge> t0. \<forall>k. {#x \<in># ticks k as. cut (tick t) < x#} \<subseteq># live (tick t) k s)"

definition bounded :: "(pyfloat \<times> pystr) list \<Rightarrow> bool" where
  "bounded as \<longleftrightarrow> (\<forall>u k. int (size {#x \<in># ticks k as. cut u < x \<and> x \<le> u#}) \<le> max 0 limit)"

lemma ticks_snoc: "ticks k (as @ [(t, j)]) = (if j = k then add_mset (tick t) (ticks k as) else ticks k as)"
  by (simp add: ticks_def)

lemma recorded_check:
  assumes "ok" "fresh m s" "recorded as t s"
  shows "recorded (as @ (if admits (fst (check t m k s)) then [(t, k)] else [])) t (snd (check t m k s))"
  unfolding recorded_def
proof (intro allI impI)
  fix u j assume u: "t \<le> u"
  then have cut: "cut (tick t) \<le> cut (tick u)" and le: "tick t \<le> tick u" by (simp_all add: tick_mono cut_mono)
  have old: "{#x \<in># ticks j as. cut (tick u) < x#} \<subseteq># {#x \<in># live (tick t) j s. cut (tick u) < x#}"
  proof -
    from assms(3) have "{#x \<in># ticks j as. cut (tick t) < x#} \<subseteq># live (tick t) j s"
      by (simp add: recorded_def)
    from multiset_filter_mono [OF this, of "\<lambda>x. cut (tick u) < x"]
    have "{#x \<in># {#x \<in># ticks j as. cut (tick t) < x#}. cut (tick u) < x#}
        \<subseteq># {#x \<in># live (tick t) j s. cut (tick u) < x#}" .
    also have "{#x \<in># {#x \<in># ticks j as. cut (tick t) < x#}. cut (tick u) < x#} = {#x \<in># ticks j as. cut (tick u) < x#}"
      unfolding filter_filter_mset using cut by (intro filter_mset_cong) auto
    finally show ?thesis .
  qed
  show "{#x \<in># ticks j (as @ (if admits (fst (check t m k s)) then [(t, k)] else [])). cut (tick u) < x#}
      \<subseteq># live (tick u) j (snd (check t m k s))"
  proof (cases "admits (fst (check t m k s)) \<and> k = j")
    case True
    from old have "{#x \<in># add_mset (tick t) (ticks j as). cut (tick u) < x#}
        \<subseteq># {#x \<in># add_mset (tick t) (live (tick t) j s). cut (tick u) < x#}" by simp
    also have "\<dots> \<subseteq># live (tick u) j (snd (check t m k s))"
      using adds [OF assms(1,2) le] True by blast
    finally have "{#x \<in># add_mset (tick t) (ticks j as). cut (tick u) < x#} \<subseteq># live (tick u) j (snd (check t m k s))" .
    moreover have "as @ (if admits (fst (check t m k s)) then [(t, k)] else []) = as @ [(t, j)]" using True by auto
    ultimately show ?thesis by (simp only: ticks_snoc) simp
  next
    case False
    from old keeps [OF assms(1,2) le] have "{#x \<in># ticks j as. cut (tick u) < x#}
        \<subseteq># live (tick u) j (snd (check t m k s))" by (rule subset_mset.order_trans)
    with False show ?thesis by (auto simp: ticks_snoc)
  qed
qed

lemma bounded_check:
  assumes "ok" "fresh m s" "recorded as t s" "bounded as" "admits (fst (check t m k s))"
  shows "bounded (as @ [(t, k)])"
  unfolding bounded_def
proof (intro allI)
  fix u j
  from assms(4) have old: "int (size {#x \<in># ticks j as. cut u < x \<and> x \<le> u#}) \<le> max 0 limit"
    by (simp add: bounded_def)
  show "int (size {#x \<in># ticks j (as @ [(t, k)]). cut u < x \<and> x \<le> u#}) \<le> max 0 limit"
  proof (cases "k = j \<and> tick t \<le> u")
    case True
    then have "cut (tick t) \<le> cut u" by (simp add: cut_mono)
    then have "{#x \<in># ticks j as. cut u < x \<and> x \<le> u#} \<subseteq># {#x \<in># ticks j as. cut (tick t) < x#}"
      by (intro mset_subset_eqI) auto
    also have "\<dots> \<subseteq># live (tick t) j s" using assms(3) by (simp add: recorded_def)
    finally have "size {#x \<in># ticks j as. cut u < x \<and> x \<le> u#} \<le> size (live (tick t) j s)"
      by (rule size_mset_mono)
    with admits_limit [OF assms(1,2,5)] True old show ?thesis by (auto simp: ticks_snoc)
  next
    case False
    with old show ?thesis by (auto simp: ticks_snoc)
  qed
qed

lemma bounded_admitted:
  assumes "ok" "sorted (map fst xs)" "distinct (map (fst \<circ> snd) xs)"
    and "\<And>m. m \<in> set (map (fst \<circ> snd) xs) \<Longrightarrow> fresh m s"
    and "\<And>t. t \<in> set (map fst xs) \<Longrightarrow> t0 \<le> t" and "recorded as t0 s" "bounded as"
  shows "bounded (as @ admitted check xs s)"
  using assms(2-)
proof (induction xs arbitrary: s as t0)
  case (Cons x xs)
  obtain t m k where x: "x = (t, m, k)" by (cases x)
  let ?a = "if admits (fst (check t m k s)) then [(t, k)] else []"
  have fr: "fresh m s" using Cons.prems(3) x by simp
  have "t0 \<le> t" using Cons.prems(4) x by simp
  with Cons.prems(5) have "recorded as t s" unfolding recorded_def by (meson order_trans)
  note rec' = recorded_check [OF assms(1) fr this, of k]
  from bounded_check [OF assms(1) fr \<open>recorded as t s\<close> Cons.prems(6), of k] Cons.prems(6)
  have bnd: "bounded (as @ ?a)" by simp
  have "bounded ((as @ ?a) @ admitted check xs (snd (check t m k s)))"
  proof (rule Cons.IH [OF _ _ _ _ rec' bnd])
    show "sorted (map fst xs)" "distinct (map (fst \<circ> snd) xs)" using Cons.prems(1,2) by (simp_all add: comp_def)
    show "t \<le> t'" if "t' \<in> set (map fst xs)" for t' using Cons.prems(1) that x by auto
    show "fresh m' (snd (check t m k s))" if "m' \<in> set (map (fst \<circ> snd) xs)" for m'
      using Cons.prems(2,3) that x fr fresh_check [OF assms(1), of m' s m t k] by force
  qed
  then show ?case by (simp add: x)
qed simp

text \<open>The bound on a history that starts with nothing admitted.\<close>

theorem window_bound:
  assumes "ok" "sorted (map fst xs)" "distinct (map (fst \<circ> snd) xs)"
    and "\<And>m. m \<in> set (map (fst \<circ> snd) xs) \<Longrightarrow> fresh m s"
  shows "int (length (filter (\<lambda>(t, k). k = bucket \<and> cut u < tick t \<and> tick t \<le> u) (admitted check xs s)))
    \<le> max 0 limit"
proof -
  have "bounded ([] @ admitted check xs s)"
  proof (rule bounded_admitted [OF assms(1-3)])
    show "(if xs = [] then 0 else fst (hd xs)) \<le> t" if "t \<in> set (map fst xs)" for t
      using assms(2) that by (cases xs) auto
    show "recorded [] (if xs = [] then 0 else fst (hd xs)) s" "bounded []"
      by (simp_all add: recorded_def bounded_def ticks_def)
  qed (use assms(4) in blast)
  then have "int (size {#x \<in># ticks bucket (admitted check xs s). cut u < x \<and> x \<le> u#}) \<le> max 0 limit"
    by (simp add: bounded_def)
  moreover have "size {#x \<in># ticks bucket as. cut u < x \<and> x \<le> u#} =
      length (filter (\<lambda>(t, k). k = bucket \<and> cut u < tick t \<and> tick t \<le> u) as)" for as
    by (induction as) (auto simp: ticks_def)
  ultimately show ?thesis by simp
qed

end

section \<open>RateLimiter\<close>

text \<open>The buckets are a \<open>defaultdict(deque)\<close>: an absent bucket reads as empty.\<close>

type_synonym buckets = "pystr \<Rightarrow> pyfloat list"

definition window_cutoff :: "int \<Rightarrow> pyfloat \<Rightarrow> pyfloat" where
  "window_cutoff window_seconds now = fsub now (fl64 (of_int window_seconds))"

definition prune :: "int \<Rightarrow> pyfloat list \<Rightarrow> pyfloat \<Rightarrow> pyfloat list" where
  "prune window_seconds bucket now = dropWhile (\<lambda>x. x \<le> window_cutoff window_seconds now) bucket"

definition seconds_until_reset :: "int \<Rightarrow> pyfloat list \<Rightarrow> pyfloat \<Rightarrow> int" where
  "seconds_until_reset window_seconds bucket now =
     (case bucket of
        [] \<Rightarrow> window_seconds
      | oldest # _ \<Rightarrow> max 1 \<lceil>fsub (fl64 (of_int window_seconds)) (fsub now oldest)\<rceil>)"

definition mem_check :: "int \<Rightarrow> int \<Rightarrow> buckets limiter_check" where
  "mem_check limit window_seconds now member bucket_key buckets =
     (let bucket = prune window_seconds (buckets bucket_key) now in
      if limit \<le> int (length bucket)
      then (let retry_after_seconds = seconds_until_reset window_seconds bucket now in
        (Inr \<lparr> rd_allowed = False, rd_limit = limit, rd_remaining = 0,
           rd_retry_after_seconds = retry_after_seconds, rd_reset_after_seconds = retry_after_seconds \<rparr>,
         buckets(bucket_key := bucket)))
      else (let bucket' = bucket @ [now] in
        (Inr \<lparr> rd_allowed = True, rd_limit = limit, rd_remaining = max (limit - int (length bucket')) 0,
           rd_retry_after_seconds = 0,
           rd_reset_after_seconds = seconds_until_reset window_seconds bucket' now \<rparr>,
         buckets(bucket_key := bucket'))))"

lemma window_cutoff_mono: "t \<le> t' \<Longrightarrow> window_cutoff w t \<le> window_cutoff w t'"
  by (simp add: window_cutoff_def fsub_mono)

lemma filter_dropWhile_le: "filter (\<lambda>x. (c :: pyfloat) < x) (dropWhile (\<lambda>x. x \<le> b) xs) = filter (\<lambda>x. c < x) xs" if "b \<le> c"
  using that by (induction xs) auto

lemma mem_check_bucket:
  "snd (mem_check l w t m k b) = b(k := prune w (b k) t @ (if admits (fst (mem_check l w t m k b)) then [t] else []))"
  "admits (fst (mem_check l w t m k b)) \<longleftrightarrow> int (length (prune w (b k) t)) < l"
  by (auto simp: mem_check_def Let_def admits_def)

lemma live_prune:
  assumes "t \<le> u"
  shows "filter_mset ((<) (window_cutoff w u)) (mset (prune w xs t)) = filter_mset ((<) (window_cutoff w u)) (mset xs)"
  using filter_dropWhile_le [OF window_cutoff_mono [OF assms], of w xs] by (metis mset_filter prune_def)

lemma live_live:
  "(c :: 't::linorder) \<le> c' \<Longrightarrow> filter_mset ((<) c') (filter_mset ((<) c) M) = filter_mset ((<) c') M"
  unfolding filter_filter_mset by (intro filter_mset_cong) auto

interpretation mem_limiter: sliding_window "mem_check l w"
    "\<lambda>t k b. mset (filter (\<lambda>x. window_cutoff w t < x) (b k))" "\<lambda>t. t" "window_cutoff w" "\<lambda>_ _. True" l True
  for l w :: int
proof (unfold_locales, goal_cases)
  case (4 m s t k)
  have "length (filter (\<lambda>x. window_cutoff w t < x) (s k)) \<le> length (prune w (s k) t)"
    using length_filter_le [of "\<lambda>x. window_cutoff w t < x" "prune w (s k) t"]
    by (simp add: prune_def filter_dropWhile_le)
  with 4 show ?case by (simp add: mem_check_bucket del: mset_filter)
qed (auto simp: window_cutoff_mono mem_check_bucket live_prune live_live)

text \<open>
  The decision is exact when the bucket is in order, as it is as long as the clock does not go back:
  a request is admitted iff fewer than \<open>limit\<close> recorded requests are inside the window.
\<close>

lemma prune_sorted: "sorted b \<Longrightarrow> prune w b t = filter (\<lambda>x. window_cutoff w t < x) b"
  by (induction b) (auto simp: prune_def dropWhile_eq_self_iff filter_id_conv less_le_trans)

lemma mem_check_sorted:
  assumes "sorted (b k)" "\<forall>x \<in> set (b k). x \<le> t"
  shows "admits (fst (mem_check l w t m k b)) \<longleftrightarrow> int (length (filter (\<lambda>x. window_cutoff w t < x) (b k))) < l"
    and "sorted (snd (mem_check l w t m k b) k)" and "\<forall>x \<in> set (snd (mem_check l w t m k b) k). x \<le> t"
  using assms by (auto simp: mem_check_bucket prune_sorted sorted_append sorted_wrt_filter)

section \<open>RedisRateLimitStore\<close>

text \<open>
  The sorted-set commands of the Lua script, and \<open>EVAL\<close>, which runs a script atomically; when the call
  fails the script may or may not have run. \<open>zs_entries\<close> is not a command: it is what \<open>ZRANGE key 0 -1
  WITHSCORES\<close> would list, and the documented behaviour is stated about it. Scores are the integers of
  milliseconds the script stores, so the replies are integers.
\<close>

record 'z zset =
  zs_remrangebyscore :: "pystr \<Rightarrow> int \<Rightarrow> int \<Rightarrow> 'z \<Rightarrow> 'z"
  zs_card :: "pystr \<Rightarrow> 'z \<Rightarrow> int"
  zs_first_score :: "pystr \<Rightarrow> 'z \<Rightarrow> int option"
  zs_add :: "pystr \<Rightarrow> int \<Rightarrow> pystr \<Rightarrow> 'z \<Rightarrow> 'z"
  zs_pexpire :: "pystr \<Rightarrow> int \<Rightarrow> 'z \<Rightarrow> 'z"
  zs_eval :: "('z \<Rightarrow> (int \<times> int \<times> int) \<times> 'z) \<Rightarrow> 'z \<Rightarrow> (int \<times> int \<times> int) res \<times> 'z"
  zs_entries :: "pystr \<Rightarrow> 'z \<Rightarrow> (int \<times> pystr) list"

definition zset_ok :: "'z zset \<Rightarrow> bool" where
  "zset_ok Z \<longleftrightarrow>
     (\<forall>k lo hi z j. zs_entries Z j (zs_remrangebyscore Z k lo hi z) =
        (if j = k then filter (\<lambda>e. \<not> (lo \<le> fst e \<and> fst e \<le> hi)) (zs_entries Z k z) else zs_entries Z j z)) \<and>
     (\<forall>k z. zs_card Z k z = int (length (zs_entries Z k z))) \<and>
     (\<forall>k z. zs_first_score Z k z = (case zs_entries Z k z of [] \<Rightarrow> None | e # _ \<Rightarrow> Some (fst e))) \<and>
     (\<forall>k s m z j. mset (zs_entries Z j (zs_add Z k s m z)) =
        (if j = k then add_mset (s, m) (mset (filter (\<lambda>e. snd e \<noteq> m) (zs_entries Z k z)))
         else mset (zs_entries Z j z))) \<and>
     (\<forall>k ms z j. zs_entries Z j (zs_pexpire Z k ms z) = zs_entries Z j z) \<and>
     (\<forall>f z r z'. zs_eval Z f z = (Inr r, z') \<longrightarrow> f z = (r, z')) \<and>
     (\<forall>f z e z'. zs_eval Z f z = (Inl e, z') \<longrightarrow> z' = z \<or> z' = snd (f z))"

text \<open>\<open>REDIS_SLIDING_WINDOW_SCRIPT\<close>.\<close>

definition sliding_window_script ::
  "'z zset \<Rightarrow> pystr \<Rightarrow> int \<Rightarrow> int \<Rightarrow> int \<Rightarrow> pystr \<Rightarrow> 'z \<Rightarrow> (int \<times> int \<times> int) \<times> 'z" where
  "sliding_window_script Z key now window limit member z =
     (let z = zs_remrangebyscore Z key 0 (now - window) z;
          cnt = zs_card Z key z
      in if limit \<le> cnt
         then (let oldest = zs_first_score Z key z;
                   z = zs_pexpire Z key window z
               in ((0, cnt, case oldest of None \<Rightarrow> now | Some score \<Rightarrow> score), z))
         else (let z = zs_add Z key now member z;
                   z = zs_pexpire Z key window z;
                   cnt = cnt + 1;
                   oldest = zs_first_score Z key z
               in ((1, cnt, case oldest of None \<Rightarrow> now | Some score \<Rightarrow> score), z)))"

record redis_rate_limit =
  rr_limit :: int
  rr_window_milliseconds :: int
  rr_key_prefix :: pystr

definition make_redis_rate_limit :: "int \<Rightarrow> int \<Rightarrow> pystr \<Rightarrow> redis_rate_limit" where
  "make_redis_rate_limit limit window_seconds key_prefix =
     \<lparr> rr_limit = limit, rr_window_milliseconds = window_seconds * 1000,
       rr_key_prefix = rstrip_while (\<lambda>c. c = 58) key_prefix \<rparr>"

definition milliseconds :: "pyfloat \<Rightarrow> int" where
  "milliseconds now = trunc (fmul now 1000)"

definition redis_seconds_until_reset :: "redis_rate_limit \<Rightarrow> int \<Rightarrow> int \<Rightarrow> int" where
  "redis_seconds_until_reset c oldest_milliseconds now_milliseconds =
     (let elapsed = now_milliseconds - oldest_milliseconds
      in max 1 \<lceil>idiv (rr_window_milliseconds c - elapsed) 1000\<rceil>)"

definition redis_key :: "(bytes \<Rightarrow> pystr) \<Rightarrow> redis_rate_limit \<Rightarrow> pystr \<Rightarrow> pystr res" where
  "redis_key sha256_hex c bucket_key =
     (case utf8_encode bucket_key of
        Inl e \<Rightarrow> Inl e
      | Inr bs \<Rightarrow> Inr (rr_key_prefix c @ py '':'' @ sha256_hex bs))"

definition redis_check :: "(bytes \<Rightarrow> pystr) \<Rightarrow> 'z zset \<Rightarrow> redis_rate_limit \<Rightarrow> 'z limiter_check" where
  "redis_check sha256_hex Z c now member bucket_key z =
     (let now_milliseconds = milliseconds now in
      case redis_key sha256_hex c bucket_key of
        Inl e \<Rightarrow> (Inl (RateLimitBackendUnavailable (str_exn e)), z)
      | Inr key \<Rightarrow>
          (case zs_eval Z (sliding_window_script Z key now_milliseconds (rr_window_milliseconds c) (rr_limit c) member) z of
             (Inl e, z') \<Rightarrow> (Inl (RateLimitBackendUnavailable (str_exn e)), z')
           | (Inr (flag, cnt, oldest_milliseconds), z') \<Rightarrow>
               (let allowed = (flag \<noteq> 0);
                    reset_after_seconds = redis_seconds_until_reset c oldest_milliseconds now_milliseconds
                in (Inr \<lparr> rd_allowed = allowed, rd_limit = rr_limit c,
                      rd_remaining = (if allowed then max (rr_limit c - cnt) 0 else 0),
                      rd_retry_after_seconds = (if allowed then 0 else reset_after_seconds),
                      rd_reset_after_seconds = reset_after_seconds \<rparr>, z'))))"

lemma zset_okD:
  assumes "zset_ok Z"
  shows "zs_entries Z j (zs_remrangebyscore Z k lo hi z) =
      (if j = k then filter (\<lambda>e. \<not> (lo \<le> fst e \<and> fst e \<le> hi)) (zs_entries Z k z) else zs_entries Z j z)"
    and "zs_card Z k z = int (length (zs_entries Z k z))"
    and "mset (zs_entries Z j (zs_add Z k s m z)) =
      (if j = k then add_mset (s, m) (mset (filter (\<lambda>e. snd e \<noteq> m) (zs_entries Z k z)))
       else mset (zs_entries Z j z))"
    and "zs_entries Z j (zs_pexpire Z k ms z) = zs_entries Z j z"
  using assms unfolding zset_ok_def by (iprover)+

lemma zset_ok_evalD:
  assumes "zset_ok Z"
  shows "zs_eval Z f z = (Inr r, z') \<Longrightarrow> f z = (r, z')"
    and "zs_eval Z f z = (Inl e, z') \<Longrightarrow> z' = z \<or> z' = snd (f z)"
  using assms unfolding zset_ok_def by (iprover)+

text \<open>The entries the script keeps, and its effect when the member is new.\<close>

definition kept_entries :: "'z zset \<Rightarrow> pystr \<Rightarrow> int \<Rightarrow> 'z \<Rightarrow> (int \<times> pystr) list" where
  "kept_entries Z key hi z = filter (\<lambda>e. \<not> (0 \<le> fst e \<and> fst e \<le> hi)) (zs_entries Z key z)"

lemma script_effect:
  assumes "zset_ok Z" "sliding_window_script Z key now window limit m z = ((flag, cnt, oldest), z')"
    and "\<forall>j. m \<notin> snd ` set (zs_entries Z j z)"
  shows "flag \<noteq> 0 \<longleftrightarrow> int (length (kept_entries Z key (now - window) z)) < limit"
    and "mset (zs_entries Z j z') =
      (if j = key then (if flag \<noteq> 0 then {#(now, m)#} else {#}) + mset (kept_entries Z key (now - window) z)
       else mset (zs_entries Z j z))"
proof -
  note laws = zset_okD [OF assms(1)]
  have new: "filter (\<lambda>e. snd e \<noteq> m) (kept_entries Z key (now - window) z) = kept_entries Z key (now - window) z"
    using assms(3) by (auto simp: kept_entries_def filter_id_conv intro!: filter_cong)
  have kept: "zs_entries Z j (zs_remrangebyscore Z key 0 (now - window) z) =
      (if j = key then kept_entries Z key (now - window) z else zs_entries Z j z)" for j
    by (simp add: laws kept_entries_def)
  from assms(2) show flag: "flag \<noteq> 0 \<longleftrightarrow> int (length (kept_entries Z key (now - window) z)) < limit"
    by (auto simp: sliding_window_script_def Let_def laws(2) kept split: if_splits)
  from assms(2) flag show "mset (zs_entries Z j z') =
      (if j = key then (if flag \<noteq> 0 then {#(now, m)#} else {#}) + mset (kept_entries Z key (now - window) z)
       else mset (zs_entries Z j z))"
    by (cases "flag \<noteq> 0") (auto simp: sliding_window_script_def Let_def laws(2-4) kept new simp del: mset_filter split: if_splits)
qed

text \<open>The recorded milliseconds of a bucket inside the window that ends at \<open>u\<close>.\<close>

definition redis_admitted :: "(bytes \<Rightarrow> pystr) \<Rightarrow> 'z zset \<Rightarrow> redis_rate_limit \<Rightarrow> int \<Rightarrow> pystr \<Rightarrow> 'z \<Rightarrow> int multiset" where
  "redis_admitted H Z c u k z =
     (case redis_key H c k of
        Inl _ \<Rightarrow> {#}
      | Inr key \<Rightarrow> {#x \<in># image_mset fst (mset (zs_entries Z key z)). u - rr_window_milliseconds c < x#})"

definition redis_fresh :: "'z zset \<Rightarrow> pystr \<Rightarrow> 'z \<Rightarrow> bool" where
  "redis_fresh Z m z \<longleftrightarrow> (\<forall>j. m \<notin> snd ` set (zs_entries Z j z))"

text \<open>A check either leaves the sets alone or runs the script.\<close>

lemma redis_check_cases:
  assumes "zset_ok Z" "redis_check H Z c t m k z = (r, z')"
  obtains (unchanged) "z' = z" "\<not> admits r"
  | (ran) key flag cnt oldest where "redis_key H c k = Inr key"
      "sliding_window_script Z key (milliseconds t) (rr_window_milliseconds c) (rr_limit c) m z = ((flag, cnt, oldest), z')"
      "admits r \<longrightarrow> flag \<noteq> 0"
proof (cases "redis_key H c k")
  case (Inl e)
  with assms(2) that(1) show ?thesis by (auto simp: redis_check_def admits_def Let_def)
next
  case (Inr key)
  let ?f = "sliding_window_script Z key (milliseconds t) (rr_window_milliseconds c) (rr_limit c) m"
  obtain flag cnt oldest z'' where f: "?f z = ((flag, cnt, oldest), z'')" by (metis prod.exhaust)
  obtain x z1 where e: "zs_eval Z ?f z = (x, z1)" by fastforce
  show ?thesis
  proof (cases x)
    case (Inl ex)
    with assms(2) Inr e have "z' = z1" "\<not> admits r" by (auto simp: redis_check_def admits_def Let_def)
    moreover from zset_ok_evalD(2) [OF assms(1)] e Inl f have "z1 = z \<or> z1 = z''" by fastforce
    ultimately show ?thesis using that Inr f by blast
  next
    case (Inr y)
    with e zset_ok_evalD(1) [OF assms(1)] f have "y = (flag, cnt, oldest)" "z1 = z''" by fastforce+
    with assms(2) \<open>redis_key H c k = Inr key\<close> e Inr f that(2) show ?thesis
      by (auto simp: redis_check_def admits_def Let_def)
  qed
qed

lemma milliseconds_mono: "t \<le> t' \<Longrightarrow> milliseconds t \<le> milliseconds t'"
  unfolding milliseconds_def fmul_def by (intro trunc_mono fl64_mono) simp

definition scores :: "'z zset \<Rightarrow> int \<Rightarrow> pystr \<Rightarrow> 'z \<Rightarrow> int multiset" where
  "scores Z lo key z = {#x \<in># image_mset fst (mset (zs_entries Z key z)). lo < x#}"

lemma scores_scores: "lo \<le> lo' \<Longrightarrow> {#x \<in># scores Z lo key z. lo' < x#} = scores Z lo' key z"
  unfolding scores_def filter_filter_mset by (intro filter_mset_cong) auto

lemma script_scores:
  assumes "zset_ok Z" "sliding_window_script Z key now window limit m z = ((flag, cnt, oldest), z')"
    and "redis_fresh Z m z" "now - window \<le> lo"
  shows "scores Z lo j z' = (if j = key \<and> flag \<noteq> 0 \<and> lo < now then {#now#} else {#}) + scores Z lo j z"
proof -
  have "{#x \<in># image_mset fst (mset (kept_entries Z key (now - window) z)). lo < x#} = scores Z lo key z"
    using assms(4) unfolding scores_def kept_entries_def filter_mset_image_mset mset_filter filter_filter_mset
    by (intro arg_cong [where f = "image_mset fst"] filter_mset_cong) auto
  then show ?thesis
    using script_effect(2) [OF assms(1,2) assms(3) [unfolded redis_fresh_def], of j]
    by (auto simp: scores_def)
qed

lemma script_fresh:
  assumes "zset_ok Z" "sliding_window_script Z key now window limit m z = ((flag, cnt, oldest), z')"
    and "redis_fresh Z m z" "redis_fresh Z m' z" "m' \<noteq> m"
  shows "redis_fresh Z m' z'"
  unfolding redis_fresh_def
proof
  fix j
  have "set (zs_entries Z j z') \<subseteq> insert (now, m) (set (zs_entries Z j z))"
    using script_effect(2) [OF assms(1,2) assms(3) [unfolded redis_fresh_def], of j, THEN arg_cong [where f = set_mset]]
    by (auto simp: kept_entries_def split: if_splits)
  with assms(4,5) show "m' \<notin> snd ` set (zs_entries Z j z')" unfolding redis_fresh_def by force
qed

lemma script_limit:
  assumes "zset_ok Z" "sliding_window_script Z key now window limit m z = ((flag, cnt, oldest), z')"
    and "redis_fresh Z m z" "flag \<noteq> 0"
  shows "int (size (scores Z (now - window) key z)) < limit"
proof -
  have "scores Z (now - window) key z = image_mset fst {#e \<in># mset (zs_entries Z key z). now - window < fst e#}"
    by (simp add: scores_def filter_mset_image_mset)
  also have "size \<dots> \<le> size (mset (kept_entries Z key (now - window) z))"
    unfolding size_image_mset kept_entries_def mset_filter by (intro size_mset_mono mset_subset_eqI) auto
  finally show ?thesis
    using script_effect(1) [OF assms(1,2) assms(3) [unfolded redis_fresh_def]] assms(4) by simp
qed

lemma redis_admitted_scores:
  "redis_admitted H Z c u k z =
     (case redis_key H c k of Inl _ \<Rightarrow> {#} | Inr key \<Rightarrow> scores Z (u - rr_window_milliseconds c) key z)"
  by (simp add: redis_admitted_def scores_def split: sum.split)

interpretation redis_limiter: sliding_window "redis_check H Z c" "redis_admitted H Z c" milliseconds
    "\<lambda>u. u - rr_window_milliseconds c" "redis_fresh Z" "rr_limit c" "zset_ok Z"
  for H :: "bytes \<Rightarrow> pystr" and Z :: "'z zset" and c :: redis_rate_limit
proof (unfold_locales, goal_cases)
  case (3 m s m' t k)
  obtain r z' where r: "redis_check H Z c t m' k s = (r, z')" by fastforce
  from 3(1) r show ?case
  proof (cases rule: redis_check_cases)
    case (ran key flag cnt oldest)
    from script_fresh [OF 3(1) ran(2) 3(3,2,4)] r show ?thesis by simp
  qed (use 3 r in simp)
next
  case (4 m s t k)
  obtain r z' where r: "redis_check H Z c t m k s = (r, z')" by fastforce
  from 4(1) r show ?case
  proof (cases rule: redis_check_cases)
    case (ran key flag cnt oldest)
    from script_limit [OF 4(1) ran(2) 4(2)] ran 4 r show ?thesis by (simp add: redis_admitted_scores)
  qed (use 4 r in simp)
next
  case (5 m s t u j k)
  obtain r z' where r: "redis_check H Z c t m k s = (r, z')" by fastforce
  from 5(1) r show ?case
  proof (cases rule: redis_check_cases)
    case unchanged
    with 5 r show ?thesis by (auto simp: redis_admitted_scores scores_scores split: sum.splits)
  next
    case (ran key flag cnt oldest)
    from script_scores [OF 5(1) ran(2) 5(2), of "u - rr_window_milliseconds c"] 5 r show ?thesis
      by (auto simp: redis_admitted_scores scores_scores split: sum.splits)
  qed
next
  case (6 m s t u k)
  obtain r z' where r: "redis_check H Z c t m k s = (r, z')" by fastforce
  from 6(1) r show ?case
  proof (cases rule: redis_check_cases)
    case (ran key flag cnt oldest)
    from script_scores [OF 6(1) ran(2) 6(2), of "u - rr_window_milliseconds c"] 6 r ran show ?thesis
      by (auto simp: redis_admitted_scores scores_scores split: sum.splits)
  qed (use 6 r in simp)
qed (simp_all add: milliseconds_mono)

section \<open>The limiter the settings choose\<close>

record 'z limiter_state =
  ls_buckets :: buckets
  ls_redis :: 'z

definition rate_limit_store :: "settings \<Rightarrow> (bytes \<Rightarrow> pystr) \<Rightarrow> 'z zset \<Rightarrow> 'z limiter_state limiter_check" where
  "rate_limit_store s sha256_hex Z now member bucket_key ls =
     (if cfg_rate_limit_backend s = py ''redis''
      then (case redis_check sha256_hex Z (make_redis_rate_limit (cfg_rate_limit_requests s)
              (cfg_rate_limit_window_seconds s) (cfg_rate_limit_redis_prefix s)) now member bucket_key (ls_redis ls) of
              (r, z) \<Rightarrow> (r, ls\<lparr> ls_redis := z \<rparr>))
      else (case mem_check (cfg_rate_limit_requests s) (cfg_rate_limit_window_seconds s) now member bucket_key
              (ls_buckets ls) of
              (r, b) \<Rightarrow> (r, ls\<lparr> ls_buckets := b \<rparr>)))"

lemma admitted_store:
  "admitted (rate_limit_store s H Z) xs ls =
     (if cfg_rate_limit_backend s = py ''redis''
      then admitted (redis_check H Z (make_redis_rate_limit (cfg_rate_limit_requests s)
              (cfg_rate_limit_window_seconds s) (cfg_rate_limit_redis_prefix s))) xs (ls_redis ls)
      else admitted (mem_check (cfg_rate_limit_requests s) (cfg_rate_limit_window_seconds s)) xs (ls_buckets ls))"
proof (induction xs arbitrary: ls)
  case (Cons x xs)
  then show ?case by (cases x) (simp add: rate_limit_store_def split: prod.split)
qed simp

section \<open>The bucket of a request\<close>

definition bearer_token :: "ucd \<Rightarrow> pystr option \<Rightarrow> pystr" where
  "bearer_token U authorization =
     (case authorization of
        None \<Rightarrow> []
      | Some value \<Rightarrow> if value \<noteq> [] \<and> startswith (py ''bearer '') (ucd_lower U value) then strip (drop 7 value) else [])"

definition stripped_header :: "pystr option \<Rightarrow> pystr" where
  "stripped_header value = (case value of None \<Rightarrow> [] | Some v \<Rightarrow> strip v)"

definition forwarded_ip :: "pystr option \<Rightarrow> pystr" where
  "forwarded_ip value = (case value of None \<Rightarrow> [] | Some v \<Rightarrow> strip (before 44 v))"

definition bucket_key :: "ucd \<Rightarrow> request \<Rightarrow> pystr" where
  "bucket_key U request =
     (let token = bearer_token U (header ''authorization'' request);
          api_key = stripped_header (header ''x-api-key'' request);
          client_ip = forwarded_ip (header ''x-forwarded-for'' request)
      in if token \<noteq> [] then py ''auth_token:'' @ token
         else if api_key \<noteq> [] then py ''api_key:'' @ api_key
         else if client_ip \<noteq> [] then py ''ip:'' @ client_ip
         else py ''ip:'' @ (case wr_client request of None \<Rightarrow> py ''unknown'' | Some host \<Rightarrow> host))"

section \<open>The middleware\<close>

definition apply_headers :: "rate_limit_decision \<Rightarrow> 'b response \<Rightarrow> 'b response" where
  "apply_headers decision response =
     set_header (py ''x-ratelimit-reset'') (str_int (rd_reset_after_seconds decision))
       (set_header (py ''x-ratelimit-remaining'') (str_int (rd_remaining decision))
         (set_header (py ''x-ratelimit-limit'') (str_int (rd_limit decision)) response))"

definition rate_limit_exceeded :: "rate_limit_decision \<Rightarrow> 'b response" where
  "rate_limit_exceeded decision = apply_headers decision
     \<lparr> wp_status = 429, wp_headers = [(py ''retry-after'', str_int (rd_retry_after_seconds decision))],
       wp_body = Detail (py ''RATE_LIMIT_EXCEEDED'') (py ''Rate limit exceeded. Please retry later.'') \<rparr>"

definition rate_limit_backend_unavailable :: "'b response" where
  "rate_limit_backend_unavailable =
     \<lparr> wp_status = 503, wp_headers = [],
       wp_body = Detail (py ''RATE_LIMIT_BACKEND_UNAVAILABLE'') (py ''Rate limit backend is unavailable.'') \<rparr>"

definition record_backend_unavailable ::
  "'e event_store option \<Rightarrow> request \<Rightarrow> pystr \<Rightarrow> ('l, 'e, 'a) http_state \<Rightarrow> ('l, 'e, 'a) http_state" where
  "record_backend_unavailable event_store request message s =
     (case event_store of
        None \<Rightarrow> s
      | Some est \<Rightarrow> s\<lparr> hs_events := es_record est
          \<lparr> ev_event_type = py ''rate_limit.backend_unavailable'', ev_severity = Error,
            ev_source = py ''rate_limit'',
            ev_message = py ''Rate limit backend is unavailable: '' @ message,
            ev_details = [(py ''method'', wr_method request), (py ''path'', wr_path request)] \<rparr> (hs_events s) \<rparr>)"

definition rate_limit_middleware ::
  "ucd \<Rightarrow> settings \<Rightarrow> 'l limiter_check \<Rightarrow> 'e event_store option \<Rightarrow> pyfloat \<Rightarrow> pystr
     \<Rightarrow> ('b, ('l, 'e, 'a) http_state) app \<Rightarrow> ('b, ('l, 'e, 'a) http_state) app" where
  "rate_limit_middleware U settings check event_store now member call_next request s =
     (if \<not> cfg_rate_limit_enabled settings \<or> \<not> startswith (py ''/v1/'') (wr_path request)
      then call_next request s
      else (case check now member (bucket_key U request) (hs_limiter s) of
          (Inl (RateLimitBackendUnavailable message), l) \<Rightarrow>
            (let s1 = record_backend_unavailable event_store request message (s\<lparr> hs_limiter := l \<rparr>) in
             if cfg_rate_limit_fail_open settings
             then (case call_next request s1 of
                 (Inl e, s2) \<Rightarrow> (Inl e, s2)
               | (Inr response, s2) \<Rightarrow> (Inr (set_header (py ''x-ratelimit-backend'') (py ''unavailable'') response), s2))
             else (Inr rate_limit_backend_unavailable, s1))
        | (Inl e, l) \<Rightarrow> (Inl e, s\<lparr> hs_limiter := l \<rparr>)
        | (Inr decision, l) \<Rightarrow>
            if \<not> rd_allowed decision then (Inr (rate_limit_exceeded decision), s\<lparr> hs_limiter := l \<rparr>)
            else (case call_next request (s\<lparr> hs_limiter := l \<rparr>) of
                (Inl e, s2) \<Rightarrow> (Inl e, s2)
              | (Inr response, s2) \<Rightarrow> (Inr (apply_headers decision response), s2))))"

text \<open>The middlewares of \<open>main.py\<close>: the one added last is outermost.\<close>

definition middleware_stack ::
  "ucd \<Rightarrow> settings \<Rightarrow> 'l limiter_check \<Rightarrow> 'e event_store option \<Rightarrow> pyfloat \<Rightarrow> pystr \<Rightarrow> pystr
     \<Rightarrow> ('b, ('l, 'e, 'a) http_state) app \<Rightarrow> ('b, ('l, 'e, 'a) http_state) app" where
  "middleware_stack U settings check event_store now member uuid_hex routers =
     request_context_middleware uuid_hex (security_headers_middleware
       (rate_limit_middleware U settings check event_store now member routers))"

lemma record_backend_unavailable_frame [simp]:
  "hs_context (record_backend_unavailable est r m s) = hs_context s"
  "hs_limiter (record_backend_unavailable est r m s) = hs_limiter s"
  "hs_app (record_backend_unavailable est r m s) = hs_app s"
  by (simp_all add: record_backend_unavailable_def split: option.split)

lemma keeps_request_id_limiter:
  assumes "keeps_request_id routers"
  shows "keeps_request_id (rate_limit_middleware U settings check est now m routers)"
  unfolding keeps_request_id_def
proof (intro allI)
  fix r s
  have keep [simp]: "map_option rc_request_id (hs_context (snd (routers r s))) = map_option rc_request_id (hs_context s)"
    for r s using assms by (simp add: keeps_request_id_def)
  show "map_option rc_request_id (hs_context (snd (rate_limit_middleware U settings check est now m routers r s)))
      = map_option rc_request_id (hs_context s)"
    by (auto simp: rate_limit_middleware_def Let_def case_prod_unfold split: sum.split exn.split)
qed

section \<open>The Redis commands over lists\<close>

text \<open>The commands on sorted lists of score and member, a client that satisfies \<open>zset_ok\<close>.\<close>

definition list_zset :: "(pystr \<Rightarrow> (int \<times> pystr) list) zset" where
  "list_zset = \<lparr> zs_remrangebyscore = (\<lambda>k lo hi z. z(k := filter (\<lambda>e. \<not> (lo \<le> fst e \<and> fst e \<le> hi)) (z k))),
     zs_card = (\<lambda>k z. int (length (z k))),
     zs_first_score = (\<lambda>k z. case z k of [] \<Rightarrow> None | e # _ \<Rightarrow> Some (fst e)),
     zs_add = (\<lambda>k s m z. z(k := insort (s, m) (filter (\<lambda>e. snd e \<noteq> m) (z k)))),
     zs_pexpire = (\<lambda>k ms z. z), zs_eval = (\<lambda>f z. case f z of (r, z') \<Rightarrow> (Inr r, z')),
     zs_entries = (\<lambda>k z. z k) \<rparr>"

lemma list_zset_ok: "zset_ok list_zset"
  by (auto simp: zset_ok_def list_zset_def split: prod.splits)

section \<open>Properties\<close>

text \<open>
  Whether time \<open>t\<close> lies in the window that ends at \<open>u\<close>, on the clock of the chosen limiter: floats of
  seconds in memory, whole milliseconds in Redis.
\<close>

definition in_window :: "settings \<Rightarrow> pyfloat \<Rightarrow> pyfloat \<Rightarrow> bool" where
  "in_window s u t \<longleftrightarrow>
     (if cfg_rate_limit_backend s = py ''redis''
      then milliseconds u - cfg_rate_limit_window_seconds s * 1000 < milliseconds t \<and> milliseconds t \<le> milliseconds u
      else window_cutoff (cfg_rate_limit_window_seconds s) u < t \<and> t \<le> u)"

text \<open>
  C24: the limit holds in every window. For any history of checks whose times do not decrease, with
  either limiter, the number of admitted requests of one bucket inside any window is at most the
  configured number of requests, also when calls to Redis fail in between.
\<close>

theorem rate_limit_window_bound:
  assumes "valid_settings s" "zset_ok Z" "sorted (map fst xs)" "distinct (map (fst \<circ> snd) xs)"
    and "\<forall>m \<in> set (map (fst \<circ> snd) xs). redis_fresh Z m (ls_redis ls)"
  shows "int (length (filter (\<lambda>(t, k). k = bucket \<and> in_window s u t) (admitted (rate_limit_store s H Z) xs ls)))
    \<le> cfg_rate_limit_requests s"
proof (cases "cfg_rate_limit_backend s = py ''redis''")
  case True
  let ?c = "make_redis_rate_limit (cfg_rate_limit_requests s) (cfg_rate_limit_window_seconds s) (cfg_rate_limit_redis_prefix s)"
  have "rr_window_milliseconds ?c = cfg_rate_limit_window_seconds s * 1000" "rr_limit ?c = cfg_rate_limit_requests s"
    by (simp_all add: make_redis_rate_limit_def)
  with redis_limiter.window_bound [OF assms(2,3,4), where s = "ls_redis ls" and bucket = bucket and u = "milliseconds u"
      and H = H and c = ?c] assms(1,5) True
  show ?thesis by (simp add: admitted_store in_window_def valid_settings_def)
next
  case False
  with mem_limiter.window_bound [OF _ assms(3,4), where s = "ls_buckets ls" and bucket = bucket and u = u
      and w = "cfg_rate_limit_window_seconds s" and l = "cfg_rate_limit_requests s"] assms(1)
  show ?thesis by (simp add: admitted_store in_window_def valid_settings_def)
qed

definition two_per_minute :: settings where
  "two_per_minute = default_settings\<lparr> cfg_rate_limit_backend := py ''redis'', cfg_rate_limit_requests := 2 \<rparr>"

definition sample_checks :: "(pyfloat \<times> pystr \<times> pystr) list" where
  "sample_checks = [(1, py ''m1'', py ''k''), (2, py ''m2'', py ''k''), (3, py ''m3'', py ''k''), (62, py ''m4'', py ''k'')]"

definition empty_limiter :: "(pystr \<Rightarrow> (int \<times> pystr) list) limiter_state" where
  "empty_limiter = \<lparr> ls_buckets = (\<lambda>_. []), ls_redis = (\<lambda>_. []) \<rparr>"

theorem rate_limit_window_bound_witness:
  "admitted (rate_limit_store two_per_minute (\<lambda>_. py ''h'') list_zset) sample_checks empty_limiter
     = [(1, py ''k''), (2, py ''k''), (62, py ''k'')]
   \<and> int (length (filter (\<lambda>(t, k). k = py ''k'' \<and> in_window two_per_minute 3 t)
        (admitted (rate_limit_store two_per_minute (\<lambda>_. py ''h'') list_zset) sample_checks empty_limiter))) \<le> 2"
proof
  show "admitted (rate_limit_store two_per_minute (\<lambda>_. py ''h'') list_zset) sample_checks empty_limiter
     = [(1, py ''k''), (2, py ''k''), (62, py ''k'')]" by code_simp
  have "valid_settings two_per_minute" by code_simp
  from rate_limit_window_bound [OF this list_zset_ok, where xs = sample_checks and ls = empty_limiter and bucket = "py ''k''"
      and u = 3 and H = "\<lambda>_. py ''h''"]
  show "int (length (filter (\<lambda>(t, k). k = py ''k'' \<and> in_window two_per_minute 3 t)
        (admitted (rate_limit_store two_per_minute (\<lambda>_. py ''h'') list_zset) sample_checks empty_limiter))) \<le> 2"
    by (simp add: sample_checks_def empty_limiter_def redis_fresh_def list_zset_def two_per_minute_def)
qed


lemma rate_limit_exceeded_headers:
  "response_header (py ''retry-after'') (rate_limit_exceeded d) = Some (str_int (rd_retry_after_seconds d))"
  "response_header (py ''x-ratelimit-remaining'') (rate_limit_exceeded d) = Some (str_int (rd_remaining d))"
  "wp_status (rate_limit_exceeded d) = 429"
  by (simp_all add: rate_limit_exceeded_def apply_headers_def) (simp add: response_header_def)

text \<open>
  C26: a request over the limit is not served. It is answered with status 429, the time to wait and
  the state of its bucket, without the routers being called; only the limiter changes. When the
  limiter's backend is down and the middleware fails closed, the answer is 503, again without a call.
\<close>

theorem limited_request_not_served:
  assumes "cfg_rate_limit_enabled settings" "startswith (py ''/v1/'') (wr_path r)"
    and "check now m (bucket_key U r) (hs_limiter s) = (decision, l)"
    and "case decision of Inr d \<Rightarrow> \<not> rd_allowed d
      | Inl e \<Rightarrow> (\<exists>msg. e = RateLimitBackendUnavailable msg) \<and> \<not> cfg_rate_limit_fail_open settings"
  shows "\<exists>response s'. middleware_stack U settings check est now m uuid_hex routers r s = (Inr response, s')
    \<and> hs_app s' = hs_app s \<and> hs_limiter s' = l
    \<and> (case decision of
         Inr d \<Rightarrow> hs_events s' = hs_events s \<and> wp_status response = 429
           \<and> response_header (py ''retry-after'') response = Some (str_int (rd_retry_after_seconds d))
           \<and> response_header (py ''x-ratelimit-remaining'') response = Some (str_int (rd_remaining d))
       | Inl e \<Rightarrow> wp_status response = 503)"
proof -
  let ?c = "\<lparr> rc_request_id = py ''req_'' @ uuid_hex, rc_workspace_id = None, rc_workspace_name = None \<rparr>"
  show ?thesis
  proof (cases decision)
    case (Inl e)
    with assms(4) obtain msg where "e = RateLimitBackendUnavailable msg" "\<not> cfg_rate_limit_fail_open settings" by auto
    with assms Inl show ?thesis
      by (simp add: middleware_stack_def request_context_middleware_def security_headers_middleware_def
          rate_limit_middleware_def Let_def rate_limit_backend_unavailable_def)
  next
    case (Inr d)
    with assms Inr show ?thesis
      by (simp add: middleware_stack_def request_context_middleware_def security_headers_middleware_def
          rate_limit_middleware_def Let_def rate_limit_exceeded_headers)
  qed
qed

text \<open>
  C27: requests that each carry another bearer token are never limited. The token names the bucket
  before anyone has checked it, so with the limiter in memory every check of such a history is
  admitted, whatever the address the requests come from.
\<close>

theorem fresh_tokens_never_limited:
  assumes "0 < cfg_rate_limit_requests s" "cfg_rate_limit_backend s = py ''memory''"
    and "distinct (map (\<lambda>r. bearer_token U (header ''authorization'' r)) rs)"
    and "list_all (\<lambda>r. bearer_token U (header ''authorization'' r) \<noteq> []) rs"
    and "length ts = length rs" "length ms = length rs"
  shows "admitted (rate_limit_store s H Z) (zip ts (zip ms (map (bucket_key U) rs))) \<lparr> ls_buckets = (\<lambda>_. []), ls_redis = z \<rparr>
    = zip ts (map (bucket_key U) rs)"
proof -
  have key: "bucket_key U r = py ''auth_token:'' @ bearer_token U (header ''authorization'' r)" if "r \<in> set rs" for r
    using assms(4) that by (simp add: bucket_key_def Let_def list_all_iff)
  have "distinct (map (bucket_key U) rs)"
    using assms(3) key by (auto simp: distinct_map inj_on_def)
  then have "admitted (mem_check l w) (zip ts (zip ms (map (bucket_key U) rs))) b = zip ts (map (bucket_key U) rs)"
    if "0 < l" "\<forall>r \<in> set rs. b (bucket_key U r) = []" for l w and b :: buckets
    using assms(5,6) that
  proof (induction rs arbitrary: ts ms b)
    case (Cons r rs)
    from Cons.prems(2,3) obtain t ts' m ms' where ts: "ts = t # ts'" "ms = m # ms'"
      by (metis length_Suc_conv length_Cons)
    from Cons.prems(1) have neq: "\<forall>r' \<in> set rs. bucket_key U r' \<noteq> bucket_key U r"
      by (auto simp: image_iff)
    from Cons.prems have "admits (fst (mem_check l w t m (bucket_key U r) b))"
      by (simp add: mem_check_bucket prune_def)
    moreover have "admitted (mem_check l w) (zip ts' (zip ms' (map (bucket_key U) rs))) (snd (mem_check l w t m (bucket_key U r) b))
      = zip ts' (map (bucket_key U) rs)"
      using Cons.prems ts neq by (intro Cons.IH) (auto simp: mem_check_bucket)
    ultimately show ?case by (simp add: ts)
  qed simp
  with assms(1,2) show ?thesis by (simp add: admitted_store)
qed

definition sample_http_request :: "pystr \<Rightarrow> request" where
  "sample_http_request token = \<lparr> wr_method = py ''GET'', wr_path = py ''/v1/documents'',
     wr_headers = [(py ''authorization'', py ''Bearer '' @ token)], wr_client = Some (py ''10.0.0.1'') \<rparr>"

definition sample_http_state :: "((pystr \<Rightarrow> (int \<times> pystr) list) limiter_state, mem_events, nat) http_state" where
  "sample_http_state = \<lparr> hs_context = None, hs_limiter = empty_limiter, hs_events = new_event_store 200, hs_app = 0 \<rparr>"

text \<open>Routers that count their calls.\<close>

definition counting_routers ::
  "(unit, ((pystr \<Rightarrow> (int \<times> pystr) list) limiter_state, mem_events, nat) http_state) app" where
  "counting_routers r s = (Inr \<lparr> wp_status = 200, wp_headers = [], wp_body = Content () \<rparr>, s\<lparr> hs_app := hs_app s + 1 \<rparr>)"

definition limited_settings :: settings where
  "limited_settings = default_settings\<lparr> cfg_rate_limit_enabled := True, cfg_rate_limit_requests := 1 \<rparr>"

definition sample_stack where
  "sample_stack now = middleware_stack ascii_ucd limited_settings (rate_limit_store limited_settings (\<lambda>_. py ''h'') list_zset)
     (Some mem_event_store) now (py ''m'') (py ''0a'') counting_routers (sample_http_request (py ''t''))"

lemma sample_served:
  "map_prod (map_sum (\<lambda>_. ()) wp_status) hs_app (sample_stack 5 sample_http_state) = (Inr 200, 1)"
  by code_simp


theorem limited_request_not_served_witness:
  "\<exists>response s'. sample_stack 6 (snd (sample_stack 5 sample_http_state)) = (Inr response, s')
     \<and> wp_status response = 429 \<and> hs_app s' = 1"
proof -
  let ?s = "snd (sample_stack 5 sample_http_state)" and ?r = "sample_http_request (py ''t'')"
  let ?check = "rate_limit_store limited_settings (\<lambda>_. py ''h'') list_zset"
  let ?d = "?check 6 (py ''m'') (bucket_key ascii_ucd ?r) (hs_limiter ?s)"
  obtain decision l where d: "?d = (decision, l)" by fastforce
  have "map_sum (\<lambda>_. ()) rd_allowed (fst ?d) = Inr False" by code_simp
  with d obtain x where x: "decision = Inr x" "\<not> rd_allowed x" by (cases decision) auto
  have a: "cfg_rate_limit_enabled limited_settings" "startswith (py ''/v1/'') (wr_path ?r)"
    by (simp_all add: limited_settings_def sample_http_request_def) code_simp
  have n: "hs_app ?s = 1" by code_simp
  note limited_request_not_served [where settings = limited_settings and check = ?check and U = ascii_ucd
      and r = ?r and s = ?s and est = "Some mem_event_store" and uuid_hex = "py ''0a''" and routers = counting_routers,
      OF a d]
  with x n show ?thesis unfolding sample_stack_def [of 6] by auto
qed

theorem fresh_tokens_never_limited_witness:
  "admitted (rate_limit_store limited_settings (\<lambda>_. py ''h'') list_zset)
     (zip [1, 2] (zip [py ''m1'', py ''m2''] (map (bucket_key ascii_ucd) [sample_http_request (py ''a''), sample_http_request (py ''b'')])))
     empty_limiter
   = zip [1, 2] (map (bucket_key ascii_ucd) [sample_http_request (py ''a''), sample_http_request (py ''b'')])"
proof -
  have "distinct (map (\<lambda>r. bearer_token ascii_ucd (header ''authorization'' r)) [sample_http_request (py ''a''), sample_http_request (py ''b'')])"
    "list_all (\<lambda>r. bearer_token ascii_ucd (header ''authorization'' r) \<noteq> []) [sample_http_request (py ''a''), sample_http_request (py ''b'')]"
    by code_simp+
  note bound = fresh_tokens_never_limited [OF _ _ this]
  have "0 < cfg_rate_limit_requests limited_settings" "cfg_rate_limit_backend limited_settings = py ''memory''"
    by (simp_all add: limited_settings_def default_settings_def)
  then show ?thesis unfolding empty_limiter_def by (rule bound) simp_all
qed

end
