(* ===== verification/Auth_Store.thy ===== *)
theory Auth_Store
  imports Auth_Models Config UTF8
begin

text \<open>
  \<open>auth/store.py\<close> and \<open>auth/postgres_store.py\<close>, with the password hashes of \<open>auth/service.py\<close>: the
  configured users, the protocol \<open>AuthUserStore\<close> as the locale \<open>auth_user_store\<close>, and its two
  implementations. Both keep their users as a list with distinct employee numbers: a dictionary in
  insertion order in memory, the rows of a table with a primary key in PostgreSQL.

  The function \<open>pbkdf2\<close> (PBKDF2-HMAC-SHA256 with 120000 rounds, hexadecimal) of a password and a salt
  is a parameter; so are the random salts.
\<close>

section \<open>Password hashes\<close>

type_synonym kdf = "bytes \<Rightarrow> bytes \<Rightarrow> pystr"

definition hash_password :: "kdf \<Rightarrow> pystr \<Rightarrow> pystr \<Rightarrow> pystr res" where
  "hash_password pbkdf2 salt password =
     (case utf8_encode password of
        Inl e \<Rightarrow> Inl e
      | Inr p \<Rightarrow> (case utf8_encode salt of
          Inl e \<Rightarrow> Inl e
        | Inr s \<Rightarrow> Inr (py ''pbkdf2_sha256$'' @ salt @ py ''$'' @ pbkdf2 p s)))"

text \<open>\<open>hmac.compare_digest\<close> on two strings refuses text outside ASCII.\<close>

definition compare_digest :: "pystr \<Rightarrow> pystr \<Rightarrow> bool res" where
  "compare_digest a b =
     (if list_all (\<lambda>c. c < 128) a \<and> list_all (\<lambda>c. c < 128) b then Inr (a = b)
      else Inl (TypeError (py ''comparing strings with non-ASCII characters is not supported'')))"

text \<open>\<open>_verify_password\<close>; \<open>split("$", 2)\<close> needs two separators.\<close>

definition verify_password :: "kdf \<Rightarrow> pystr \<Rightarrow> pystr \<Rightarrow> bool res" where
  "verify_password pbkdf2 password password_hash =
     (let algorithm = before 36 password_hash; rest = after 36 password_hash;
          salt = before 36 rest; expected_digest = after 36 rest
      in if 36 \<notin> set password_hash \<or> 36 \<notin> set rest then Inr False
         else if algorithm \<noteq> py ''pbkdf2_sha256'' then Inr False
         else (case utf8_encode password of
             Inl e \<Rightarrow> Inl e
           | Inr p \<Rightarrow> (case utf8_encode salt of
               Inl e \<Rightarrow> Inl e
             | Inr s \<Rightarrow> compare_digest (pbkdf2 p s) expected_digest)))"

definition kdf_ok :: "kdf \<Rightarrow> bool" where
  "kdf_ok pbkdf2 \<longleftrightarrow> (\<forall>p s. list_all (\<lambda>c. c < 128 \<and> c \<noteq> 36) (pbkdf2 p s))"

lemma verify_hash:
  assumes "kdf_ok pbkdf2" "36 \<notin> set salt" "hash_password pbkdf2 salt password = Inr h"
  shows "verify_password pbkdf2 guess h =
    (case utf8_encode guess of Inl e \<Rightarrow> Inl e
     | Inr g \<Rightarrow> (case (utf8_encode password, utf8_encode salt) of
         (Inr p, Inr s) \<Rightarrow> Inr (pbkdf2 g s = pbkdf2 p s) | _ \<Rightarrow> Inr False))"
proof -
  from assms(3) obtain p s where p: "utf8_encode password = Inr p" and s: "utf8_encode salt = Inr s"
    and h: "h = py ''pbkdf2_sha256'' @ 36 # (salt @ 36 # pbkdf2 p s)"
    by (auto simp: hash_password_def py_def split: sum.splits)
  have no: "36 \<notin> set (py ''pbkdf2_sha256'')" by (simp add: py_def)
  have "before 36 h = py ''pbkdf2_sha256''" "after 36 h = salt @ 36 # pbkdf2 p s"
    using no by (simp_all add: h)
  moreover have "before 36 (salt @ 36 # pbkdf2 p s) = salt" "after 36 (salt @ 36 # pbkdf2 p s) = pbkdf2 p s"
    using assms(2) by simp_all
  moreover have "list_all (\<lambda>c. c < 128) (pbkdf2 x s)" for x
    using assms(1) by (auto simp: kdf_ok_def list_all_iff)
  ultimately show ?thesis using p s by (simp add: verify_password_def Let_def h compare_digest_def split: sum.split)
qed

section \<open>The configured users\<close>

definition normalize_optional :: "pystr option \<Rightarrow> pystr option" where
  "normalize_optional value =
     (case value of None \<Rightarrow> None | Some v \<Rightarrow> if strip v = [] then None else Some (strip v))"

definition bad_auth_users :: "string \<Rightarrow> exn" where
  "bad_auth_users message = ValueError (py ''DOCSEARCH_AUTH_USERS '' @ py message)"

text \<open>One entry; \<open>None\<close> for a blank one.\<close>

definition parse_auth_user :: "kdf \<Rightarrow> pystr \<Rightarrow> pystr \<Rightarrow> user_record option res" where
  "parse_auth_user pbkdf2 salt entry =
     (let normalized_entry = strip entry in
      if normalized_entry = [] then Inr None
      else (let parts = map strip (split_on 124 normalized_entry) in
        if length parts \<notin> {5, 6}
        then Inl (bad_auth_users ''entries must use employee_id|password|workspace_id|workspace_name|role(|display_name) format.'')
        else (let role = parts ! 4 in
          if role \<notin> set SUPPORTED_ROLES then Inl (bad_auth_users ''role must be one of: admin, member.'')
          else (let employee_id = strip (parts ! 0) in
            if employee_id = [] then Inl (bad_auth_users ''employee_id must not be empty.'')
            else (case hash_password pbkdf2 salt (parts ! 1) of
                Inl e \<Rightarrow> Inl e
              | Inr password_hash \<Rightarrow>
                  Inr (Some \<lparr> us_employee_id = employee_id, us_password_hash = password_hash,
                    us_workspace_id = parts ! 2, us_workspace_name = parts ! 3, us_role = role,
                    us_display_name = normalize_optional
                      (if length parts = 6 then Some (parts ! 5) else None) \<rparr>))))))"

text \<open>\<open>salts n\<close> is the salt drawn for the entry at position \<open>n\<close>.\<close>

fun parse_auth_users_loop ::
  "kdf \<Rightarrow> (nat \<Rightarrow> pystr) \<Rightarrow> nat \<Rightarrow> user_record list \<Rightarrow> pystr list \<Rightarrow> user_record list res" where
  "parse_auth_users_loop pbkdf2 salts n records [] = Inr records"
| "parse_auth_users_loop pbkdf2 salts n records (entry # entries) =
     (case parse_auth_user pbkdf2 (salts n) entry of
        Inl e \<Rightarrow> Inl e
      | Inr None \<Rightarrow> parse_auth_users_loop pbkdf2 salts (n + 1) records entries
      | Inr (Some u) \<Rightarrow> parse_auth_users_loop pbkdf2 salts (n + 1) (records @ [u]) entries)"

definition parse_auth_users :: "kdf \<Rightarrow> (nat \<Rightarrow> pystr) \<Rightarrow> pystr \<Rightarrow> user_record list res" where
  "parse_auth_users pbkdf2 salts raw_value = parse_auth_users_loop pbkdf2 salts 0 [] (split_on 59 raw_value)"

text \<open>What the parser guarantees of every record.\<close>

definition valid_user :: "user_record \<Rightarrow> bool" where
  "valid_user u \<longleftrightarrow> us_employee_id u \<noteq> [] \<and> strip (us_employee_id u) = us_employee_id u
     \<and> us_role u \<in> set SUPPORTED_ROLES \<and> us_display_name u \<noteq> Some []"

lemma parse_auth_user_valid: "parse_auth_user pbkdf2 salt entry = Inr (Some u) \<Longrightarrow> valid_user u"
  by (auto simp: parse_auth_user_def Let_def valid_user_def normalize_optional_def
      split: if_splits sum.splits option.splits)

lemma parse_auth_users_loop_valid:
  "parse_auth_users_loop pbkdf2 salts n records entries = Inr us \<Longrightarrow> list_all valid_user records \<Longrightarrow> list_all valid_user us"
  by (induction pbkdf2 salts n records entries rule: parse_auth_users_loop.induct)
    (auto split: sum.splits option.splits dest: parse_auth_user_valid)

section \<open>The protocol\<close>

record 'u user_store =
  ut_get :: "pystr \<Rightarrow> 'u \<Rightarrow> user_record option"
  ut_create :: "user_record \<Rightarrow> 'u \<Rightarrow> bool \<times> 'u"

locale auth_user_store =
  fixes st :: "'u user_store" and invar :: "'u \<Rightarrow> bool"
  assumes get_key: "invar s \<Longrightarrow> ut_get st k s = Some u \<Longrightarrow> us_employee_id u = k"
    and created: "invar s \<Longrightarrow> fst (ut_create st u s) \<longleftrightarrow> ut_get st (us_employee_id u) s = None"
    and get_create: "invar s \<Longrightarrow> ut_get st k (snd (ut_create st u s)) =
        (if k = us_employee_id u \<and> ut_get st k s = None then Some u else ut_get st k s)"
    and create_invar: "invar s \<Longrightarrow> invar (snd (ut_create st u s))"
begin

text \<open>No registration, successful or not, changes a user that exists.\<close>

lemma existing_kept: "invar s \<Longrightarrow> ut_get st k s = Some u \<Longrightarrow> ut_get st k (snd (ut_create st v s)) = Some u"
  by (simp add: get_create)

lemma existing_kept_run:
  "invar s \<Longrightarrow> ut_get st k s = Some u \<Longrightarrow>
     ut_get st k (fold (\<lambda>v s. snd (ut_create st v s)) vs s) = Some u"
  by (induction vs arbitrary: s) (simp_all add: existing_kept create_invar)

end

definition users_invar :: "user_record list \<Rightarrow> bool" where
  "users_invar us \<longleftrightarrow> distinct (map us_employee_id us)"

section \<open>InMemoryAuthUserStore\<close>

text \<open>A dictionary display keeps the place of the first and the value of the last entry of a key.\<close>

fun dict_put :: "user_record \<Rightarrow> user_record list \<Rightarrow> user_record list" where
  "dict_put r [] = [r]"
| "dict_put r (u # us) = (if us_employee_id u = us_employee_id r then r # us else u # dict_put r us)"

definition mem_seed_users :: "user_record list \<Rightarrow> user_record list" where
  "mem_seed_users seed_users = fold dict_put seed_users []"

definition mem_get_user :: "pystr \<Rightarrow> user_record list \<Rightarrow> user_record option" where
  "mem_get_user employee_id records = find (\<lambda>u. us_employee_id u = employee_id) records"

definition mem_create_user :: "user_record \<Rightarrow> user_record list \<Rightarrow> bool \<times> user_record list" where
  "mem_create_user r records =
     (if us_employee_id r \<in> us_employee_id ` set records then (False, records) else (True, records @ [r]))"

definition mem_user_store :: "user_record list user_store" where
  "mem_user_store = \<lparr> ut_get = mem_get_user, ut_create = mem_create_user \<rparr>"

lemma find_user_None: "find (\<lambda>u. us_employee_id u = k) us = None \<longleftrightarrow> k \<notin> us_employee_id ` set us"
  by (auto simp: find_None_iff)

interpretation mem_users: auth_user_store mem_user_store users_invar
proof unfold_locales
  fix s k u v
  show "ut_get mem_user_store k s = Some u \<Longrightarrow> us_employee_id u = k"
    by (auto simp: mem_user_store_def mem_get_user_def dest: find_SomeD)
  show "fst (ut_create mem_user_store u s) \<longleftrightarrow> ut_get mem_user_store (us_employee_id u) s = None"
    by (simp add: mem_user_store_def mem_get_user_def mem_create_user_def find_user_None)
  show "ut_get mem_user_store k (snd (ut_create mem_user_store u s)) =
      (if k = us_employee_id u \<and> ut_get mem_user_store k s = None then Some u else ut_get mem_user_store k s)"
    using find_user_None [of k s]
    by (auto simp: mem_user_store_def mem_get_user_def mem_create_user_def find_append split: option.split)
  show "users_invar s \<Longrightarrow> users_invar (snd (ut_create mem_user_store u s))"
    by (simp add: mem_user_store_def mem_create_user_def users_invar_def)
qed

lemma dict_put_keys: "us_employee_id ` set (dict_put r us) = insert (us_employee_id r) (us_employee_id ` set us)"
  by (induction r us rule: dict_put.induct) auto

lemma dict_put_invar: "users_invar us \<Longrightarrow> users_invar (dict_put r us)"
proof (induction r us rule: dict_put.induct)
  case (2 r u us)
  then show ?case using dict_put_keys [of r us] by (auto simp: users_invar_def)
qed (simp add: users_invar_def)

lemma dict_put_get:
  "users_invar us \<Longrightarrow> mem_get_user k (dict_put r us) = (if k = us_employee_id r then Some r else mem_get_user k us)"
  by (induction r us rule: dict_put.induct) (auto simp: mem_get_user_def users_invar_def)

lemma mem_seed_fold:
  "users_invar us \<Longrightarrow> users_invar (fold dict_put rs us)
     \<and> mem_get_user k (fold dict_put rs us) =
         (case find (\<lambda>u. us_employee_id u = k) (rev rs) of Some u \<Rightarrow> Some u | None \<Rightarrow> mem_get_user k us)"
  by (induction rs arbitrary: us) (auto simp: dict_put_invar dict_put_get find_append split: option.split)

section \<open>PostgresAuthUserStore\<close>

text \<open>
  The rows of \<open>auth_users\<close>, whose primary key is the employee number: a select on the key returns at
  most one row, an insert \<open>ON CONFLICT DO NOTHING RETURNING employee_id\<close> returns a row iff it inserted.
\<close>

definition pg_get_user :: "pystr \<Rightarrow> user_record list \<Rightarrow> user_record option" where
  "pg_get_user employee_id rows =
     (case filter (\<lambda>row. us_employee_id row = employee_id) rows of [] \<Rightarrow> None | row # _ \<Rightarrow> Some row)"

definition pg_create_user :: "user_record \<Rightarrow> user_record list \<Rightarrow> bool \<times> user_record list" where
  "pg_create_user r rows =
     (let inserted = filter (\<lambda>row. us_employee_id row = us_employee_id r) rows = [] in
      (inserted, if inserted then rows @ [r] else rows))"

definition pg_seed_users :: "user_record list \<Rightarrow> user_record list \<Rightarrow> user_record list" where
  "pg_seed_users seed_users rows = fold (\<lambda>r rows. snd (pg_create_user r rows)) seed_users rows"

definition pg_user_store :: "user_record list user_store" where
  "pg_user_store = \<lparr> ut_get = pg_get_user, ut_create = pg_create_user \<rparr>"

lemma pg_get_user_eq: "pg_get_user k rows = mem_get_user k rows"
  by (induction rows) (auto simp: pg_get_user_def mem_get_user_def)

lemma pg_create_eq: "pg_create_user r rows = mem_create_user r rows"
  using find_user_None [of "us_employee_id r" rows]
  by (auto simp: pg_create_user_def mem_create_user_def filter_empty_conv Let_def find_None_iff)

lemma pg_store_eq: "pg_user_store = mem_user_store"
  by (simp add: pg_user_store_def mem_user_store_def fun_eq_iff pg_get_user_eq pg_create_eq)

interpretation pg_users: auth_user_store pg_user_store users_invar
  unfolding pg_store_eq by (rule mem_users.auth_user_store_axioms)

lemma pg_seed_fold:
  "users_invar us \<Longrightarrow> users_invar (pg_seed_users rs us)
     \<and> pg_get_user k (pg_seed_users rs us) =
         (case pg_get_user k us of Some u \<Rightarrow> Some u | None \<Rightarrow> find (\<lambda>u. us_employee_id u = k) rs)"
proof (induction rs arbitrary: us)
  case (Cons r rs)
  have i: "users_invar (snd (pg_create_user r us))"
    using pg_users.create_invar [OF Cons.prems, of r] by (simp add: pg_user_store_def)
  have "pg_get_user k (snd (pg_create_user r us)) =
      (if k = us_employee_id r \<and> pg_get_user k us = None then Some r else pg_get_user k us)"
    using pg_users.get_create [OF Cons.prems, of k r] unfolding pg_user_store_def user_store.simps .
  with Cons.IH [OF i] show ?case
    by (cases "k = us_employee_id r"; cases "pg_get_user k us") (simp_all add: pg_seed_users_def)
qed (auto simp: pg_seed_users_def split: option.split)

section \<open>The store the settings choose\<close>

text \<open>The rows a database already holds are an argument.\<close>

definition create_auth_user_store ::
  "kdf \<Rightarrow> (nat \<Rightarrow> pystr) \<Rightarrow> settings \<Rightarrow> user_record list \<Rightarrow> (user_record list user_store \<times> user_record list) res" where
  "create_auth_user_store pbkdf2 salts s rows =
     (case parse_auth_users pbkdf2 salts (cfg_auth_users s) of
        Inl e \<Rightarrow> Inl e
      | Inr seed_users \<Rightarrow>
          if cfg_auth_user_backend s = py ''postgres''
          then Inr (pg_user_store, pg_seed_users seed_users rows)
          else Inr (mem_user_store, mem_seed_users seed_users))"

definition build_member_user_record ::
  "pystr \<Rightarrow> pystr \<Rightarrow> pystr \<Rightarrow> pystr \<Rightarrow> pystr option \<Rightarrow> user_record" where
  "build_member_user_record employee_id password_hash workspace_id workspace_name display_name =
     \<lparr> us_employee_id = employee_id, us_password_hash = password_hash, us_workspace_id = workspace_id,
       us_workspace_name = workspace_name, us_role = MEMBER_ROLE, us_display_name = display_name \<rparr>"

lemma created_store_ok:
  assumes "create_auth_user_store pbkdf2 salts s rows = Inr (st, us)" "users_invar rows"
  shows "auth_user_store st users_invar" "users_invar us"
  using assms mem_seed_fold [of "[]"] pg_seed_fold [OF assms(2)] mem_users.auth_user_store_axioms
    pg_users.auth_user_store_axioms
  by (auto simp: create_auth_user_store_def mem_seed_users_def users_invar_def split: sum.splits if_splits)

end
