(* ===== verification/Base64.thy ===== *)
theory Base64
  imports UTF8
begin

text \<open>
  \<open>base64.urlsafe_b64encode\<close> and \<open>base64.urlsafe_b64decode\<close> of the Python standard library as
  \<open>_base64url_encode\<close> and \<open>_base64url_decode\<close> of \<open>auth/service.py\<close> use them: the encoder drops the
  padding, the decoder restores it. The decoder is the lenient one of \<open>binascii.a2b_base64\<close>: it skips
  characters outside the alphabet and stops at a complete padding.

  Decoding inverts encoding (\<open>base64url_round_trip\<close>), by three-byte groups.
\<close>

section \<open>Encoding\<close>

definition b64_char :: "nat \<Rightarrow> nat" where
  "b64_char n = (if n < 26 then 65 + n else if n < 52 then 71 + n else if n < 62 then n - 4
     else if n = 62 then 45 else 95)"

fun b64_encode :: "bytes \<Rightarrow> pystr" where
  "b64_encode [] = []"
| "b64_encode [a] = [b64_char (a div 4), b64_char (a mod 4 * 16), 61, 61]"
| "b64_encode [a, b] = [b64_char (a div 4), b64_char (a mod 4 * 16 + b div 16), b64_char (b mod 16 * 4), 61]"
| "b64_encode (a # b # c # r) =
     [b64_char (a div 4), b64_char (a mod 4 * 16 + b div 16), b64_char (b mod 16 * 4 + c div 64),
      b64_char (c mod 64)] @ b64_encode r"

definition base64url_encode :: "bytes \<Rightarrow> pystr" where
  "base64url_encode value = rstrip_while (\<lambda>c. c = 61) (b64_encode value)"

section \<open>Decoding\<close>

text \<open>The value of a character; \<open>+\<close> and \<open>/\<close> are accepted beside \<open>-\<close> and \<open>_\<close>.\<close>

definition b64_value :: "nat \<Rightarrow> nat option" where
  "b64_value c = (if 65 \<le> c \<and> c \<le> 90 then Some (c - 65)
     else if 97 \<le> c \<and> c \<le> 122 then Some (c - 71)
     else if 48 \<le> c \<and> c \<le> 57 then Some (c + 4)
     else if c = 43 \<or> c = 45 then Some 62
     else if c = 47 \<or> c = 95 then Some 63 else None)"

text \<open>
  The state of the loop: the position in the group of four, the bits left over from the last
  character, the number of padding characters since it, and the bytes so far. A bitwise or of
  disjoint bits is a sum.
\<close>

fun a2b_base64 :: "nat \<Rightarrow> nat \<Rightarrow> nat \<Rightarrow> bytes \<Rightarrow> pystr \<Rightarrow> bytes res" where
  "a2b_base64 quad_pos leftchar pads out [] =
     (if quad_pos = 0 then Inr out
      else if quad_pos = 1 then Inl (ValueError (py ''Invalid base64-encoded string''))
      else Inl (ValueError (py ''Incorrect padding'')))"
| "a2b_base64 quad_pos leftchar pads out (c # cs) =
     (if c = 61
      then (if 2 \<le> quad_pos \<and> 4 \<le> quad_pos + (pads + 1) then Inr out
            else a2b_base64 quad_pos leftchar (if 2 \<le> quad_pos then pads + 1 else pads) out cs)
      else (case b64_value c of
          None \<Rightarrow> a2b_base64 quad_pos leftchar pads out cs
        | Some v \<Rightarrow>
            if quad_pos = 0 then a2b_base64 1 v 0 out cs
            else if quad_pos = 1 then a2b_base64 2 (v mod 16) 0 (out @ [leftchar * 4 + v div 16]) cs
            else if quad_pos = 2 then a2b_base64 3 (v mod 4) 0 (out @ [leftchar * 16 + v div 4]) cs
            else a2b_base64 0 0 0 (out @ [leftchar * 64 + v]) cs))"

definition base64url_decode :: "pystr \<Rightarrow> bytes res" where
  "base64url_decode value =
     (let padding = replicate (nat ((- int (length value)) mod 4)) 61 in
      if list_all (\<lambda>c. c < 128) value then a2b_base64 0 0 0 [] (value @ padding)
      else Inl (ValueError (py ''string argument should contain only ASCII characters'')))"

section \<open>Round trip\<close>

lemma b64_value_char: "n < 64 \<Longrightarrow> b64_value (b64_char n) = Some n"
  by (auto simp: b64_value_def b64_char_def)

lemma b64_char_facts: "b64_char n \<noteq> 61" "b64_char n \<noteq> 46" "b64_char n < 128"
  by (auto simp: b64_char_def)

lemma byte_parts: "b < 256 \<Longrightarrow> b div 4 < 64 \<and> b div 16 < 16 \<and> b div 64 < 4" for b :: nat
  by (auto intro: less_mult_imp_div_less)

lemma sextet:
  fixes x y :: nat
  shows "x < 4 \<Longrightarrow> y < 16 \<Longrightarrow> x * 16 + y < 64 \<and> (x * 16 + y) mod 16 = y \<and> (x * 16 + y) div 16 = x"
    and "x < 16 \<Longrightarrow> y < 4 \<Longrightarrow> x * 4 + y < 64 \<and> (x * 4 + y) mod 4 = y \<and> (x * 4 + y) div 4 = x"
  by auto

text \<open>One complete group.\<close>

lemma decode_group:
  assumes "a < 256" "b < 256" "c < 256"
  shows "a2b_base64 0 l p out (b64_char (a div 4) # b64_char (a mod 4 * 16 + b div 16)
      # b64_char (b mod 16 * 4 + c div 64) # b64_char (c mod 64) # r) = a2b_base64 0 0 0 (out @ [a, b, c]) r"
proof -
  have v: "a div 4 < 64" "c mod 64 < 64" using assms byte_parts [of a] by simp_all
  note s = sextet(1) [of "a mod 4" "b div 16"] sextet(2) [of "b mod 16" "c div 64"] byte_parts [OF assms(2)]
    byte_parts [OF assms(3)]
  have "a div 4 * 4 + a mod 4 = a" "b div 16 * 16 + b mod 16 = b" "c div 64 * 64 + c mod 64 = c"
    by simp_all
  with v s show ?thesis by (simp add: b64_value_char b64_char_facts)
qed

lemma decode_encode: "\<forall>b \<in> set bs. b < 256 \<Longrightarrow> a2b_base64 0 0 0 out (b64_encode bs) = Inr (out @ bs)"
proof (induction bs arbitrary: out rule: b64_encode.induct)
  case (2 a)
  then show ?case using byte_parts [of a] sextet(1) [of "a mod 4" 0] by (simp add: b64_value_char b64_char_facts)
next
  case (3 a b)
  then show ?case
    using byte_parts [of a] byte_parts [of b] sextet(1) [of "a mod 4" "b div 16"] sextet(2) [of "b mod 16" 0]
    by (simp add: b64_value_char b64_char_facts)
next
  case (4 a b c r)
  then show ?case by (simp add: decode_group del: a2b_base64.simps)
qed simp

text \<open>The decoder restores exactly the padding the encoder dropped.\<close>

lemma rstrip_snoc: "rstrip_while P (s @ [c]) = (if P c then rstrip_while P s else s @ [c])"
  by (simp add: rstrip_while_def)

lemma b64_encode_shape:
  "\<exists>s k. b64_encode bs = s @ replicate k 61 \<and> k < 4 \<and> 4 dvd length s + k \<and> 61 \<notin> set s
     \<and> (\<forall>c \<in> set s. \<exists>n. c = b64_char n)"
proof (induction bs rule: b64_encode.induct)
  case (2 a)
  have "(4::nat) dvd Suc (Suc (Suc (Suc 0)))" by (simp add: numeral_eq_Suc)
  then show ?case
    by (intro exI [of _ "[b64_char (a div 4), b64_char (a mod 4 * 16)]"] exI [of _ "Suc (Suc 0)"])
      (auto simp: b64_char_facts(1) [symmetric])
next
  case (3 a b)
  have "(4::nat) dvd Suc (Suc (Suc (Suc 0)))" by (simp add: numeral_eq_Suc)
  then show ?case
    by (intro exI [of _ "[b64_char (a div 4), b64_char (a mod 4 * 16 + b div 16), b64_char (b mod 16 * 4)]"] exI [of _ "Suc 0"])
      (auto simp: b64_char_facts(1) [symmetric])
next
  case (4 a b c r)
  then obtain s k where s: "b64_encode r = s @ replicate k 61" "k < 4" "4 dvd length s + k" "61 \<notin> set s"
    "\<forall>c \<in> set s. \<exists>n. c = b64_char n" by blast
  let ?g = "[b64_char (a div 4), b64_char (a mod 4 * 16 + b div 16), b64_char (b mod 16 * 4 + c div 64), b64_char (c mod 64)]"
  have "4 dvd Suc (Suc (Suc (Suc (length s + k))))" using s(3) by presburger
  with s show ?case
    by (intro exI [of _ "?g @ s"] exI [of _ k]) (auto simp: b64_char_facts(1) [symmetric])
qed auto

lemma base64url_encode_shape:
  obtains k where "b64_encode bs = base64url_encode bs @ replicate k 61" "k < 4" "4 dvd length (base64url_encode bs) + k"
    and "\<forall>c \<in> set (base64url_encode bs). \<exists>n. c = b64_char n"
proof -
  from b64_encode_shape [of bs] obtain s k where s: "b64_encode bs = s @ replicate k 61" "k < 4"
    "4 dvd length s + k" "61 \<notin> set s" "\<forall>c \<in> set s. \<exists>n. c = b64_char n" by blast
  have "rstrip_while (\<lambda>c. c = 61) (s @ replicate k 61) = s"
  proof (induction k)
    case 0
    then show ?case using s(4) by (cases s rule: rev_cases) (auto simp: rstrip_while_def)
  next
    case (Suc k)
    then show ?case by (simp add: replicate_append_same [symmetric] rstrip_snoc flip: append_assoc)
  qed
  then have "base64url_encode bs = s" by (simp add: base64url_encode_def s(1))
  with s that show ?thesis by metis
qed

lemma padding_unique: "k < 4 \<Longrightarrow> 4 dvd n + k \<Longrightarrow> nat ((- int n) mod 4) = k"
proof -
  assume k: "k < 4" and "4 dvd n + k"
  then obtain m where "n + k = 4 * m" by (auto simp: dvd_def)
  then have "- int n = int k + int m * (- 4)" by linarith
  then have "(- int n) mod 4 = int k mod 4" by (simp add: mod_diff_eq [symmetric])
  with k show ?thesis by simp
qed

lemma base64url_encode_chars: "c \<in> set (base64url_encode bs) \<Longrightarrow> c < 128 \<and> c \<noteq> 46 \<and> c \<noteq> 61"
  using base64url_encode_shape [of bs] b64_char_facts by metis

theorem base64url_round_trip: "\<forall>b \<in> set bs. b < 256 \<Longrightarrow> base64url_decode (base64url_encode bs) = Inr bs"
proof -
  assume bytes: "\<forall>b \<in> set bs. b < 256"
  obtain k where k: "b64_encode bs = base64url_encode bs @ replicate k 61" "k < 4"
    "4 dvd length (base64url_encode bs) + k"
    by (rule base64url_encode_shape)
  with decode_encode [OF bytes, of "[]"] base64url_encode_chars show ?thesis
    by (auto simp: base64url_decode_def padding_unique list_all_iff Let_def)
qed

end
