(* ===== verification/Auth.thy ===== *)
theory Auth
  imports Auth_Store Base64 Json_Text Web
begin

text \<open>
  \<open>auth/service.py\<close>: API keys, registration and login, and access tokens, from their making to their
  validation.

  HMAC-SHA256 is a parameter of the definitions (\<open>hmac\<close>, key and message to digest), as is the text
  Python's \<open>str\<close> gives for floats, lists and dictionaries (\<open>repr\<close>); a token the service made holds none
  of them. Time is in microseconds since the epoch.
\<close>

section \<open>Messages\<close>

definition DUPLICATE_MESSAGE :: pystr where
  "DUPLICATE_MESSAGE = [51060, 48120, 32, 44032, 51077, 46108, 32, 49324, 48264, 51077, 45768, 45796, 46]"

definition CREDENTIALS_MESSAGE :: pystr where
  "CREDENTIALS_MESSAGE = [49324, 48264, 32, 46608, 45716, 32, 48708, 48128, 48264, 54840, 44032, 32, 50732, 48148, 47476, 51648, 32, 50506, 49845, 45768, 45796, 46]"

definition TOKEN_MESSAGE :: pystr where
  "TOKEN_MESSAGE = [47196, 44536, 51064, 32, 53664, 53360, 51060, 32, 50732, 48148, 47476, 51648, 32, 50506, 49845, 45768, 45796, 46]"

definition EXPIRED_MESSAGE :: pystr where
  "EXPIRED_MESSAGE = [47196, 44536, 51064, 51060, 32, 47564, 47308, 46104, 50632, 49845, 45768, 45796, 46]"

definition EMPLOYEE_MESSAGE :: pystr where
  "EMPLOYEE_MESSAGE = [49324, 48264, 51012, 32, 51077, 47141, 54616, 49464, 50836, 46]"

definition PASSWORD_MESSAGE :: pystr where
  "PASSWORD_MESSAGE = [48708, 48128, 48264, 54840, 45716, 32, 52, 51088, 32, 51060, 49345, 51060, 50612, 50556, 32, 54633, 45768, 45796, 46]"

section \<open>API keys\<close>

definition bad_api_keys :: "string \<Rightarrow> exn" where
  "bad_api_keys message = ValueError (py ''DOCSEARCH_API_KEYS '' @ py message)"

definition parse_api_key :: "pystr \<Rightarrow> api_key_record option res" where
  "parse_api_key entry =
     (let normalized_entry = strip entry in
      if normalized_entry = [] then Inr None
      else (let parts = map strip (split_on 124 normalized_entry) in
        if length parts \<notin> {3, 4}
        then Inl (bad_api_keys ''entries must use api_key|workspace_id|workspace_name(|role) format.'')
        else (let role = (if length parts = 4 then parts ! 3 else MEMBER_ROLE) in
          if role \<notin> set SUPPORTED_ROLES then Inl (bad_api_keys ''role must be one of: admin, member.'')
          else Inr (Some \<lparr> ak_api_key = parts ! 0, ak_workspace_id = parts ! 1,
            ak_workspace_name = parts ! 2, ak_role = role \<rparr>))))"

fun parse_api_keys_loop :: "api_key_record list \<Rightarrow> pystr list \<Rightarrow> api_key_record list res" where
  "parse_api_keys_loop records [] = Inr records"
| "parse_api_keys_loop records (entry # entries) =
     (case parse_api_key entry of
        Inl e \<Rightarrow> Inl e
      | Inr None \<Rightarrow> parse_api_keys_loop records entries
      | Inr (Some k) \<Rightarrow> parse_api_keys_loop (records @ [k]) entries)"

definition parse_api_keys :: "pystr \<Rightarrow> api_key_record list res" where
  "parse_api_keys raw_value = parse_api_keys_loop [] (split_on 59 raw_value)"

fun find_api_key :: "api_key_record list \<Rightarrow> pystr \<Rightarrow> api_key_record option res" where
  "find_api_key [] api_key = Inr None"
| "find_api_key (k # ks) api_key =
     (case compare_digest (ak_api_key k) api_key of
        Inl e \<Rightarrow> Inl e
      | Inr same \<Rightarrow> if same then Inr (Some k) else find_api_key ks api_key)"

text \<open>The list of records is parsed once and kept; parsing is a function of the settings.\<close>

definition validate_api_key :: "settings \<Rightarrow> pystr \<Rightarrow> api_key_record option res" where
  "validate_api_key s api_key =
     (case parse_api_keys (cfg_api_keys s) of Inl e \<Rightarrow> Inl e | Inr records \<Rightarrow> find_api_key records api_key)"

section \<open>Registration and login\<close>

record 'u auth_service =
  au_settings :: settings
  au_store :: "'u user_store"

definition normalize_employee_id :: "pystr \<Rightarrow> pystr res" where
  "normalize_employee_id employee_id =
     (if strip employee_id = [] then Inl (AuthError EMPLOYEE_MESSAGE) else Inr (strip employee_id))"

definition validate_password :: "pystr \<Rightarrow> unit res" where
  "validate_password password = (if length password < 4 then Inl (AuthError PASSWORD_MESSAGE) else Inr ())"

definition register_user ::
  "kdf \<Rightarrow> 'u auth_service \<Rightarrow> pystr \<Rightarrow> pystr \<Rightarrow> pystr \<Rightarrow> pystr option \<Rightarrow> 'u \<Rightarrow> user_record res \<times> 'u" where
  "register_user pbkdf2 sv salt employee_id password display_name users =
     (case normalize_employee_id employee_id of
        Inl e \<Rightarrow> (Inl e, users)
      | Inr normalized \<Rightarrow>
          (case validate_password password of
             Inl e \<Rightarrow> (Inl e, users)
           | Inr _ \<Rightarrow>
               if ut_get (au_store sv) normalized users \<noteq> None
               then (Inl (DuplicateUserError DUPLICATE_MESSAGE), users)
               else (case hash_password pbkdf2 salt password of
                   Inl e \<Rightarrow> (Inl e, users)
                 | Inr password_hash \<Rightarrow>
                     (let r = build_member_user_record normalized password_hash
                           (cfg_signup_default_workspace_id (au_settings sv))
                           (cfg_signup_default_workspace_name (au_settings sv))
                           (normalize_optional display_name);
                          (inserted, users') = ut_create (au_store sv) r users
                      in if inserted then (Inr r, users')
                         else (Inl (DuplicateUserError DUPLICATE_MESSAGE), users')))))"

definition authenticate_user :: "kdf \<Rightarrow> 'u auth_service \<Rightarrow> pystr \<Rightarrow> pystr \<Rightarrow> 'u \<Rightarrow> user_record res" where
  "authenticate_user pbkdf2 sv employee_id password users =
     (case normalize_employee_id employee_id of
        Inl e \<Rightarrow> Inl e
      | Inr normalized \<Rightarrow>
          (case ut_get (au_store sv) normalized users of
             None \<Rightarrow> Inl (InvalidCredentialsError CREDENTIALS_MESSAGE)
           | Some r \<Rightarrow>
               (case verify_password pbkdf2 password (us_password_hash r) of
                  Inl e \<Rightarrow> Inl e
                | Inr ok \<Rightarrow> if ok then Inr r else Inl (InvalidCredentialsError CREDENTIALS_MESSAGE))))"

section \<open>Access tokens\<close>

type_synonym hmac = "bytes \<Rightarrow> bytes \<Rightarrow> bytes"

text \<open>\<open>int(t.timestamp())\<close>.\<close>

definition epoch_seconds :: "timestamp \<Rightarrow> int" where
  "epoch_seconds t = trunc (idiv t 1000000)"

definition sign :: "hmac \<Rightarrow> settings \<Rightarrow> pystr \<Rightarrow> pystr res" where
  "sign hm s encoded_payload =
     (case utf8_encode (cfg_auth_token_secret s) of
        Inl e \<Rightarrow> Inl e
      | Inr key \<Rightarrow> (case utf8_encode encoded_payload of
          Inl e \<Rightarrow> Inl e
        | Inr message \<Rightarrow> Inr (base64url_encode (hm key message))))"

definition token_fields :: "user_record \<Rightarrow> int \<Rightarrow> (pystr \<times> field_value) list" where
  "token_fields r expires_at =
     [(py ''employee_id'', FStr (us_employee_id r)),
      (py ''workspace_id'', FStr (us_workspace_id r)),
      (py ''workspace_name'', FStr (us_workspace_name r)),
      (py ''role'', FStr (us_role r)),
      (py ''display_name'', (case us_display_name r of None \<Rightarrow> FNull | Some d \<Rightarrow> FStr d)),
      (py ''exp'', FInt expires_at)]"

definition token_expiry :: "settings \<Rightarrow> timestamp \<Rightarrow> int" where
  "token_expiry s now = epoch_seconds (now + cfg_auth_token_ttl_seconds s * 1000000)"

definition create_access_token :: "hmac \<Rightarrow> settings \<Rightarrow> timestamp \<Rightarrow> user_record \<Rightarrow> pystr res" where
  "create_access_token hm s now r =
     (case utf8_encode (dumps_object False (py '','') (py '':'') (token_fields r (token_expiry s now))) of
        Inl e \<Rightarrow> Inl e
      | Inr payload \<Rightarrow>
          (let encoded_payload = base64url_encode payload in
           case sign hm s encoded_payload of
             Inl e \<Rightarrow> Inl e
           | Inr signature \<Rightarrow> Inr (encoded_payload @ py ''.'' @ signature)))"

text \<open>
  \<open>json.loads\<close> on bytes: the encoding is detected by the byte order mark and the zero bytes, UTF-8 is
  decoded with the handler \<open>surrogatepass\<close>. Texts in UTF-16 or UTF-32 are decoded by \<open>wide\<close>.
\<close>

definition is_wide :: "bytes \<Rightarrow> bool" where
  "is_wide b \<longleftrightarrow> take 2 b = [254, 255] \<or> take 2 b = [255, 254] \<or> take 4 b = [0, 0, 254, 255]
     \<or> (if 4 \<le> length b then b ! 0 = 0 \<or> b ! 1 = 0 else length b = 2 \<and> (b ! 0 = 0 \<or> b ! 1 = 0))"

definition decode_surrogate :: "bytes \<Rightarrow> (nat \<times> bytes) option" where
  "decode_surrogate bs = (case bs of
     b # b1 # b2 # r \<Rightarrow> if b = 237 \<and> 160 \<le> b1 \<and> b1 < 192 \<and> is_cont b2
       then Some (53248 + (b1 - 128) * 64 + (b2 - 128), r) else None
   | _ \<Rightarrow> None)"

fun surrogatepass_decode :: "nat \<Rightarrow> bytes \<Rightarrow> pystr option" where
  "surrogatepass_decode 0 bs = (if bs = [] then Some [] else None)"
| "surrogatepass_decode (Suc n) bs =
     (if bs = [] then Some []
      else (case (case decode_cp bs of None \<Rightarrow> decode_surrogate bs | Some x \<Rightarrow> Some x) of
          None \<Rightarrow> None
        | Some (c, r) \<Rightarrow> map_option (\<lambda>s. c # s) (surrogatepass_decode n r)))"

definition json_loads_bytes :: "(bytes \<Rightarrow> pystr res) \<Rightarrow> bytes \<Rightarrow> json res" where
  "json_loads_bytes wide b =
     (case (if is_wide b then wide b
            else (let body = (if take 3 b = [239, 187, 191] then drop 3 b else b) in
              case surrogatepass_decode (length body) body of
                None \<Rightarrow> Inl (ValueError (py ''invalid utf-8'')) | Some s \<Rightarrow> Inr s)) of
        Inl e \<Rightarrow> Inl e
      | Inr s \<Rightarrow> json_loads s)"

text \<open>\<open>int(v)\<close> and \<open>str(v)\<close> of a JSON value.\<close>

fun int_of_json :: "ucd \<Rightarrow> json \<Rightarrow> int res" where
  "int_of_json U (JInt i) = Inr i"
| "int_of_json U (JBool b) = Inr (if b then 1 else 0)"
| "int_of_json U (JFloat x) = Inr (trunc x)"
| "int_of_json U (JStr s) = int_of_str U s"
| "int_of_json U v = Inl (TypeError (py ''int() argument must be a string, a bytes-like object or a real number, not ''
     @ quoted (json_type v)))"

fun str_of_json :: "(json \<Rightarrow> pystr) \<Rightarrow> json \<Rightarrow> pystr" where
  "str_of_json repr (JStr s) = s"
| "str_of_json repr (JInt i) = str_int i"
| "str_of_json repr (JBool b) = (if b then py ''True'' else py ''False'')"
| "str_of_json repr JNull = py ''None''"
| "str_of_json repr v = repr v"

definition token_user :: "(json \<Rightarrow> pystr) \<Rightarrow> (pystr \<times> json) list \<Rightarrow> user_record res" where
  "token_user repr d =
     (case (map_of d (py ''employee_id''), map_of d (py ''workspace_id''), map_of d (py ''workspace_name''),
            (case map_of d (py ''display_name'') of None \<Rightarrow> Inr None | Some JNull \<Rightarrow> Inr None
               | Some (JStr s) \<Rightarrow> Inr (Some s) | Some _ \<Rightarrow> Inl (ValueError (py ''display_name'')))) of
        (None, _, _, _) \<Rightarrow> Inl (KeyError (quoted (py ''employee_id'')))
      | (_, None, _, _) \<Rightarrow> Inl (KeyError (quoted (py ''workspace_id'')))
      | (_, _, None, _) \<Rightarrow> Inl (KeyError (quoted (py ''workspace_name'')))
      | (_, _, _, Inl e) \<Rightarrow> Inl e
      | (Some employee_id, Some workspace_id, Some workspace_name, Inr display_name) \<Rightarrow>
          Inr \<lparr> us_employee_id = str_of_json repr employee_id, us_password_hash = [],
            us_workspace_id = str_of_json repr workspace_id, us_workspace_name = str_of_json repr workspace_name,
            us_role = (case map_of d (py ''role'') of None \<Rightarrow> MEMBER_ROLE | Some v \<Rightarrow> str_of_json repr v),
            us_display_name = display_name \<rparr>)"

record token_codec =
  tc_hmac :: hmac
  tc_repr :: "json \<Rightarrow> pystr"
  tc_wide :: "bytes \<Rightarrow> pystr res"
  tc_ucd :: ucd

definition validate_payload :: "token_codec \<Rightarrow> timestamp \<Rightarrow> json \<Rightarrow> user_record res" where
  "validate_payload T now payload =
     (case as_obj payload of
        None \<Rightarrow> Inl (no_attribute_get payload)
      | Some d \<Rightarrow>
          (case int_of_json (tc_ucd T) (case map_of d (py ''exp'') of None \<Rightarrow> JInt 0 | Some v \<Rightarrow> v) of
             Inl e \<Rightarrow> Inl e
           | Inr expires_at \<Rightarrow>
               if expires_at < epoch_seconds now then Inl (InvalidTokenError EXPIRED_MESSAGE)
               else token_user (tc_repr T) d))"

definition validate_access_token :: "token_codec \<Rightarrow> settings \<Rightarrow> timestamp \<Rightarrow> pystr \<Rightarrow> user_record res" where
  "validate_access_token T s now token =
     (if 46 \<notin> set token then Inl (InvalidTokenError TOKEN_MESSAGE)
      else (let encoded_payload = before 46 token; signature = after 46 token in
        case sign (tc_hmac T) s encoded_payload of
          Inl e \<Rightarrow> Inl e
        | Inr expected \<Rightarrow> (case compare_digest signature expected of
            Inl e \<Rightarrow> Inl e
          | Inr same \<Rightarrow>
              if \<not> same then Inl (InvalidTokenError TOKEN_MESSAGE)
              else (case base64url_decode encoded_payload of
                  Inl e \<Rightarrow> Inl (InvalidTokenError TOKEN_MESSAGE)
                | Inr b \<Rightarrow> (case json_loads_bytes (tc_wide T) b of
                    Inl e \<Rightarrow> Inl (InvalidTokenError TOKEN_MESSAGE)
                  | Inr payload \<Rightarrow> validate_payload T now payload)))))"

section \<open>Facts about tokens\<close>

lemma surrogatepass_decode_eq:
  "utf8_decode_loop bs = Some s \<Longrightarrow> length bs \<le> n \<Longrightarrow> surrogatepass_decode n bs = Some s"
proof (induction n arbitrary: bs s)
  case 0
  then show ?case by (simp add: utf8_decode_loop.simps)
next
  case (Suc n)
  show ?case
  proof (cases "bs = []")
    case False
    with Suc.prems obtain c r s' where d: "decode_cp bs = Some (c, r)" "utf8_decode_loop r = Some s'" "s = c # s'"
      by (auto simp: utf8_decode_loop.simps [of bs] split: option.splits)
    with decode_cp_shorter [OF d(1)] Suc.prems Suc.IH [of r s'] False show ?thesis by simp
  qed (use Suc.prems in \<open>simp add: utf8_decode_loop.simps\<close>)
qed

text \<open>A text that starts with two ASCII characters other than NUL is read as UTF-8.\<close>

lemma json_loads_bytes_utf8:
  assumes "utf8_encode (a # b # s) = Inr bs" "0 < a" "a < 128" "0 < b" "b < 128"
  shows "json_loads_bytes wide bs = json_loads (a # b # s)"
proof -
  from assms have bs: "\<exists>r. bs = a # b # r" by (auto simp: utf8_encode_def encode_cp_def split: if_splits)
  then have "\<not> is_wide bs" "take 3 bs \<noteq> [239, 187, 191]" using assms(2-)
    by (auto simp: is_wide_def)
  moreover have "surrogatepass_decode (length bs) bs = Some (a # b # s)"
    using assms(1) utf8_decode_loop_encode [of "a # b # s"]
    by (intro surrogatepass_decode_eq) (auto simp: utf8_encode_def split: if_splits)
  ultimately show ?thesis by (simp add: json_loads_bytes_def Let_def)
qed

lemma sign_chars: "sign hm s p = Inr x \<Longrightarrow> c \<in> set x \<Longrightarrow> c < 128 \<and> c \<noteq> 46"
  using base64url_encode_chars by (auto simp: sign_def split: sum.splits)

lemma compare_ascii: "list_all (\<lambda>c. c < 128) a \<Longrightarrow> list_all (\<lambda>c. c < 128) b \<Longrightarrow> compare_digest a b = Inr (a = b)"
  by (simp add: compare_digest_def)

lemma created_token:
  assumes "create_access_token hm s now r = Inr token"
  obtains payload signature where
    "utf8_encode (dumps_object False (py '','') (py '':'') (token_fields r (token_expiry s now))) = Inr payload"
    "sign hm s (base64url_encode payload) = Inr signature"
    "token = base64url_encode payload @ 46 # signature"
  using assms by (auto simp: create_access_token_def Let_def py_def split: sum.splits)

text \<open>The users whose texts are Unicode scalar values.\<close>

definition token_text_ok :: "user_record \<Rightarrow> bool" where
  "token_text_ok r \<longleftrightarrow> list_all scalar_value (us_employee_id r) \<and> list_all scalar_value (us_workspace_id r)
     \<and> list_all scalar_value (us_workspace_name r) \<and> list_all scalar_value (us_role r)
     \<and> (case us_display_name r of None \<Rightarrow> True | Some d \<Rightarrow> list_all scalar_value d)"

lemma token_fields_ok:
  "token_text_ok r \<Longrightarrow> length (str_int e) \<le> 4300 \<Longrightarrow> fields_ok (token_fields r e)"
  by (auto simp: fields_ok_def token_fields_def token_text_ok_def split: option.splits)

lemma token_user_fields:
  "token_user repr (map (\<lambda>(k, v). (k, field_json v)) (token_fields r e)) = Inr (r\<lparr> us_password_hash := [] \<rparr>)"
  by (cases r; cases "us_display_name r") (simp_all add: token_user_def token_fields_def)

lemma validate_created:
  assumes "create_access_token (tc_hmac T) s t0 r = Inr token" "token_text_ok r"
    and "length (str_int (token_expiry s t0)) \<le> 4300"
  shows "validate_access_token T s now token =
    (if token_expiry s t0 < epoch_seconds now then Inl (InvalidTokenError EXPIRED_MESSAGE)
     else Inr (r\<lparr> us_password_hash := [] \<rparr>))"
proof -
  let ?text = "dumps_object False (py '','') (py '':'') (token_fields r (token_expiry s t0))"
  from assms(1) obtain payload signature where p: "utf8_encode ?text = Inr payload"
    and sg: "sign (tc_hmac T) s (base64url_encode payload) = Inr signature"
    and token: "token = base64url_encode payload @ 46 # signature"
    by (rule created_token)
  have no: "46 \<notin> set (base64url_encode payload)" using base64url_encode_chars by blast
  have same: "compare_digest signature signature = Inr True"
    using sign_chars [OF sg] by (auto simp: compare_digest_def list_all_iff)
  have decode: "base64url_decode (base64url_encode payload) = Inr payload"
    using utf8_encode_bytes [OF p] by (intro base64url_round_trip) blast
  obtain rest where shape: "?text = 123 # 34 # rest"
    by (simp add: dumps_object_def token_fields_def json_string_def)
  have loads: "json_loads_bytes (tc_wide T) payload = json_loads ?text"
    using json_loads_bytes_utf8 [of 123 34 rest payload "tc_wide T"] p by (simp add: shape)
  also have "\<dots> = Inr (JObj (map (\<lambda>(k, v). (k, field_json v)) (token_fields r (token_expiry s t0))))"
    using token_fields_ok [OF assms(2,3)]
    by (intro loads_dumps_object) (simp_all add: separators_ok_def py_def)
  finally have "json_loads_bytes (tc_wide T) payload =
    Inr (JObj (map (\<lambda>(k, v). (k, field_json v)) (token_fields r (token_expiry s t0))))" .
  moreover have "map_of (map (\<lambda>(k, v). (k, field_json v)) (token_fields r (token_expiry s t0))) (py ''exp'') =
      Some (JInt (token_expiry s t0))" by (simp add: token_fields_def)
  ultimately show ?thesis
    using no by (simp add: validate_access_token_def token sg same decode validate_payload_def token_user_fields Let_def)
qed

lemma validated_token:
  assumes "validate_access_token T s now token = Inr u"
  obtains encoded signature b payload where "token = encoded @ 46 # signature" "46 \<notin> set encoded"
    "sign (tc_hmac T) s encoded = Inr signature" "base64url_decode encoded = Inr b"
    "json_loads_bytes (tc_wide T) b = Inr payload" "validate_payload T now payload = Inr u"
proof -
  have split: "46 \<in> set token \<Longrightarrow> token = before 46 token @ 46 # after 46 token"
  proof -
    assume "46 \<in> set token"
    then obtain a b where "token = a @ 46 # b" "46 \<notin> set a" by (metis split_list_first)
    then show ?thesis by simp
  qed
  moreover have "46 \<notin> set (before 46 token)" by (auto simp: before_def dest: set_takeWhileD)
  ultimately show ?thesis using assms that [of "before 46 token" "after 46 token"]
    by (auto simp: validate_access_token_def compare_digest_def Let_def split: if_splits sum.splits)
qed

end
