(* ===== verification/Auth_Endpoints.thy ===== *)
theory Auth_Endpoints
  imports Auth
begin

text \<open>
  \<open>auth/dependencies.py\<close> and \<open>auth/router.py\<close>: the dependencies that turn the credentials of a request
  into a workspace context, and the endpoints for signing up, logging in and reading the context.
  The context of the request is the state the middleware put in place; a dependency adds the
  workspace to it.
\<close>

section \<open>Dependencies\<close>

definition auth_error :: "string \<Rightarrow> pystr \<Rightarrow> exn" where
  "auth_error code message = HTTPException 401 (py code) message"

definition context_from_api_key ::
  "api_key_record \<Rightarrow> request_context_state \<Rightarrow> workspace_context \<times> request_context_state" where
  "context_from_api_key r rc =
     (let rc' = rc\<lparr> rc_workspace_id := Some (ak_workspace_id r), rc_workspace_name := Some (ak_workspace_name r) \<rparr> in
      (\<lparr> wc_request_id = rc_request_id rc', wc_workspace_id = ak_workspace_id r,
         wc_workspace_name = ak_workspace_name r, wc_role = ak_role r, wc_employee_id = None,
         wc_display_name = None \<rparr>, rc'))"

definition context_from_user ::
  "user_record \<Rightarrow> request_context_state \<Rightarrow> workspace_context \<times> request_context_state" where
  "context_from_user r rc =
     (let rc' = rc\<lparr> rc_workspace_id := Some (us_workspace_id r), rc_workspace_name := Some (us_workspace_name r) \<rparr> in
      (\<lparr> wc_request_id = rc_request_id rc', wc_workspace_id = us_workspace_id r,
         wc_workspace_name = us_workspace_name r, wc_role = us_role r, wc_employee_id = Some (us_employee_id r),
         wc_display_name = us_display_name r \<rparr>, rc'))"

text \<open>The second half of \<open>require_workspace_context\<close>: no API key, so a bearer token is needed.\<close>

definition require_bearer_token ::
  "token_codec \<Rightarrow> settings \<Rightarrow> timestamp \<Rightarrow> request \<Rightarrow> request_context_state
     \<Rightarrow> workspace_context res \<times> request_context_state" where
  "require_bearer_token T s now request rc =
     (let authorization = (case header ''authorization'' request of None \<Rightarrow> [] | Some a \<Rightarrow> a) in
      if authorization = []
      then (Inl (auth_error ''AUTH_MISSING_CREDENTIALS'' (py ''Authentication credential is required.'')), rc)
      else (let scheme = before 32 authorization; token = after 32 authorization in
        if ucd_lower (tc_ucd T) scheme \<noteq> py ''bearer'' \<or> token = []
        then (Inl (auth_error ''AUTH_INVALID_TOKEN'' (py ''Bearer token is required.'')), rc)
        else (case validate_access_token T s now token of
            Inl e \<Rightarrow> (Inl (auth_error ''AUTH_INVALID_TOKEN'' (str_exn e)), rc)
          | Inr r \<Rightarrow> (case context_from_user r rc of (ctx, rc') \<Rightarrow> (Inr ctx, rc')))))"

definition require_workspace_context ::
  "token_codec \<Rightarrow> settings \<Rightarrow> timestamp \<Rightarrow> request \<Rightarrow> request_context_state
     \<Rightarrow> workspace_context res \<times> request_context_state" where
  "require_workspace_context T s now request rc =
     (let api_key = (case header ''x-api-key'' request of None \<Rightarrow> [] | Some k \<Rightarrow> k) in
      if api_key \<noteq> []
      then (case validate_api_key s api_key of
          Inl e \<Rightarrow> (Inl e, rc)
        | Inr None \<Rightarrow> (Inl (auth_error ''AUTH_INVALID_API_KEY'' (py ''API key is invalid.'')), rc)
        | Inr (Some r) \<Rightarrow> (case context_from_api_key r rc of (ctx, rc') \<Rightarrow> (Inr ctx, rc')))
      else require_bearer_token T s now request rc)"

definition require_admin_workspace_context :: "workspace_context \<Rightarrow> workspace_context res" where
  "require_admin_workspace_context ctx =
     (if wc_role ctx \<noteq> ADMIN_ROLE
      then Inl (HTTPException 403 (py ''AUTH_FORBIDDEN_ROLE'') (py ''Admin role is required.''))
      else Inr ctx)"

section \<open>Endpoints\<close>

record auth_response =
  ar_access_token :: pystr
  ar_token_type :: pystr
  ar_workspace :: workspace_context

definition build_auth_response ::
  "hmac \<Rightarrow> settings \<Rightarrow> timestamp \<Rightarrow> request_context_state \<Rightarrow> user_record \<Rightarrow> auth_response res" where
  "build_auth_response hm s now rc user =
     (let workspace = \<lparr> wc_request_id = rc_request_id rc, wc_workspace_id = us_workspace_id user,
          wc_workspace_name = us_workspace_name user, wc_role = us_role user,
          wc_employee_id = Some (us_employee_id user), wc_display_name = us_display_name user \<rparr>
      in case create_access_token hm s now user of
           Inl e \<Rightarrow> Inl e
         | Inr access_token \<Rightarrow> Inr \<lparr> ar_access_token = access_token, ar_token_type = py ''bearer'',
             ar_workspace = workspace \<rparr>)"

text \<open>\<open>InvalidCredentialsError\<close> and \<open>InvalidTokenError\<close> are subclasses of \<open>AuthError\<close>.\<close>

fun signup_http_error :: "exn \<Rightarrow> exn" where
  "signup_http_error (DuplicateUserError m) = HTTPException 409 (py ''AUTH_DUPLICATE_EMPLOYEE_ID'') m"
| "signup_http_error (AuthError m) = HTTPException 400 (py ''AUTH_INVALID_SIGNUP'') m"
| "signup_http_error (InvalidCredentialsError m) = HTTPException 400 (py ''AUTH_INVALID_SIGNUP'') m"
| "signup_http_error (InvalidTokenError m) = HTTPException 400 (py ''AUTH_INVALID_SIGNUP'') m"
| "signup_http_error e = e"

definition signup ::
  "kdf \<Rightarrow> hmac \<Rightarrow> 'u auth_service \<Rightarrow> pystr \<Rightarrow> timestamp \<Rightarrow> request_context_state
     \<Rightarrow> pystr \<Rightarrow> pystr \<Rightarrow> pystr option \<Rightarrow> 'u \<Rightarrow> auth_response res \<times> 'u" where
  "signup pbkdf2 hm sv salt now rc employee_id password display_name users =
     (case register_user pbkdf2 sv salt employee_id password display_name users of
        (Inl e, users') \<Rightarrow> (Inl (signup_http_error e), users')
      | (Inr user, users') \<Rightarrow> (build_auth_response hm (au_settings sv) now rc user, users'))"

fun login_http_error :: "exn \<Rightarrow> exn" where
  "login_http_error (InvalidCredentialsError m) = HTTPException 401 (py ''AUTH_INVALID_CREDENTIALS'') m"
| "login_http_error e = e"

definition login ::
  "kdf \<Rightarrow> hmac \<Rightarrow> 'u auth_service \<Rightarrow> timestamp \<Rightarrow> request_context_state
     \<Rightarrow> pystr \<Rightarrow> pystr \<Rightarrow> 'u \<Rightarrow> auth_response res" where
  "login pbkdf2 hm sv now rc employee_id password users =
     (case authenticate_user pbkdf2 sv employee_id password users of
        Inl e \<Rightarrow> Inl (login_http_error e)
      | Inr user \<Rightarrow> build_auth_response hm (au_settings sv) now rc user)"

text \<open>\<open>GET /v1/auth/me\<close> and \<open>GET /v1/workspace\<close> return the context of the caller.\<close>

definition me :: "workspace_context \<Rightarrow> workspace_context" where
  "me workspace_context = workspace_context"

section \<open>Facts\<close>

lemma register_user_Inr:
  assumes "register_user pbkdf2 sv salt employee_id password display_name users = (Inr r, users')"
  obtains h where "strip employee_id \<noteq> []" "4 \<le> length password" "hash_password pbkdf2 salt password = Inr h"
    "ut_get (au_store sv) (strip employee_id) users = None"
    "r = build_member_user_record (strip employee_id) h (cfg_signup_default_workspace_id (au_settings sv))
       (cfg_signup_default_workspace_name (au_settings sv)) (normalize_optional display_name)"
    "ut_create (au_store sv) r users = (True, users')"
  using assms
  by (auto simp: register_user_def normalize_employee_id_def validate_password_def Let_def
      split: sum.splits if_splits prod.splits)

lemma hash_password_Inr: "hash_password pbkdf2 salt password = Inr h \<Longrightarrow> \<exists>p s. utf8_encode password = Inr p \<and> utf8_encode salt = Inr s"
  by (auto simp: hash_password_def split: sum.splits)

lemma bearer_request:
  assumes "header ''x-api-key'' request = None" "header ''authorization'' request = Some (py ''Bearer '' @ token)"
    and "ucd_lower (tc_ucd T) (py ''Bearer'') = py ''bearer''" "token \<noteq> []"
  shows "require_workspace_context T s now request rc =
    (case validate_access_token T s now token of
       Inl e \<Rightarrow> (Inl (auth_error ''AUTH_INVALID_TOKEN'' (str_exn e)), rc)
     | Inr r \<Rightarrow> (case context_from_user r rc of (ctx, rc') \<Rightarrow> (Inr ctx, rc')))"
proof -
  have "py ''Bearer '' @ token = py ''Bearer'' @ 32 # token" "32 \<notin> set (py ''Bearer'')" by (simp_all add: py_def)
  then have "before 32 (py ''Bearer '' @ token) = py ''Bearer''" "after 32 (py ''Bearer '' @ token) = token"
    by simp_all
  with assms show ?thesis by (simp add: require_workspace_context_def require_bearer_token_def Let_def)
qed

lemma created_token_nonempty: "create_access_token hm s now r = Inr token \<Longrightarrow> token \<noteq> []"
  by (erule created_token) simp

lemma require_context_Inr:
  assumes "require_workspace_context T s now request rc = (Inr ctx, rc')"
  obtains (key) api_key r where "header ''x-api-key'' request = Some api_key" "validate_api_key s api_key = Inr (Some r)"
      "(ctx, rc') = context_from_api_key r rc"
  | (token) scheme tok u where "header ''authorization'' request = Some (scheme @ 32 # tok)"
      "validate_access_token T s now tok = Inr u" "(ctx, rc') = context_from_user u rc"
proof (cases "case header ''x-api-key'' request of None \<Rightarrow> [] | Some k \<Rightarrow> k")
  case Nil
  with assms have b: "require_bearer_token T s now request rc = (Inr ctx, rc')"
    by (simp add: require_workspace_context_def)
  then obtain a u where a: "header ''authorization'' request = Some a" "after 32 a \<noteq> []"
    "validate_access_token T s now (after 32 a) = Inr u" "(ctx, rc') = context_from_user u rc"
    by (auto simp: require_bearer_token_def Let_def split: option.splits if_splits sum.splits prod.splits)
  have "32 \<in> set a"
  proof (rule ccontr)
    assume "32 \<notin> set a"
    then have "dropWhile (\<lambda>x. x \<noteq> 32) a = []" by (auto simp: dropWhile_eq_Nil_conv)
    with a(2) show False by (simp add: after_def)
  qed
  then obtain x y where "a = x @ 32 # y" "32 \<notin> set x" by (metis split_list_first)
  with a token show ?thesis by simp
next
  case (Cons c cs)
  with assms key show ?thesis
    by (auto simp: require_workspace_context_def Let_def split: option.splits if_splits sum.splits prod.splits)
qed

text \<open>Every configured key has a supported role, and a key that is accepted is configured.\<close>

lemma parse_api_keys_loop_roles:
  "parse_api_keys_loop records entries = Inr ks \<Longrightarrow> list_all (\<lambda>k. ak_role k \<in> set SUPPORTED_ROLES) records
     \<Longrightarrow> list_all (\<lambda>k. ak_role k \<in> set SUPPORTED_ROLES) ks"
proof (induction records entries rule: parse_api_keys_loop.induct)
  case (2 records entry entries)
  have "parse_api_key entry = Inr (Some k) \<Longrightarrow> ak_role k \<in> set SUPPORTED_ROLES" for k
    by (auto simp: parse_api_key_def Let_def split: if_splits)
  with 2 show ?case by (auto split: sum.splits option.splits)
qed simp

lemma find_api_key_Some: "find_api_key ks k = Inr (Some r) \<Longrightarrow> r \<in> set ks \<and> ak_api_key r = k"
  by (induction ks k rule: find_api_key.induct) (auto simp: compare_digest_def split: sum.splits if_splits)

lemma validate_api_key_Some:
  assumes "validate_api_key s k = Inr (Some r)"
  obtains ks where "parse_api_keys (cfg_api_keys s) = Inr ks" "r \<in> set ks" "ak_api_key r = k"
    "ak_role r \<in> set SUPPORTED_ROLES"
proof -
  from assms obtain ks where ks: "parse_api_keys (cfg_api_keys s) = Inr ks" "find_api_key ks k = Inr (Some r)"
    by (auto simp: validate_api_key_def split: sum.splits)
  with find_api_key_Some [OF ks(2)] parse_api_keys_loop_roles [of "[]" _ ks] that show ?thesis
    by (auto simp: parse_api_keys_def list_all_iff)
qed

end
