(* ===== verification/Auth_Guarantees.thy ===== *)
theory Auth_Guarantees
  imports Auth_Endpoints
begin

text \<open>
  What the authentication of the backend guarantees: tokens read back the user they were made for and
  are refused after their expiry, accepted tokens carry the server's signature, registration adds one
  user and never changes another, and a workspace context comes from configured or signed
  credentials only.
\<close>

section \<open>A sample run\<close>

definition sample_kdf :: kdf where
  "sample_kdf p s = map (\<lambda>b. 97 + b mod 26) (p @ s)"

definition sample_hmac :: hmac where
  "sample_hmac k m = map (\<lambda>b. b mod 256) (take 32 (k @ m))"

definition sample_codec :: token_codec where
  "sample_codec = \<lparr> tc_hmac = sample_hmac, tc_repr = (\<lambda>_. []),
     tc_wide = (\<lambda>_. Inl (ValueError (py ''utf-16''))), tc_ucd = ascii_ucd \<rparr>"

definition sample_auth :: "user_record list auth_service" where
  "sample_auth = \<lparr> au_settings = default_settings, au_store = mem_user_store \<rparr>"

definition sample_rc :: request_context_state where
  "sample_rc = \<lparr> rc_request_id = py ''req_1'', rc_workspace_id = None, rc_workspace_name = None \<rparr>"

definition sample_user :: user_record where
  "sample_user = \<lparr> us_employee_id = py ''7'', us_password_hash = py ''h'', us_workspace_id = py ''w'',
     us_workspace_name = py ''W'', us_role = ADMIN_ROLE, us_display_name = Some [44288] \<rparr>"

definition sample_token :: pystr where
  "sample_token = (case create_access_token sample_hmac default_settings 5000000 sample_user of Inr t \<Rightarrow> t | Inl _ \<Rightarrow> [])"

lemma sample_token_created: "create_access_token sample_hmac default_settings 5000000 sample_user = Inr sample_token"
proof -
  have "map_sum (\<lambda>_. ()) (\<lambda>_. ()) (create_access_token sample_hmac default_settings 5000000 sample_user) = Inr ()"
    by code_simp
  then show ?thesis unfolding sample_token_def
    by (cases "create_access_token sample_hmac default_settings 5000000 sample_user") auto
qed

lemma sample_kdf_ok: "kdf_ok sample_kdf"
  by (auto simp: kdf_ok_def sample_kdf_def list_all_iff)

definition sample_signup :: "auth_response res \<times> user_record list" where
  "sample_signup = signup sample_kdf sample_hmac sample_auth (py ''0a'') 5000000 sample_rc (py '' 42 '')
     (py ''secret'') (Some (py '' Kim '')) []"

lemma sample_signup_result:
  "map_prod (map_sum (\<lambda>_. ()) (\<lambda>r. wc_employee_id (ar_workspace r))) length sample_signup = (Inr (Some (py ''42'')), 1)"
  by code_simp

section \<open>Tokens\<close>

text \<open>
  C28: a token reads back the user it was made for. Until the second of its expiry the validation of
  a created token returns the user without the password hash, for every text a user can have; after
  it the token is refused as expired.
\<close>

theorem token_round_trip:
  assumes "create_access_token (tc_hmac T) s t0 r = Inr token" "token_text_ok r"
    and "length (str_int (token_expiry s t0)) \<le> 4300"
  shows "validate_access_token T s now token =
    (if epoch_seconds now \<le> epoch_seconds (t0 + cfg_auth_token_ttl_seconds s * 1000000)
     then Inr (r\<lparr> us_password_hash := [] \<rparr>) else Inl (InvalidTokenError EXPIRED_MESSAGE))"
  using validate_created [OF assms, of now] by (simp add: token_expiry_def)

theorem token_round_trip_witness:
  "validate_access_token sample_codec default_settings 86405000000 sample_token
     = Inr (sample_user\<lparr> us_password_hash := [] \<rparr>)
   \<and> validate_access_token sample_codec default_settings 86406000000 sample_token
     = Inl (InvalidTokenError EXPIRED_MESSAGE)"
proof -
  have c: "create_access_token (tc_hmac sample_codec) default_settings 5000000 sample_user = Inr sample_token"
    using sample_token_created by (simp add: sample_codec_def)
  have ok: "token_text_ok sample_user" by code_simp
  have len: "length (str_int (token_expiry default_settings 5000000)) \<le> 4300" by code_simp
  have t: "cfg_auth_token_ttl_seconds default_settings = 86400" by (simp add: default_settings_def)
  have e: "epoch_seconds 86405000000 = 86405" "epoch_seconds 86406000000 = 86406" by code_simp+
  show ?thesis using token_round_trip [OF c ok len] by (simp add: t e)
qed

text \<open>
  Accepted tokens are the server's. A token that validates is a payload with the signature the
  server's secret gives for exactly this payload; the payload has not expired and the user returned
  is the one it names.
\<close>

lemma accepted_token_is_signed:
  assumes "validate_access_token T s now token = Inr u"
  shows "\<exists>encoded signature b d expires_at. token = encoded @ py ''.'' @ signature
    \<and> sign (tc_hmac T) s encoded = Inr signature
    \<and> base64url_decode encoded = Inr b \<and> json_loads_bytes (tc_wide T) b = Inr (JObj d)
    \<and> int_of_json (tc_ucd T) (case map_of d (py ''exp'') of None \<Rightarrow> JInt 0 | Some v \<Rightarrow> v) = Inr expires_at
    \<and> epoch_seconds now \<le> expires_at \<and> token_user (tc_repr T) d = Inr u"
proof -
  from assms obtain encoded signature b payload where token: "token = encoded @ 46 # signature"
    and sg: "sign (tc_hmac T) s encoded = Inr signature" and dec: "base64url_decode encoded = Inr b"
    and loads: "json_loads_bytes (tc_wide T) b = Inr payload" and v: "validate_payload T now payload = Inr u"
    by (rule validated_token)
  from v obtain d expires_at where "as_obj payload = Some d"
    "int_of_json (tc_ucd T) (case map_of d (py ''exp'') of None \<Rightarrow> JInt 0 | Some v \<Rightarrow> v) = Inr expires_at"
    "epoch_seconds now \<le> expires_at" "token_user (tc_repr T) d = Inr u"
    by (auto simp: validate_payload_def split: option.splits sum.splits if_splits)
  moreover from this(1) have "payload = JObj d" by (cases payload) auto
  moreover have "token = encoded @ py ''.'' @ signature" using token by (simp add: py_def)
  ultimately show ?thesis using sg dec loads by blast
qed

section \<open>Registration\<close>

text \<open>
  C29: signing up. A successful registration is possible only for an employee number that was free and
  a password of at least four characters; it adds that one user, a member of the configured
  workspace, leaves every other user as it is, and from then on a login with this employee number
  succeeds exactly for the passwords with the same key derivation.
\<close>

theorem signup_adds_one_member:
  assumes "auth_user_store (au_store sv) users_invar" "users_invar users"
    and "kdf_ok pbkdf2" "36 \<notin> set salt"
    and "signup pbkdf2 hm sv salt now rc employee_id password display_name users = (Inr response, users')"
  shows "ut_get (au_store sv) (strip employee_id) users = None \<and> 4 \<le> length password \<and> users_invar users'
    \<and> (\<exists>u p s. us_role u = MEMBER_ROLE \<and> us_workspace_id u = cfg_signup_default_workspace_id (au_settings sv)
        \<and> (\<forall>k. ut_get (au_store sv) k users' = (if k = strip employee_id then Some u else ut_get (au_store sv) k users))
        \<and> utf8_encode password = Inr p \<and> utf8_encode salt = Inr s
        \<and> (\<forall>guess g. utf8_encode guess = Inr g \<longrightarrow>
             authenticate_user pbkdf2 sv employee_id guess users' =
               (if pbkdf2 g s = pbkdf2 p s then Inr u else Inl (InvalidCredentialsError CREDENTIALS_MESSAGE))))"
proof -
  from assms(5) obtain r where reg: "register_user pbkdf2 sv salt employee_id password display_name users = (Inr r, users')"
    by (auto simp: signup_def split: prod.splits sum.splits)
  from reg obtain h where id: "strip employee_id \<noteq> []" and pw: "4 \<le> length password"
    and h: "hash_password pbkdf2 salt password = Inr h" and free: "ut_get (au_store sv) (strip employee_id) users = None"
    and r: "r = build_member_user_record (strip employee_id) h (cfg_signup_default_workspace_id (au_settings sv))
       (cfg_signup_default_workspace_name (au_settings sv)) (normalize_optional display_name)"
    and cr: "ut_create (au_store sv) r users = (True, users')"
    by (rule register_user_Inr)
  from hash_password_Inr [OF h] obtain p s where ps: "utf8_encode password = Inr p" "utf8_encode salt = Inr s" by blast
  have key: "us_employee_id r = strip employee_id" "us_password_hash r = h" "us_role r = MEMBER_ROLE"
    "us_workspace_id r = cfg_signup_default_workspace_id (au_settings sv)"
    by (simp_all add: r build_member_user_record_def)
  have get: "ut_get (au_store sv) k users' = (if k = strip employee_id then Some r else ut_get (au_store sv) k users)" for k
    using auth_user_store.get_create [OF assms(1,2), of k r] cr key(1) free by auto
  have inv: "users_invar users'" using auth_user_store.create_invar [OF assms(1,2), of r] cr by simp
  have auth: "authenticate_user pbkdf2 sv employee_id guess users' =
      (if pbkdf2 g s = pbkdf2 p s then Inr r else Inl (InvalidCredentialsError CREDENTIALS_MESSAGE))"
    if "utf8_encode guess = Inr g" for guess g
    using verify_hash [OF assms(3,4) h, of guess] that ps id key(2) get
    by (simp add: authenticate_user_def normalize_employee_id_def)
  from free pw inv key get ps auth show ?thesis by blast
qed

theorem signup_adds_one_member_witness:
  "\<exists>response users' u. sample_signup = (Inr response, users') \<and> mem_get_user (py ''42'') users' = Some u
     \<and> us_role u = MEMBER_ROLE \<and> authenticate_user sample_kdf sample_auth (py '' 42 '') (py ''secret'') users' = Inr u"
proof -
  from summary_Inr [OF sample_signup_result] obtain response users' where run: "sample_signup = (Inr response, users')" by auto
  have st: "auth_user_store (au_store sample_auth) users_invar"
    by (simp add: sample_auth_def mem_users.auth_user_store_axioms)
  have pre: "users_invar []" "36 \<notin> set (py ''0a'')" by (simp_all add: users_invar_def py_def)
  have id: "strip (py '' 42 '') = py ''42''" by code_simp
  have store: "ut_get (au_store sample_auth) = mem_get_user" by (simp add: sample_auth_def mem_user_store_def)
  from signup_adds_one_member [OF st pre(1) sample_kdf_ok pre(2) run [unfolded sample_signup_def]]
  obtain u p s where u: "us_role u = MEMBER_ROLE" "\<forall>k. mem_get_user k users' = (if k = py ''42'' then Some u else mem_get_user k [])"
    and p: "utf8_encode (py ''secret'') = Inr p"
    and auth: "\<forall>guess g. utf8_encode guess = Inr g \<longrightarrow> authenticate_user sample_kdf sample_auth (py '' 42 '') guess users' =
       (if sample_kdf g s = sample_kdf p s then Inr u else Inl (InvalidCredentialsError CREDENTIALS_MESSAGE))"
    unfolding id store by blast
  from auth p have "authenticate_user sample_kdf sample_auth (py '' 42 '') (py ''secret'') users' = Inr u" by simp
  with u run show ?thesis by (intro exI [of _ response] exI [of _ users'] exI [of _ u]) simp
qed

text \<open>
  C30: the way in. After signing up, the returned token opens the configured workspace in the role of a
  member, under the new employee number, in every request that carries it as its bearer token and
  comes no later than its expiry; the identifier of that request is kept.
\<close>

theorem signup_token_opens_workspace:
  assumes "signup pbkdf2 (tc_hmac T) sv salt t0 rc employee_id password display_name users = (Inr response, users')"
    and "list_all scalar_value (strip employee_id)"
    and "list_all scalar_value (cfg_signup_default_workspace_id (au_settings sv))"
    and "list_all scalar_value (cfg_signup_default_workspace_name (au_settings sv))"
    and "case display_name of None \<Rightarrow> True | Some d \<Rightarrow> list_all scalar_value d"
    and "length (str_int (token_expiry (au_settings sv) t0)) \<le> 4300"
    and "epoch_seconds now \<le> token_expiry (au_settings sv) t0"
    and "header ''x-api-key'' request = None"
    and "header ''authorization'' request = Some (py ''Bearer '' @ ar_access_token response)"
    and "ucd_lower (tc_ucd T) (py ''Bearer'') = py ''bearer''"
  shows "\<exists>ctx rc''. require_workspace_context T (au_settings sv) now request rc' = (Inr ctx, rc'')
    \<and> wc_workspace_id ctx = cfg_signup_default_workspace_id (au_settings sv) \<and> wc_role ctx = MEMBER_ROLE
    \<and> wc_employee_id ctx = Some (strip employee_id) \<and> wc_request_id ctx = rc_request_id rc'
    \<and> rc_request_id rc'' = rc_request_id rc'
    \<and> rc_workspace_id rc'' = Some (cfg_signup_default_workspace_id (au_settings sv))
    \<and> require_admin_workspace_context ctx = Inl (HTTPException 403 (py ''AUTH_FORBIDDEN_ROLE'') (py ''Admin role is required.''))"
proof -
  from assms(1) obtain r where reg: "register_user pbkdf2 sv salt employee_id password display_name users = (Inr r, users')"
    and resp: "build_auth_response (tc_hmac T) (au_settings sv) t0 rc r = Inr response"
    by (auto simp: signup_def split: prod.splits sum.splits)
  from resp have tok: "create_access_token (tc_hmac T) (au_settings sv) t0 r = Inr (ar_access_token response)"
    by (auto simp: build_auth_response_def Let_def split: sum.splits)
  from reg obtain h where r: "r = build_member_user_record (strip employee_id) h (cfg_signup_default_workspace_id (au_settings sv))
       (cfg_signup_default_workspace_name (au_settings sv)) (normalize_optional display_name)"
    by (rule register_user_Inr)
  have "list_all scalar_value d" if "normalize_optional display_name = Some d" for d
    using assms(5) that set_strip by (fastforce simp: normalize_optional_def list_all_iff split: option.splits if_splits)
  with assms(2-4) have ok: "token_text_ok r"
    by (auto simp: token_text_ok_def r build_member_user_record_def MEMBER_ROLE_def split: option.split)
  from validate_created [OF tok ok assms(6), of now] assms(7)
  have v: "validate_access_token T (au_settings sv) now (ar_access_token response) = Inr (r\<lparr> us_password_hash := [] \<rparr>)" by simp
  from bearer_request [OF assms(8,9,10) created_token_nonempty [OF tok], of "au_settings sv" now rc'] v
  show ?thesis
    by (simp add: context_from_user_def Let_def r build_member_user_record_def require_admin_workspace_context_def
        MEMBER_ROLE_def ADMIN_ROLE_def)
qed

definition sample_request_with :: "pystr \<Rightarrow> request" where
  "sample_request_with token = \<lparr> wr_method = py ''GET'', wr_path = py ''/v1/workspace'',
     wr_headers = [(py ''authorization'', py ''Bearer '' @ token)], wr_client = None \<rparr>"

theorem signup_token_opens_workspace_witness:
  "\<exists>response users' ctx rc''. sample_signup = (Inr response, users')
     \<and> require_workspace_context sample_codec default_settings 6000000 (sample_request_with (ar_access_token response)) sample_rc
         = (Inr ctx, rc'')
     \<and> wc_workspace_id ctx = py ''local-workspace'' \<and> wc_employee_id ctx = Some (py ''42'')"
proof -
  from summary_Inr [OF sample_signup_result] obtain response users' where run: "sample_signup = (Inr response, users')" by auto
  have run': "signup sample_kdf (tc_hmac sample_codec) sample_auth (py ''0a'') 5000000 sample_rc (py '' 42 '')
      (py ''secret'') (Some (py '' Kim '')) [] = (Inr response, users')"
    using run by (simp add: sample_signup_def sample_codec_def)
  have s: "au_settings sample_auth = default_settings" by (simp add: sample_auth_def)
  have id: "strip (py '' 42 '') = py ''42''" by code_simp
  have texts: "list_all scalar_value (strip (py '' 42 ''))"
    "list_all scalar_value (cfg_signup_default_workspace_id default_settings)"
    "list_all scalar_value (cfg_signup_default_workspace_name default_settings)"
    "case Some (py '' Kim '') of None \<Rightarrow> True | Some d \<Rightarrow> list_all scalar_value d"
    by (simp_all add: id default_settings_def)
  have n: "length (str_int (token_expiry default_settings 5000000)) \<le> 4300"
    "epoch_seconds 6000000 \<le> token_expiry default_settings 5000000"
    "ucd_lower (tc_ucd sample_codec) (py ''Bearer'') = py ''bearer''" by code_simp+
  have hd: "header ''x-api-key'' (sample_request_with t) = None"
    "header ''authorization'' (sample_request_with t) = Some (py ''Bearer '' @ t)" for t
    by (simp_all add: header_def sample_request_with_def)
  from signup_token_opens_workspace [OF run' texts(1), unfolded s, OF texts(2-4) n(1,2) hd n(3), of sample_rc]
  obtain ctx rc'' where "require_workspace_context sample_codec default_settings 6000000
      (sample_request_with (ar_access_token response)) sample_rc = (Inr ctx, rc'')"
    "wc_workspace_id ctx = cfg_signup_default_workspace_id default_settings" "wc_employee_id ctx = Some (py ''42'')"
    unfolding id by blast
  with run show ?thesis by (intro exI [of _ response] exI [of _ users'] exI [of _ ctx] exI [of _ rc'']) (simp add: default_settings_def)
qed

section \<open>Where a workspace context comes from\<close>

text \<open>
  C31: no context without credentials. A request obtains a workspace context only through an API key
  the settings list, whose workspace and supported role it then has, or through a signed token that
  has not expired, whose user it then shows; the request keeps its identifier and is marked with the
  workspace of the context.
\<close>

theorem context_needs_credentials:
  assumes "require_workspace_context T s now request rc = (Inr ctx, rc')"
  shows "wc_request_id ctx = rc_request_id rc \<and> rc_request_id rc' = rc_request_id rc
    \<and> rc_workspace_id rc' = Some (wc_workspace_id ctx)
    \<and> ((\<exists>ks k. parse_api_keys (cfg_api_keys s) = Inr ks \<and> k \<in> set ks \<and> wc_role ctx \<in> set SUPPORTED_ROLES
          \<and> header ''x-api-key'' request = Some (ak_api_key k)
          \<and> wc_workspace_id ctx = ak_workspace_id k \<and> wc_role ctx = ak_role k \<and> wc_employee_id ctx = None)
      \<or> (\<exists>scheme encoded signature u. header ''authorization'' request = Some (scheme @ py '' '' @ encoded @ py ''.'' @ signature)
          \<and> sign (tc_hmac T) s encoded = Inr signature
          \<and> validate_access_token T s now (encoded @ py ''.'' @ signature) = Inr u
          \<and> wc_workspace_id ctx = us_workspace_id u \<and> wc_role ctx = us_role u
          \<and> wc_employee_id ctx = Some (us_employee_id u)))"
  using assms
proof (cases rule: require_context_Inr)
  case (key api_key k)
  from key(2) obtain ks where "parse_api_keys (cfg_api_keys s) = Inr ks" "k \<in> set ks" "ak_api_key k = api_key"
    "ak_role k \<in> set SUPPORTED_ROLES" by (rule validate_api_key_Some)
  with key(1,3) show ?thesis by (auto simp: context_from_api_key_def Let_def)
next
  case (token scheme tok u)
  from token(2) obtain encoded signature where t: "tok = encoded @ 46 # signature"
    and sg: "sign (tc_hmac T) s encoded = Inr signature" by (rule validated_token)
  from t have tok: "tok = encoded @ py ''.'' @ signature" and sp: "32 # tok = py '' '' @ encoded @ py ''.'' @ signature"
    by (simp_all add: py_def)
  have "\<exists>scheme encoded signature u. header ''authorization'' request = Some (scheme @ py '' '' @ encoded @ py ''.'' @ signature)
      \<and> sign (tc_hmac T) s encoded = Inr signature
      \<and> validate_access_token T s now (encoded @ py ''.'' @ signature) = Inr u
      \<and> wc_workspace_id ctx = us_workspace_id u \<and> wc_role ctx = us_role u
      \<and> wc_employee_id ctx = Some (us_employee_id u)"
    using token(1) [unfolded sp] token(2) [unfolded tok] token(3) sg
    by (rule_tac x = scheme in exI, rule_tac x = encoded in exI, rule_tac x = signature in exI, rule_tac x = u in exI)
      (simp add: context_from_user_def Let_def)
  with token(3) show ?thesis by (simp add: context_from_user_def Let_def)
qed

definition sample_key_request :: request where
  "sample_key_request = \<lparr> wr_method = py ''GET'', wr_path = py ''/v1/workspace'',
     wr_headers = [(py ''x-api-key'', py ''local-dev-key'')], wr_client = None \<rparr>"

theorem context_needs_credentials_witness:
  "\<exists>ctx rc'. require_workspace_context sample_codec default_settings 0 sample_key_request sample_rc = (Inr ctx, rc')
     \<and> rc_workspace_id rc' = Some (wc_workspace_id ctx) \<and> wc_request_id ctx = py ''req_1''"
proof -
  have "map_prod (map_sum (\<lambda>_. ()) wc_role) rc_request_id
      (require_workspace_context sample_codec default_settings 0 sample_key_request sample_rc) = (Inr MEMBER_ROLE, py ''req_1'')"
    by code_simp
  from summary_Inr [OF this] obtain ctx rc' where
    run: "require_workspace_context sample_codec default_settings 0 sample_key_request sample_rc = (Inr ctx, rc')" by auto
  from context_needs_credentials [OF run] run show ?thesis
    by (intro exI [of _ ctx] exI [of _ rc']) (simp add: sample_rc_def)
qed

section \<open>Configured credentials\<close>


text \<open>
  The two user stores agree except on repeated entries of the configuration. After a start both
  hold exactly the configured employee numbers; where a number is configured more than once, the
  store in memory keeps the last entry, a fresh PostgreSQL table the first, and a table that already
  has the user keeps what it has.
\<close>

lemma seeded_users:
  "mem_get_user k (mem_seed_users seed_users) = find (\<lambda>u. us_employee_id u = k) (rev seed_users)
   \<and> pg_get_user k (pg_seed_users seed_users []) = find (\<lambda>u. us_employee_id u = k) seed_users
   \<and> (if users_invar rows \<and> pg_get_user k rows \<noteq> None
      then pg_get_user k (pg_seed_users seed_users rows) = pg_get_user k rows else True)"
proof -
  have e: "users_invar []" by (simp add: users_invar_def)
  from mem_seed_fold [OF e, of seed_users k] pg_seed_fold [OF e, of seed_users k]
  have "mem_get_user k (mem_seed_users seed_users) = find (\<lambda>u. us_employee_id u = k) (rev seed_users)"
    "pg_get_user k (pg_seed_users seed_users []) = find (\<lambda>u. us_employee_id u = k) seed_users"
    by (auto simp: mem_seed_users_def mem_get_user_def pg_get_user_def split: option.splits)
  moreover have "if users_invar rows \<and> pg_get_user k rows \<noteq> None
      then pg_get_user k (pg_seed_users seed_users rows) = pg_get_user k rows else True"
    using pg_seed_fold [of rows seed_users k] by auto
  ultimately show ?thesis by blast
qed

text \<open>
  A blank employee number. Signing up with one is answered with status 400; logging in with one
  raises an \<open>AuthError\<close> that the endpoint does not turn into a response.
\<close>

lemma blank_employee_number:
  "(strip employee_id = [] \<longleftrightarrow> (\<exists>m. login pbkdf2 hm sv now rc employee_id password users = Inl (AuthError m)))
   \<and> (strip employee_id = [] \<longleftrightarrow> signup pbkdf2 hm sv salt now rc employee_id password display_name users
       = (Inl (HTTPException 400 (py ''AUTH_INVALID_SIGNUP'') EMPLOYEE_MESSAGE), users))"
proof -
  have u: "utf8_encode x = Inl e \<Longrightarrow> \<exists>m. e = ValueError m" for x e
    by (auto simp: utf8_encode_def split: if_splits)
  have c: "compare_digest x y = Inl e \<Longrightarrow> \<exists>m. e = TypeError m" for x y e
    by (auto simp: compare_digest_def split: if_splits)
  have v: "verify_password pbkdf2 password h = Inl e \<Longrightarrow> e \<noteq> AuthError m" for h e m
    using u c by (fastforce simp: verify_password_def Let_def split: if_splits sum.splits)
  have t: "create_access_token hm s now r = Inl e \<Longrightarrow> \<exists>m. e = ValueError m" for s r e
    using u by (fastforce simp: create_access_token_def sign_def Let_def split: sum.splits)
  have l: "login_http_error e = AuthError m \<longleftrightarrow> e = AuthError m" for e m by (cases e) simp_all
  have h: "hash_password pbkdf2 salt password = Inl e \<Longrightarrow> \<exists>m. e = ValueError m" for e
    using u by (fastforce simp: hash_password_def split: sum.splits)
  have m: "EMPLOYEE_MESSAGE \<noteq> PASSWORD_MESSAGE" by (simp add: EMPLOYEE_MESSAGE_def PASSWORD_MESSAGE_def)
  have "login pbkdf2 hm sv now rc employee_id password users \<noteq> Inl (AuthError m)" if "strip employee_id \<noteq> []" for m
    using that v t
    by (fastforce simp: login_def authenticate_user_def normalize_employee_id_def build_auth_response_def Let_def l
        split: sum.splits option.splits if_splits)
  moreover have "signup pbkdf2 hm sv salt now rc employee_id password display_name users
       \<noteq> (Inl (HTTPException 400 (py ''AUTH_INVALID_SIGNUP'') EMPLOYEE_MESSAGE), users)" if "strip employee_id \<noteq> []"
    using that h t m
    by (fastforce simp: signup_def register_user_def normalize_employee_id_def validate_password_def
        build_auth_response_def Let_def split: sum.splits if_splits prod.splits)
  ultimately show ?thesis
    by (auto simp: signup_def login_def register_user_def authenticate_user_def normalize_employee_id_def)
qed

end
