(* ===== verification/Operations.thy ===== *)
theory Operations
  imports Queues Auth_Models
begin

text \<open>
  \<open>core/dependency_health.py\<close>, \<open>core/operations.py\<close>, \<open>admin/operations.py\<close> and the endpoints \<open>/health\<close> and
  \<open>/ready\<close> of \<open>main.py\<close>: the probes of the services the backend depends on, the readiness of the
  process, the events a failed probe leaves, and the administrator's overview.

  The HTTP client, the PostgreSQL driver, TCP connections and \<open>urlparse\<close> are fields of the record
  \<open>network\<close>.
\<close>

section \<open>Probes\<close>

record url_parts =
  up_hostname :: "pystr option"
  up_port :: "int option"
  up_password :: "pystr option"

text \<open>
  \<open>nw_get\<close> is a GET request with its headers and timeout: the status code or an exception. A TCP
  connection is a state of type \<open>'c\<close>; \<open>nw_exchange\<close> sends bytes and receives the reply.
\<close>

record 'c network =
  nw_get :: "pystr \<Rightarrow> (pystr \<times> pystr) list \<Rightarrow> pyfloat \<Rightarrow> int res"
  nw_postgres :: "pystr \<Rightarrow> pyfloat \<Rightarrow> unit res"
  nw_urlparse :: "pystr \<Rightarrow> url_parts res"
  nw_connect :: "pystr \<Rightarrow> int \<Rightarrow> pyfloat \<Rightarrow> 'c res"
  nw_exchange :: "bytes \<Rightarrow> 'c \<Rightarrow> (bytes \<times> 'c) res"

type_synonym probe = "settings \<Rightarrow> pyfloat \<Rightarrow> unit res"

definition probe_http_endpoint :: "'c network \<Rightarrow> pystr \<Rightarrow> pyfloat \<Rightarrow> pystr option \<Rightarrow> unit res" where
  "probe_http_endpoint N url timeout api_key =
     (let headers = (if truthy api_key then [(py ''Authorization'', py ''Bearer '' @ the api_key)] else []) in
      case nw_get N url headers timeout of
        Inl e \<Rightarrow> Inl e
      | Inr status_code \<Rightarrow>
          if 400 \<le> status_code then Inl (ExternalError (py ''HTTP '' @ str_int status_code)) else Inr ())"

definition probe_postgres :: "'c network \<Rightarrow> probe" where
  "probe_postgres N s timeout = nw_postgres N (cfg_database_url s) timeout"

definition probe_qdrant :: "'c network \<Rightarrow> probe" where
  "probe_qdrant N s timeout =
     probe_http_endpoint N (normalize_base_url (cfg_qdrant_url s) @ py ''/healthz'') timeout None"

definition probe_minio :: "'c network \<Rightarrow> probe" where
  "probe_minio N s timeout =
     (let scheme = (if cfg_minio_secure s then py ''https'' else py ''http'') in
      probe_http_endpoint N (scheme @ py ''://'' @ cfg_minio_endpoint s @ py ''/minio/health/live'') timeout None)"

definition probe_vllm :: "'c network \<Rightarrow> probe" where
  "probe_vllm N s timeout =
     probe_http_endpoint N (normalize_base_url (cfg_llm_base_url s) @ py ''/models'') timeout (cfg_llm_api_key s)"

definition probe_embedding :: "'c network \<Rightarrow> probe" where
  "probe_embedding N s timeout =
     probe_http_endpoint N (normalize_base_url (cfg_embedding_base_url s) @ py ''/models'') timeout (cfg_embedding_api_key s)"

definition probe_reranker :: "'c network \<Rightarrow> probe" where
  "probe_reranker N s timeout =
     probe_http_endpoint N (normalize_base_url (cfg_reranker_base_url s) @ py ''/models'') timeout (cfg_reranker_api_key s)"

section \<open>The Redis protocol\<close>

text \<open>One command as an array of bulk strings; the length of a part is counted in bytes.\<close>

definition CRLF :: pystr where "CRLF = [13, 10]"

fun redis_parts :: "pystr list \<Rightarrow> pystr res" where
  "redis_parts [] = Inr []"
| "redis_parts (part # parts) =
     (case utf8_encode part of
        Inl e \<Rightarrow> Inl e
      | Inr encoded \<Rightarrow> (case redis_parts parts of
          Inl e \<Rightarrow> Inl e
        | Inr rest \<Rightarrow> Inr (py ''$'' @ str_int (int (length encoded)) @ CRLF @ part @ CRLF @ rest)))"

definition redis_command_payload :: "pystr list \<Rightarrow> bytes res" where
  "redis_command_payload parts =
     (case redis_parts parts of
        Inl e \<Rightarrow> Inl e
      | Inr payload \<Rightarrow> utf8_encode (py ''*'' @ str_int (int (length parts)) @ CRLF @ payload))"

definition send_redis_command :: "'c network \<Rightarrow> pystr list \<Rightarrow> 'c \<Rightarrow> (bytes \<times> 'c) res" where
  "send_redis_command N parts connection =
     (case redis_command_payload parts of Inl e \<Rightarrow> Inl e | Inr payload \<Rightarrow> nw_exchange N payload connection)"

definition PONG_MESSAGE :: pystr where
  "PONG_MESSAGE = [82, 101, 100, 105, 115, 32, 80, 73, 78, 71, 32, 51025, 45813, 51060, 32, 50732, 48148, 47476, 51648, 32, 50506, 49845, 45768, 45796, 46]"

definition probe_redis :: "'c network \<Rightarrow> probe" where
  "probe_redis N s timeout =
     (case nw_urlparse N (cfg_redis_url s) of
        Inl e \<Rightarrow> Inl e
      | Inr parsed \<Rightarrow>
          (let host = (if truthy (up_hostname parsed) then the (up_hostname parsed) else py ''localhost'');
               port = (case up_port parsed of None \<Rightarrow> 6379 | Some p \<Rightarrow> if p = 0 then 6379 else p)
           in case nw_connect N host port timeout of
                Inl e \<Rightarrow> Inl e
              | Inr c0 \<Rightarrow>
                  (case (if truthy (up_password parsed)
                         then map_sum id snd (send_redis_command N [py ''AUTH'', the (up_password parsed)] c0)
                         else Inr c0) of
                     Inl e \<Rightarrow> Inl e
                   | Inr c1 \<Rightarrow> (case send_redis_command N [py ''PING''] c1 of
                       Inl e \<Rightarrow> Inl e
                     | Inr (response, c2) \<Rightarrow>
                         if startswith (py ''+PONG'') response then Inr () else Inl (ExternalError PONG_MESSAGE)))))"

section \<open>The health checker\<close>

datatype operational_status = Ready | Not_Ready

record dependency_check_result =
  dc_name :: pystr
  dc_status :: operational_status
  dc_message :: pystr

record health_checker =
  hc_postgres_probe :: probe
  hc_qdrant_probe :: probe
  hc_minio_probe :: probe
  hc_vllm_probe :: probe
  hc_redis_probe :: probe
  hc_embedding_probe :: probe
  hc_reranker_probe :: probe

text \<open>\<open>DependencyHealthChecker()\<close>, with the probes above.\<close>

definition make_health_checker :: "'c network \<Rightarrow> health_checker" where
  "make_health_checker N = \<lparr> hc_postgres_probe = probe_postgres N, hc_qdrant_probe = probe_qdrant N,
     hc_minio_probe = probe_minio N, hc_vllm_probe = probe_vllm N, hc_redis_probe = probe_redis N,
     hc_embedding_probe = probe_embedding N, hc_reranker_probe = probe_reranker N \<rparr>"

definition uses_postgres :: "settings \<Rightarrow> bool" where
  "uses_postgres s \<longleftrightarrow> cfg_audit_log_backend s = py ''postgres'' \<or> cfg_document_metadata_backend s = py ''postgres''"

definition FAILED_MESSAGE :: pystr where
  "FAILED_MESSAGE = [32, 50672, 44208, 50640, 32, 49892, 54056, 54664, 49845, 45768, 45796]"

definition SUCCEEDED_MESSAGE :: pystr where
  "SUCCEEDED_MESSAGE = [32, 50672, 44208, 51012, 32, 54869, 51064, 54664, 49845, 45768, 45796, 46]"

definition run_probe :: "pystr \<Rightarrow> pystr \<Rightarrow> probe \<Rightarrow> settings \<Rightarrow> pyfloat \<Rightarrow> dependency_check_result" where
  "run_probe name display_name probe s timeout =
     (case probe s timeout of
        Inl exc \<Rightarrow> \<lparr> dc_name = name, dc_status = Not_Ready,
          dc_message = display_name @ FAILED_MESSAGE @ py '': '' @ str_exn exc \<rparr>
      | Inr _ \<Rightarrow> \<lparr> dc_name = name, dc_status = Ready, dc_message = display_name @ SUCCEEDED_MESSAGE \<rparr>)"

definition dependency_probes :: "health_checker \<Rightarrow> settings \<Rightarrow> (pystr \<times> pystr \<times> probe) list" where
  "dependency_probes h s =
     (if uses_postgres s then [(py ''postgres'', py ''PostgreSQL'', hc_postgres_probe h)] else []) @
     [(py ''qdrant'', py ''Qdrant'', hc_qdrant_probe h), (py ''minio'', py ''MinIO'', hc_minio_probe h),
      (py ''vllm'', py ''vLLM'', hc_vllm_probe h)] @
     (if cfg_indexing_queue_backend s = py ''redis'' \<or> cfg_rate_limit_backend s = py ''redis''
      then [(py ''redis'', py ''Redis'', hc_redis_probe h)] else []) @
     (if cfg_embedding_backend s = py ''bge'' then [(py ''embedding'', py ''BGE Embedding'', hc_embedding_probe h)] else []) @
     (if cfg_reranker_backend s = py ''bge'' then [(py ''reranker'', py ''BGE Reranker'', hc_reranker_probe h)] else [])"

definition check_dependencies :: "health_checker \<Rightarrow> settings \<Rightarrow> dependency_check_result list" where
  "check_dependencies h s =
     map (\<lambda>(name, display_name, probe). run_probe name display_name probe s (cfg_dependency_health_timeout_seconds s))
       (dependency_probes h s)"

section \<open>Readiness\<close>

definition DEPENDENCY_CHECK_NAMES :: "pystr list" where
  "DEPENDENCY_CHECK_NAMES = [py ''postgres'', py ''qdrant'', py ''minio'', py ''vllm'', py ''redis'', py ''reranker'']"

record operational_check =
  oc_name :: pystr
  oc_status :: operational_status
  oc_message :: pystr

record readiness_response =
  rs_status :: operational_status
  rs_service :: pystr
  rs_checks :: "operational_check list"

definition CONFIGURATION_MESSAGE :: pystr where
  "CONFIGURATION_MESSAGE = [50868, 50689, 32, 49444, 51221, 32, 44592, 51456, 51012, 32, 53685, 44284, 54664, 49845, 45768, 45796, 46]"

definition API_KEY_MESSAGE :: pystr where
  "API_KEY_MESSAGE = [50868, 50689, 32, 54872, 44221, 50640, 49436, 45716, 32, 44060, 48156, 32, 44592, 48376, 32, 65, 80, 73, 32, 75, 101, 121, 47484, 32, 44368, 52404, 54644, 50556, 32, 54633, 45768, 45796, 46]"

definition DEBUG_MESSAGE :: pystr where
  "DEBUG_MESSAGE = [50868, 50689, 32, 54872, 44221, 50640, 49436, 45716, 32, 68, 69, 66, 85, 71, 47484, 32, 48708, 54876, 49457, 54868, 54644, 50556, 32, 54633, 45768, 45796, 46]"

definition is_production :: "ucd \<Rightarrow> settings \<Rightarrow> bool" where
  "is_production U s \<longleftrightarrow> ucd_lower U (strip (cfg_app_env s)) = py ''production''"

definition uses_development_api_key :: "pystr \<Rightarrow> bool" where
  "uses_development_api_key raw_api_keys \<longleftrightarrow>
     list_ex (\<lambda>entry. strip (before 124 entry) = DEFAULT_API_KEY) (split_on 59 raw_api_keys)"

definition collect_configuration_checks :: "ucd \<Rightarrow> settings \<Rightarrow> operational_check list" where
  "collect_configuration_checks U s =
     (let passed = [\<lparr> oc_name = py ''configuration'', oc_status = Ready, oc_message = CONFIGURATION_MESSAGE \<rparr>];
          checks =
            (if uses_development_api_key (cfg_api_keys s)
             then [\<lparr> oc_name = py ''api_keys'', oc_status = Not_Ready, oc_message = API_KEY_MESSAGE \<rparr>] else []) @
            (if cfg_debug s
             then [\<lparr> oc_name = py ''debug'', oc_status = Not_Ready, oc_message = DEBUG_MESSAGE \<rparr>] else [])
      in if \<not> is_production U s then passed else if checks \<noteq> [] then checks else passed)"

definition should_collect_dependency_checks :: "settings \<Rightarrow> operational_check list \<Rightarrow> bool" where
  "should_collect_dependency_checks s checks \<longleftrightarrow>
     cfg_dependency_health_checks_enabled s \<and> list_all (\<lambda>c. oc_status c = Ready) checks"

definition to_operational_checks :: "dependency_check_result list \<Rightarrow> operational_check list" where
  "to_operational_checks ds =
     map (\<lambda>c. \<lparr> oc_name = dc_name c, oc_status = dc_status c, oc_message = dc_message c \<rparr>) ds"

definition build_readiness_response :: "ucd \<Rightarrow> settings \<Rightarrow> health_checker \<Rightarrow> readiness_response" where
  "build_readiness_response U s h =
     (let checks = collect_configuration_checks U s;
          checks = (if should_collect_dependency_checks s checks
            then checks @ to_operational_checks (check_dependencies h s) else checks)
      in \<lparr> rs_status = (if list_all (\<lambda>c. oc_status c = Ready) checks then Ready else Not_Ready),
           rs_service = py ''docsearch-ai'', rs_checks = checks \<rparr>)"

definition dependency_failure_event :: "operational_check \<Rightarrow> operation_event" where
  "dependency_failure_event c = \<lparr> ev_event_type = py ''dependency.health_failed'', ev_severity = Error,
     ev_source = oc_name c, ev_message = oc_message c, ev_details = [(py ''check'', oc_name c)] \<rparr>"

fun record_dependency_failure_events :: "operational_check list \<Rightarrow> 'e event_store \<Rightarrow> 'e \<Rightarrow> 'e" where
  "record_dependency_failure_events [] est events = events"
| "record_dependency_failure_events (c # cs) est events =
     record_dependency_failure_events cs est
       (if oc_status c = Ready \<or> oc_name c \<notin> set DEPENDENCY_CHECK_NAMES then events
        else es_record est (dependency_failure_event c) events)"

text \<open>\<open>GET /ready\<close>: the status code, the response and the events.\<close>

definition ready :: "ucd \<Rightarrow> settings \<Rightarrow> health_checker \<Rightarrow> 'e event_store \<Rightarrow> 'e \<Rightarrow> (int \<times> readiness_response) \<times> 'e" where
  "ready U s h est events =
     (let readiness = build_readiness_response U s h;
          events' = record_dependency_failure_events (rs_checks readiness) est events;
          status_code = (if rs_status readiness = Ready then 200 else 503)
      in ((status_code, readiness), events'))"

definition health :: "(pystr \<times> pystr) list" where
  "health = [(py ''status'', py ''healthy''), (py ''service'', py ''docsearch-ai'')]"

section \<open>The administrator's overview\<close>

record operations_workspace_summary =
  ow_workspace_id :: pystr
  ow_workspace_name :: pystr
  ow_role :: pystr

record rate_limit_settings_summary =
  sl_enabled :: bool
  sl_backend :: pystr
  sl_requests :: int
  sl_window_seconds :: int
  sl_fail_open :: bool

record backend_settings_summary =
  sb_audit_log :: pystr
  sb_document_metadata :: pystr
  sb_indexing_queue :: pystr
  sb_embedding :: pystr
  sb_reranker :: pystr

record model_settings_summary =
  sm_llm :: pystr
  sm_llm_timeout_seconds :: pyfloat
  sm_llm_max_tokens :: int
  sm_llm_temperature :: pyfloat
  sm_llm_max_retries :: int
  sm_llm_retry_backoff_seconds :: pyfloat
  sm_embedding :: pystr
  sm_reranker :: pystr
  sm_embedding_vector_size :: int

record operations_settings_summary =
  su_environment :: pystr
  su_debug :: bool
  su_dependency_health_checks_enabled :: bool
  su_dependency_health_timeout_seconds :: pyfloat
  su_retrieval_mode :: pystr
  su_hybrid_dense_weight :: pyfloat
  su_hybrid_lexical_weight :: pyfloat
  su_hybrid_candidate_limit :: int
  su_rate_limit :: rate_limit_settings_summary
  su_backends :: backend_settings_summary
  su_models :: model_settings_summary

record indexing_queue_summary =
  iq_backend :: pystr
  iq_status :: operational_status
  iq_queue_key :: "pystr option"
  iq_pending_jobs :: "int option"
  iq_max_attempts :: int
  iq_message :: pystr

record operations_status_response =
  or_status :: operational_status
  or_service :: pystr
  or_workspace :: operations_workspace_summary
  or_checks :: "operational_check list"
  or_events :: "operation_event list"
  or_settings :: operations_settings_summary
  or_indexing_queue :: indexing_queue_summary

definition build_settings_summary :: "settings \<Rightarrow> operations_settings_summary" where
  "build_settings_summary s = \<lparr>
     su_environment = cfg_app_env s,
     su_debug = cfg_debug s,
     su_dependency_health_checks_enabled = cfg_dependency_health_checks_enabled s,
     su_dependency_health_timeout_seconds = cfg_dependency_health_timeout_seconds s,
     su_retrieval_mode = cfg_retrieval_mode s,
     su_hybrid_dense_weight = cfg_hybrid_dense_weight s,
     su_hybrid_lexical_weight = cfg_hybrid_lexical_weight s,
     su_hybrid_candidate_limit = cfg_hybrid_candidate_limit s,
     su_rate_limit = \<lparr> sl_enabled = cfg_rate_limit_enabled s, sl_backend = cfg_rate_limit_backend s,
       sl_requests = cfg_rate_limit_requests s, sl_window_seconds = cfg_rate_limit_window_seconds s,
       sl_fail_open = cfg_rate_limit_fail_open s \<rparr>,
     su_backends = \<lparr> sb_audit_log = cfg_audit_log_backend s,
       sb_document_metadata = cfg_document_metadata_backend s,
       sb_indexing_queue = cfg_indexing_queue_backend s, sb_embedding = cfg_embedding_backend s,
       sb_reranker = cfg_reranker_backend s \<rparr>,
     su_models = \<lparr> sm_llm = cfg_llm_model s, sm_llm_timeout_seconds = cfg_llm_timeout_seconds s,
       sm_llm_max_tokens = cfg_llm_max_tokens s, sm_llm_temperature = cfg_llm_temperature s,
       sm_llm_max_retries = cfg_llm_max_retries s,
       sm_llm_retry_backoff_seconds = cfg_llm_retry_backoff_seconds s,
       sm_embedding = cfg_embedding_model s, sm_reranker = cfg_reranker_model s,
       sm_embedding_vector_size = cfg_embedding_vector_size s \<rparr> \<rparr>"

definition INPROCESS_MESSAGE :: pystr where
  "INPROCESS_MESSAGE = [51064, 54532, 47196, 49464, 49828, 32, 51064, 45937, 49905, 51008, 32, 50629, 47196, 46300, 32, 50836, 52397, 32, 51473, 32, 51593, 49884, 32, 52376, 47532, 46121, 45768, 45796, 46]"

definition PENDING_FAILED_MESSAGE :: pystr where
  "PENDING_FAILED_MESSAGE = [82, 101, 100, 105, 115, 32, 51064, 45937, 49905, 32, 53328, 32, 45824, 44592, 44148, 49688, 32, 51312, 54924, 50640, 32, 49892, 54056, 54664, 49845, 45768, 45796]"

definition PENDING_MESSAGE :: pystr where
  "PENDING_MESSAGE = [82, 101, 100, 105, 115, 32, 51064, 45937, 49905, 32, 53328, 32, 45824, 44592, 44148, 49688, 32, 51312, 54924, 50640, 32, 49457, 44277, 54664, 49845, 45768, 45796, 46]"

definition build_indexing_queue_summary ::
  "settings \<Rightarrow> 'r redis \<Rightarrow> ('m, 'q, 'd, 'r, 'e) world \<Rightarrow> indexing_queue_summary" where
  "build_indexing_queue_summary s R w =
     (if cfg_indexing_queue_backend s \<noteq> py ''redis''
      then \<lparr> iq_backend = cfg_indexing_queue_backend s, iq_status = Ready, iq_queue_key = None,
        iq_pending_jobs = Some 0, iq_max_attempts = cfg_indexing_queue_max_attempts s,
        iq_message = INPROCESS_MESSAGE \<rparr>
      else (case redis_pending_count (create_redis_job_queue R s) w of
          Inl exc \<Rightarrow> \<lparr> iq_backend = cfg_indexing_queue_backend s, iq_status = Not_Ready,
            iq_queue_key = Some (cfg_indexing_queue_redis_key s), iq_pending_jobs = None,
            iq_max_attempts = cfg_indexing_queue_max_attempts s,
            iq_message = PENDING_FAILED_MESSAGE @ py '': '' @ str_exn exc \<rparr>
        | Inr pending_jobs \<Rightarrow> \<lparr> iq_backend = cfg_indexing_queue_backend s, iq_status = Ready,
            iq_queue_key = Some (cfg_indexing_queue_redis_key s), iq_pending_jobs = Some pending_jobs,
            iq_max_attempts = cfg_indexing_queue_max_attempts s, iq_message = PENDING_MESSAGE \<rparr>))"

text \<open>The handler, for the context of an administrator.\<close>

definition get_operations_status ::
  "ucd \<Rightarrow> settings \<Rightarrow> health_checker \<Rightarrow> 'r redis \<Rightarrow> 'e event_store \<Rightarrow> workspace_context
     \<Rightarrow> ('m, 'q, 'd, 'r, 'e) world \<Rightarrow> operations_status_response \<times> ('m, 'q, 'd, 'r, 'e) world" where
  "get_operations_status U s h R est ctx w =
     (let readiness = build_readiness_response U s h;
          w' = w\<lparr> w_events := record_dependency_failure_events (rs_checks readiness) est (w_events w) \<rparr>
      in (\<lparr> or_status = rs_status readiness, or_service = rs_service readiness,
            or_workspace = \<lparr> ow_workspace_id = wc_workspace_id ctx, ow_workspace_name = wc_workspace_name ctx,
              ow_role = wc_role ctx \<rparr>,
            or_checks = rs_checks readiness, or_events = es_list est 20 (w_events w'),
            or_settings = build_settings_summary s,
            or_indexing_queue = build_indexing_queue_summary s R w' \<rparr>, w'))"

end
