(* ===== verification/Operations_Guarantees.thy ===== *)
theory Operations_Guarantees
  imports Operations
begin

text \<open>
  When the backend reports itself ready, which failures reach the operation events, that the
  administrator's overview shows no secret, and that the commands of the Redis probe are framed
  correctly.
\<close>

section \<open>Readiness\<close>

lemma run_probe_simps [simp]:
  "dc_name (run_probe name display p s t) = name"
  "dc_status (run_probe name display p s t) = Ready \<longleftrightarrow> (\<exists>x. p s t = Inr x)"
  by (auto simp: run_probe_def split: sum.splits)

lemma configuration_ready:
  "list_all (\<lambda>c. oc_status c = Ready) (collect_configuration_checks U s) \<longleftrightarrow>
     (is_production U s \<longrightarrow> \<not> uses_development_api_key (cfg_api_keys s) \<and> \<not> cfg_debug s)"
  by (simp add: collect_configuration_checks_def Let_def)

lemma if_else_True: "(if c then P else True) \<longleftrightarrow> (c \<longrightarrow> P)"
  by simp

lemma list_all_if: "list_all P (if c then xs else ys) = (if c then list_all P xs else list_all P ys)"
  by simp

text \<open>
  C33: readiness. The backend is ready exactly when, in production, the development API key is not
  configured and debugging is off, and, if the checks are enabled, every service the settings use
  answers its probe; PostgreSQL counts as used for the audit log and the document metadata only.
\<close>

theorem ready_iff:
  "fst (fst (ready U s h est events)) = 200 \<longleftrightarrow>
     (if is_production U s then \<not> uses_development_api_key (cfg_api_keys s) \<and> \<not> cfg_debug s else True)
   \<and> (if cfg_dependency_health_checks_enabled s
      then let t = cfg_dependency_health_timeout_seconds s; ok = (\<lambda>p. \<exists>x. p s t = Inr x) in
         ok (hc_qdrant_probe h) \<and> ok (hc_minio_probe h) \<and> ok (hc_vllm_probe h)
         \<and> (if cfg_audit_log_backend s = py ''postgres'' \<or> cfg_document_metadata_backend s = py ''postgres''
            then ok (hc_postgres_probe h) else True)
         \<and> (if cfg_indexing_queue_backend s = py ''redis'' \<or> cfg_rate_limit_backend s = py ''redis''
            then ok (hc_redis_probe h) else True)
         \<and> (if cfg_embedding_backend s = py ''bge'' then ok (hc_embedding_probe h) else True)
         \<and> (if cfg_reranker_backend s = py ''bge'' then ok (hc_reranker_probe h) else True)
      else True)"
proof -
  let ?conf = "collect_configuration_checks U s"
  have ops: "list_all (\<lambda>c. oc_status c = Ready) (to_operational_checks ds) \<longleftrightarrow> list_all (\<lambda>c. dc_status c = Ready) ds" for ds
    by (simp add: to_operational_checks_def list_all_iff)
  have "fst (fst (ready U s h est events)) = 200 \<longleftrightarrow> rs_status (build_readiness_response U s h) = Ready"
    by (simp add: ready_def Let_def)
  also have "\<dots> \<longleftrightarrow> list_all (\<lambda>c. oc_status c = Ready) ?conf
      \<and> (cfg_dependency_health_checks_enabled s \<longrightarrow> list_all (\<lambda>c. dc_status c = Ready) (check_dependencies h s))"
    by (auto simp: build_readiness_response_def Let_def should_collect_dependency_checks_def ops)
  also have "list_all (\<lambda>c. dc_status c = Ready) (check_dependencies h s) \<longleftrightarrow>
      list_all (\<lambda>(name, display, p). \<exists>x. p s (cfg_dependency_health_timeout_seconds s) = Inr x) (dependency_probes h s)"
    by (simp add: check_dependencies_def list_all_iff split_beta)
  also have "\<dots> \<longleftrightarrow> (let t = cfg_dependency_health_timeout_seconds s; ok = (\<lambda>p. \<exists>x. p s t = Inr x) in
         ok (hc_qdrant_probe h) \<and> ok (hc_minio_probe h) \<and> ok (hc_vllm_probe h)
         \<and> (uses_postgres s \<longrightarrow> ok (hc_postgres_probe h))
         \<and> (cfg_indexing_queue_backend s = py ''redis'' \<or> cfg_rate_limit_backend s = py ''redis''
            \<longrightarrow> ok (hc_redis_probe h))
         \<and> (cfg_embedding_backend s = py ''bge'' \<longrightarrow> ok (hc_embedding_probe h))
         \<and> (cfg_reranker_backend s = py ''bge'' \<longrightarrow> ok (hc_reranker_probe h)))"
    unfolding dependency_probes_def Let_def list_all_append list_all_if by auto
  finally show ?thesis
    unfolding configuration_ready uses_postgres_def Let_def if_else_True .
qed

section \<open>Events\<close>

lemma record_failures_fold:
  "record_dependency_failure_events cs est events =
     fold (\<lambda>c. es_record est (dependency_failure_event c))
       (filter (\<lambda>c. oc_status c \<noteq> Ready \<and> oc_name c \<in> set DEPENDENCY_CHECK_NAMES) cs) events"
  by (induction cs est events rule: record_dependency_failure_events.induct) auto

lemma configuration_names:
  "c \<in> set (collect_configuration_checks U s) \<Longrightarrow> oc_name c \<notin> set DEPENDENCY_CHECK_NAMES"
  by (auto simp: collect_configuration_checks_def DEPENDENCY_CHECK_NAMES_def Let_def split: if_splits)

text \<open>
  Failures leave events. A readiness request records one event for every dependency whose probe
  failed, in the order of the checks and with the name and message of the check, except for the
  embedding service, whose failure makes the backend not ready but leaves no event.
\<close>

lemma failed_probes_recorded:
  "snd (ready U s h est events) = fold (es_record est)
     (map dependency_failure_event (filter (\<lambda>c. oc_status c = Not_Ready \<and> oc_name c \<noteq> py ''embedding'')
       (to_operational_checks (if should_collect_dependency_checks s (collect_configuration_checks U s)
          then check_dependencies h s else [])))) events"
proof -
  let ?conf = "collect_configuration_checks U s"
  have conf: "filter (\<lambda>c. oc_status c \<noteq> Ready \<and> oc_name c \<in> set DEPENDENCY_CHECK_NAMES) ?conf = []"
    using configuration_names by (auto simp: filter_empty_conv)
  have names: "oc_name c \<in> set DEPENDENCY_CHECK_NAMES \<longleftrightarrow> oc_name c \<noteq> py ''embedding''"
    if "c \<in> set (to_operational_checks (check_dependencies h s))" for c
    using that by (auto simp: to_operational_checks_def check_dependencies_def dependency_probes_def
        DEPENDENCY_CHECK_NAMES_def split: if_splits)
  have status: "x \<noteq> Ready \<longleftrightarrow> x = Not_Ready" for x by (cases x) simp_all
  have "filter (\<lambda>c. oc_status c \<noteq> Ready \<and> oc_name c \<in> set DEPENDENCY_CHECK_NAMES)
        (to_operational_checks (check_dependencies h s))
      = filter (\<lambda>c. oc_status c = Not_Ready \<and> oc_name c \<noteq> py ''embedding'')
        (to_operational_checks (check_dependencies h s))"
    using names status by (intro filter_cong) auto
  with conf show ?thesis
    by (simp add: ready_def build_readiness_response_def Let_def record_failures_fold fold_map comp_def
        to_operational_checks_def [of "[]"])
qed

section \<open>The overview\<close>

text \<open>
  The administrator's overview shows no secret. Its settings part is the same for settings that
  differ in the API keys, users, token secret, database and Redis addresses, object store keys and
  service keys.
\<close>

lemma overview_hides_secrets:
  "or_settings (fst (get_operations_status U s h R est ctx w)) =
   or_settings (fst (get_operations_status U' (s\<lparr> cfg_api_keys := a, cfg_auth_users := b,
     cfg_auth_token_secret := c, cfg_database_url := d, cfg_redis_url := e, cfg_minio_access_key := f,
     cfg_minio_secret_key := g, cfg_llm_api_key := i, cfg_embedding_api_key := j, cfg_reranker_api_key := k \<rparr>)
     h' R' est' ctx' w'))"
  by (simp add: get_operations_status_def build_settings_summary_def Let_def)

section \<open>The Redis commands\<close>

text \<open>A reader of the Redis protocol: an array of bulk strings.\<close>

definition resp_length :: "bytes \<Rightarrow> nat \<times> bytes" where
  "resp_length bs = (nat (decimal (takeWhile (\<lambda>c. c \<noteq> 13) bs)), drop 2 (dropWhile (\<lambda>c. c \<noteq> 13) bs))"

fun resp_bulks :: "nat \<Rightarrow> bytes \<Rightarrow> bytes list option" where
  "resp_bulks 0 bs = (if bs = [] then Some [] else None)"
| "resp_bulks (Suc n) bs =
     (case bs of
        [] \<Rightarrow> None
      | c # r \<Rightarrow>
          (let (len, rest) = resp_length r in
           if c = 36 \<and> len + 2 \<le> length rest \<and> take 2 (drop len rest) = [13, 10]
           then map_option ((#) (take len rest)) (resp_bulks n (drop (len + 2) rest)) else None))"

definition resp_command :: "bytes \<Rightarrow> bytes list option" where
  "resp_command bs = (case bs of [] \<Rightarrow> None | c # r \<Rightarrow>
     (let (n, rest) = resp_length r in if c = 42 then resp_bulks n rest else None))"

abbreviation utf8_bytes :: "pystr \<Rightarrow> bytes" where
  "utf8_bytes s \<equiv> concat (map encode_cp s)"

lemma utf8_bytes_ascii: "list_all (\<lambda>c. c < 128) s \<Longrightarrow> utf8_bytes s = s"
  by (induction s) (auto simp: encode_cp_def)

lemma nat_digits_ascii: "list_all (\<lambda>c. c < 128) (nat_digits n)" "c \<in> set (nat_digits n) \<Longrightarrow> c \<noteq> 13"
  using nat_digits_range [of _ n] by (force simp: list_all_iff)+

lemma py_marks: "py ''$'' = [36]" "py ''*'' = [42]"
  by (simp_all add: py_def)

lemma resp_length_digits: "resp_length (nat_digits n @ 13 # 10 # rest) = (n, rest)"
  using nat_digits_facts [of n] nat_digits_ascii(2)
  by (simp add: resp_length_def takeWhile_append dropWhile_append)

lemma resp_bulks_step:
  "resp_bulks (Suc n) (36 # nat_digits (length x) @ 13 # 10 # x @ 13 # 10 # r) = map_option ((#) x) (resp_bulks n r)"
  by (simp add: resp_length_digits)

declare resp_bulks.simps(2) [simp del]

lemma encodable_marks: "encodable 36" "encodable 42" "encodable 13" "encodable 10"
  by (simp_all add: encodable_def is_surrogate_def)

lemma redis_parts_cases:
  "case redis_parts parts of
     Inl e \<Rightarrow> \<not> list_all (list_all encodable) parts
   | Inr payload \<Rightarrow> list_all (list_all encodable) parts \<and> list_all encodable payload
       \<and> resp_bulks (length parts) (utf8_bytes payload) = Some (map utf8_bytes parts)"
proof (induction parts)
  case (Cons part parts)
  have digits: "list_all encodable (nat_digits n)" for n
    using nat_digits_ascii(1) [of n] by (auto simp: list_all_iff encodable_def is_surrogate_def)
  have "resp_bulks (Suc n) (utf8_bytes (py ''$'' @ nat_digits (length (utf8_bytes part)) @ CRLF @ part @ CRLF @ rest))
      = map_option ((#) (utf8_bytes part)) (resp_bulks n (utf8_bytes rest))" for n rest
  proof -
    have "utf8_bytes (py ''$'' @ nat_digits (length (utf8_bytes part)) @ CRLF @ part @ CRLF @ rest)
        = 36 # nat_digits (length (utf8_bytes part)) @ 13 # 10 # utf8_bytes part @ 13 # 10 # utf8_bytes rest"
      using utf8_bytes_ascii [OF nat_digits_ascii(1), of "length (utf8_bytes part)"]
      by (simp add: py_marks CRLF_def encode_cp_def)
    then show ?thesis by (simp only: resp_bulks_step)
  qed
  with Cons digits show ?case
    by (auto simp: utf8_encode_def str_int_def py_marks CRLF_def encodable_marks split: sum.splits)
qed simp

text \<open>
  Framing of the Redis commands. A command of encodable parts is sent as one array of bulk
  strings that a reader of the protocol takes apart into the bytes of the parts, whatever characters
  the parts contain; a command with a lone surrogate is never sent.
\<close>

lemma redis_command_round_trip:
  "case redis_command_payload parts of
     Inl e \<Rightarrow> \<not> list_all (list_all encodable) parts
   | Inr bs \<Rightarrow> resp_command bs = Some (map utf8_bytes parts)"
proof (cases "redis_parts parts")
  case (Inl e)
  then show ?thesis using redis_parts_cases [of parts] by (simp add: redis_command_payload_def)
next
  case (Inr payload)
  have "list_all encodable (nat_digits n)" for n
    using nat_digits_ascii(1) [of n] by (auto simp: list_all_iff encodable_def is_surrogate_def)
  then have "redis_command_payload parts = Inr (utf8_bytes (42 # nat_digits (length parts) @ CRLF @ payload))"
    using Inr redis_parts_cases [of parts]
    by (simp add: redis_command_payload_def utf8_encode_def str_int_def py_marks CRLF_def encodable_marks)
  also have "utf8_bytes (42 # nat_digits (length parts) @ CRLF @ payload)
      = 42 # nat_digits (length parts) @ 13 # 10 # utf8_bytes payload"
    using utf8_bytes_ascii [OF nat_digits_ascii(1), of "length parts"] by (simp add: CRLF_def encode_cp_def)
  finally show ?thesis
    using Inr redis_parts_cases [of parts] by (simp add: resp_command_def resp_length_digits)
qed

end
