(* ===== verification/Audit_Export.thy ===== *)
theory Audit_Export
  imports Audit_Log UTF8
begin

text \<open>
  \<open>audit/export.py\<close> and the export endpoint of \<open>audit/router.py\<close>: the audit events of a workspace as a
  CSV file. Times are written by \<open>datetime.isoformat\<close> in UTC, rows by the writer of the module \<open>csv\<close> in
  its default dialect: fields are separated by commas, rows ended by CR LF, and a field with a comma, a
  quote or a line break is quoted, its quotes doubled.

  A reader of that dialect recovers every field of every row (\<open>csv_records_lines\<close>), and the calendar
  date of a day number determines it (\<open>ymd_round_trip\<close>).
\<close>

section \<open>Calendar dates\<close>

definition is_leap :: "int \<Rightarrow> bool" where
  "is_leap y \<longleftrightarrow> y mod 4 = 0 \<and> (y mod 100 \<noteq> 0 \<or> y mod 400 = 0)"

definition month_lengths :: "int \<Rightarrow> int list" where
  "month_lengths y = [31, if is_leap y then 29 else 28, 31, 30, 31, 30, 31, 31, 30, 31, 30, 31]"

fun split_month :: "int \<Rightarrow> int list \<Rightarrow> int \<Rightarrow> int \<times> int" where
  "split_month m [] n = (m, n + 1)"
| "split_month m (l # ls) n = (if n < l then (m, n + 1) else split_month (m + 1) ls (n - l))"

text \<open>
  Year, month and day of a number of days after 1970-01-01, in the proleptic Gregorian calendar: 400
  years have 146097 days, a century without its leap day 36524, four years 1461.
\<close>

definition ymd_of_days :: "int \<Rightarrow> int \<times> int \<times> int" where
  "ymd_of_days days =
     (let n = days + 719162;
          n400 = n div 146097; r = n mod 146097;
          n100 = r div 36524; r = r mod 36524;
          n4 = r div 1461; r = r mod 1461;
          n1 = r div 365; r = r mod 365;
          year = n400 * 400 + n100 * 100 + n4 * 4 + n1 + 1
      in if n1 = 4 \<or> n100 = 4 then (year - 1, 12, 31)
         else (year, split_month 1 (month_lengths year) r))"

definition pad :: "nat \<Rightarrow> int \<Rightarrow> pystr" where
  "pad k i = replicate (k - length (str_int i)) 48 @ str_int i"

text \<open>\<open>value.astimezone(UTC).isoformat()\<close>; a time is a number of microseconds after 1970.\<close>

definition isoformat :: "timestamp \<Rightarrow> pystr" where
  "isoformat t =
     (let (y, m, d) = ymd_of_days (t div 86400000000); r = t mod 86400000000;
          s = r div 1000000; us = r mod 1000000
      in pad 4 y @ py ''-'' @ pad 2 m @ py ''-'' @ pad 2 d @ py ''T''
         @ pad 2 (s div 3600) @ py '':'' @ pad 2 (s div 60 mod 60) @ py '':'' @ pad 2 (s mod 60)
         @ (if us = 0 then [] else py ''.'' @ pad 6 us) @ py ''+00:00'')"

function py_replace :: "pystr \<Rightarrow> pystr \<Rightarrow> pystr \<Rightarrow> pystr" where
  "py_replace old new s =
     (if s = [] then []
      else if old \<noteq> [] \<and> startswith old s then new @ py_replace old new (drop (length old) s)
      else hd s # py_replace old new (tl s))"
  by auto
termination
  by (relation "measure (\<lambda>(old, new, s). length s)") auto

declare py_replace.simps [simp del]

definition format_utc :: "timestamp \<Rightarrow> pystr" where
  "format_utc t = py_replace (py ''+00:00'') (py ''Z'') (isoformat t)"

section \<open>The CSV writer\<close>

definition needs_quotes :: "pystr \<Rightarrow> bool" where
  "needs_quotes s \<longleftrightarrow> list_ex (\<lambda>c. c \<in> {44, 34, 10, 13}) s"

definition csv_field :: "pystr \<Rightarrow> pystr" where
  "csv_field s = (if needs_quotes s
     then [34] @ concat (map (\<lambda>c. if c = 34 then [34, 34] else [c]) s) @ [34] else s)"

definition csv_line :: "pystr list \<Rightarrow> pystr" where
  "csv_line row = join (py '','') (map csv_field row) @ [13, 10]"

section \<open>The export\<close>

definition CSV_FIELDNAMES :: "pystr list" where
  "CSV_FIELDNAMES = [
     [51060, 48292, 53944, 32, 73, 68],
     [48156, 49373, 32, 49884, 44033],
     [51060, 48292, 53944, 32, 50976, 54805],
     [50892, 53356, 49828, 54168, 51060, 49828, 32, 73, 68],
     [50892, 53356, 49828, 54168, 51060, 49828, 32, 51060, 47492],
     [50836, 52397, 32, 73, 68],
     [51656, 47928],
     [45813, 48320, 32, 48120, 47532, 48372, 44592],
     [47928, 49436, 32, 73, 68],
     [52636, 52376, 32, 54028, 51068],
     [44160, 49353, 32, 51228, 54620],
     [47532, 47021, 53356, 32, 49345, 50948, 32, 75],
     [44160, 49353, 32, 52397, 53356, 32, 49688],
     [47784, 45944],
     [54532, 47212, 54532, 53944, 32, 53664, 53360],
     [50756, 47308, 32, 53664, 53360],
     [51204, 52404, 32, 53664, 53360]]"

definition join_values :: "pystr list \<Rightarrow> pystr" where
  "join_values values = join (py ''; '') values"

definition optional_number :: "int option \<Rightarrow> pystr" where
  "optional_number value = (case value of None \<Rightarrow> [] | Some i \<Rightarrow> str_int i)"

definition csv_row :: "chat_audit_event \<Rightarrow> pystr list" where
  "csv_row e = [
     ce_event_id e,
     format_utc (ce_occurred_at e),
     ce_event_type e,
     ce_workspace_id e,
     ce_workspace_name e,
     ce_request_id e,
     ce_question e,
     ce_answer_preview e,
     join_values (case ce_document_ids e of None \<Rightarrow> [] | Some ids \<Rightarrow> ids),
     join_values (map ac_filename (ce_citations e)),
     str_int (ce_retrieval_limit e),
     str_int (ce_rerank_top_k e),
     str_int (ce_retrieved_chunk_count e),
     ce_model e,
     optional_number (ce_prompt_tokens e),
     optional_number (ce_completion_tokens e),
     optional_number (ce_total_tokens e)]"

definition build_chat_audit_csv :: "chat_audit_event list \<Rightarrow> pystr" where
  "build_chat_audit_csv events = concat (map csv_line (CSV_FIELDNAMES # map csv_row events))"

text \<open>The handler: the response encodes its text in UTF-8. The time of the request is an argument.\<close>

record export_response =
  ex_content :: bytes
  ex_media_type :: pystr
  ex_content_disposition :: pystr

definition export_filename :: "timestamp \<Rightarrow> pystr" where
  "export_filename now =
     (let (y, m, d) = ymd_of_days (now div 86400000000); s = now mod 86400000000 div 1000000 in
      py ''chat-audit-logs-'' @ pad 4 y @ pad 2 m @ pad 2 d @ py ''-''
        @ pad 2 (s div 3600) @ pad 2 (s div 60 mod 60) @ pad 2 (s mod 60) @ py ''.csv'')"

definition export_chat_audit_events ::
  "'s audit_store \<Rightarrow> timestamp \<Rightarrow> workspace_context \<Rightarrow> pystr option \<Rightarrow> pystr option \<Rightarrow> pystr option
     \<Rightarrow> timestamp option \<Rightarrow> timestamp option \<Rightarrow> int \<Rightarrow> 's \<Rightarrow> export_response res" where
  "export_chat_audit_events st now ctx query document_id request_id occurred_from occurred_to limit s =
     (let filters = build_chat_audit_filters query document_id request_id occurred_from occurred_to limit;
          events = al_list st (wc_workspace_id ctx) (Some filters) s
      in case utf8_encode (build_chat_audit_csv events) of
           Inl e \<Rightarrow> Inl e
         | Inr content \<Rightarrow> Inr \<lparr> ex_content = content, ex_media_type = py ''text/csv; charset=utf-8'',
             ex_content_disposition = py ''attachment; filename='' @ [34] @ export_filename now @ [34] \<rparr>)"

section \<open>A reader of the dialect\<close>

datatype csv_state = Field_Start | Unquoted | Quoted | Quote_Seen | Line_End

text \<open>
  The state, the field and the row read so far; a record ends with CR LF, the text after a record.
\<close>

fun csv_reader :: "csv_state \<Rightarrow> pystr \<Rightarrow> pystr list \<Rightarrow> pystr \<Rightarrow> pystr list list option" where
  "csv_reader st fld row [] = (if st = Field_Start \<and> row = [] then Some [] else None)"
| "csv_reader Line_End fld row (c # s) =
     (if c = 10 then map_option ((#) row) (csv_reader Field_Start [] [] s) else None)"
| "csv_reader Quoted fld row (c # s) =
     (if c = 34 then csv_reader Quote_Seen fld row s else csv_reader Quoted (fld @ [c]) row s)"
| "csv_reader st fld row (c # s) =
     (if c = 34 then (if st = Field_Start then csv_reader Quoted [] row s
        else if st = Quote_Seen then csv_reader Quoted (fld @ [34]) row s else None)
      else if c = 44 then csv_reader Field_Start [] (row @ [fld]) s
      else if c = 13 then csv_reader Line_End [] (row @ [fld]) s
      else if st = Quote_Seen then None else csv_reader Unquoted (fld @ [c]) row s)"

definition csv_records :: "pystr \<Rightarrow> pystr list list option" where
  "csv_records s = csv_reader Field_Start [] [] s"

lemma read_quoted:
  "csv_reader Quoted fld row (concat (map (\<lambda>c. if c = 34 then [34, 34] else [c]) s) @ [34] @ r)
     = csv_reader Quote_Seen (fld @ s) row r"
  by (induction s arbitrary: fld) auto

lemma read_unquoted:
  "\<not> needs_quotes s \<Longrightarrow> st = Unquoted \<or> st = Field_Start \<and> fld = [] \<Longrightarrow> d \<in> {44, 13} \<Longrightarrow>
     csv_reader st fld row (s @ d # r) = csv_reader Unquoted (fld @ s) row (d # r)"
proof (induction s arbitrary: fld st)
  case Nil
  then show ?case by auto
next
  case (Cons c s)
  from Cons.prems have "c \<notin> {44, 34, 10, 13}" "\<not> needs_quotes s" by (simp_all add: needs_quotes_def)
  with Cons.IH [of Unquoted "fld @ [c]"] Cons.prems show ?case by auto
qed

lemma read_field:
  assumes "d \<in> {44, 13}"
  shows "csv_reader Field_Start [] row (csv_field s @ d # r)
    = csv_reader (if d = 44 then Field_Start else Line_End) [] (row @ [s]) r"
proof (cases "needs_quotes s")
  case True
  then have "csv_reader Field_Start [] row (csv_field s @ d # r) = csv_reader Quote_Seen s row (d # r)"
    using read_quoted [of "[]" row s "d # r"] by (simp add: csv_field_def)
  then show ?thesis using assms by auto
next
  case False
  then have "csv_reader Field_Start [] row (csv_field s @ d # r) = csv_reader Unquoted s row (d # r)"
    using read_unquoted [OF False _ assms, of Field_Start "[]" row r] by (simp add: csv_field_def)
  then show ?thesis using assms by auto
qed

lemma read_fields:
  "fs \<noteq> [] \<Longrightarrow> csv_reader Field_Start [] row (join [44] (map csv_field fs) @ 13 # 10 # r)
     = map_option ((#) (row @ fs)) (csv_reader Field_Start [] [] r)"
proof (induction fs arbitrary: row)
  case (Cons f fs)
  show ?case
  proof (cases "fs = []")
    case True
    then show ?thesis using read_field [of 13 row f "10 # r"] by simp
  next
    case False
    then have "join [44] (map csv_field (f # fs)) = csv_field f @ 44 # join [44] (map csv_field fs)"
      by (simp add: join_Cons)
    then show ?thesis using False Cons.IH [of "row @ [f]"] read_field [of 44 row f] by simp
  qed
qed simp

lemma csv_records_lines:
  "list_all (\<lambda>row. row \<noteq> []) rows \<Longrightarrow> csv_records (concat (map csv_line rows)) = Some rows"
proof (induction rows)
  case (Cons row rows)
  then show ?case using read_fields [of row "[]"] by (simp add: csv_records_def csv_line_def py_def)
qed (simp add: csv_records_def)

section \<open>The calendar round trip\<close>

definition days_of_ymd :: "int \<times> int \<times> int \<Rightarrow> int" where
  "days_of_ymd = (\<lambda>(y, m, d). 365 * (y - 1) + (y - 1) div 4 - (y - 1) div 100 + (y - 1) div 400
     + sum_list (take (nat (m - 1)) (month_lengths y)) + d - 1 - 719162)"

lemma split_month_sum:
  "0 \<le> n \<Longrightarrow> n < sum_list ls \<Longrightarrow> split_month m ls n = (m', d) \<Longrightarrow>
     m \<le> m' \<and> m' < m + int (length ls) \<and> n = sum_list (take (nat (m' - m)) ls) + d - 1
     \<and> 1 \<le> d \<and> d \<le> ls ! nat (m' - m)"
proof (induction m ls n arbitrary: m' rule: split_month.induct)
  case (2 m l ls n)
  show ?case
  proof (cases "n < l")
    case True
    with 2 show ?thesis by auto
  next
    case False
    with 2 have "m + 1 \<le> m' \<and> m' < m + 1 + int (length ls) \<and> n - l = sum_list (take (nat (m' - (m + 1))) ls) + d - 1
      \<and> 1 \<le> d \<and> d \<le> ls ! nat (m' - (m + 1))" by simp
    moreover from this have "nat (m' - m) = Suc (nat (m' - (m + 1)))" by linarith
    ultimately show ?thesis by simp
  qed
qed simp

lemma year_parts:
  fixes n :: int
  assumes "a = n div 146097" "r1 = n mod 146097" "b = r1 div 36524" "r2 = r1 mod 36524"
    and "c = r2 div 1461" "r3 = r2 mod 1461" "d = r3 div 365" "r = r3 mod 365"
  shows "n = 146097 * a + 36524 * b + 1461 * c + 365 * d + r \<and> 0 \<le> b \<and> b \<le> 4 \<and> 0 \<le> c \<and> c \<le> 24
    \<and> 0 \<le> d \<and> d \<le> 4 \<and> 0 \<le> r \<and> r < 365 \<and> (b = 4 \<longrightarrow> c = 0 \<and> d = 0 \<and> r = 0) \<and> (d = 4 \<longrightarrow> r = 0 \<and> c < 24)"
proof -
  have e: "n = 146097 * a + r1" "r1 = 36524 * b + r2" "r2 = 1461 * c + r3" "r3 = 365 * d + r"
    unfolding assms by (simp_all only: mult_div_mod_eq)
  have m: "0 \<le> r1" "r1 < 146097" "0 \<le> r2" "r2 < 36524" "0 \<le> r3" "r3 < 1461" "0 \<le> r" "r < 365"
    unfolding assms by (simp_all only: pos_mod_sign pos_mod_bound zero_less_numeral)
  have p: "0 \<le> b" "0 \<le> c" "0 \<le> d" unfolding assms(3,5,7) using m(1,3,5) by (simp_all add: pos_imp_zdiv_nonneg_iff)
  have u: "b \<le> 4" "c \<le> 24" "d \<le> 4" using e m by linarith+
  have b4: "b = 4 \<Longrightarrow> r2 = 0" using e m by linarith
  have c0: "r2 = 0 \<Longrightarrow> c = 0" "r2 = 0 \<Longrightarrow> r3 = 0" using e m p by linarith+
  have d0: "r3 = 0 \<Longrightarrow> d = 0" "r3 = 0 \<Longrightarrow> r = 0" using e m p by linarith+
  have d4: "d = 4 \<Longrightarrow> r = 0" "d = 4 \<Longrightarrow> c < 24" using e m by linarith+
  have n: "n = 146097 * a + 36524 * b + 1461 * c + 365 * d + r" using e by linarith
  show ?thesis using n p u m(7,8) b4 c0 d0 d4 by blast
qed

lemma years_before:
  fixes a b c d :: int
  assumes "0 \<le> b" "b \<le> 3" "0 \<le> c" "c \<le> 24" "0 \<le> d" "d \<le> 3" "y = 400 * a + 100 * b + 4 * c + d"
  shows "365 * y + y div 4 - y div 100 + y div 400 = 146097 * a + 36524 * b + 1461 * c + 365 * d"
proof -
  have "y div 4 = 100 * a + 25 * b + c" by (rule int_div_pos_eq [where r = d]) (use assms in auto)
  moreover have "y div 100 = 4 * a + b" by (rule int_div_pos_eq [where r = "4 * c + d"]) (use assms in auto)
  moreover have "y div 400 = a" by (rule int_div_pos_eq [where r = "100 * b + 4 * c + d"]) (use assms in auto)
  ultimately show ?thesis using assms(7) by simp
qed

lemma leap_years:
  fixes a b c d :: int
  assumes "0 \<le> b" "b \<le> 3" "0 \<le> c" "c \<le> 24" "0 \<le> d" "d \<le> 3" "y = 400 * a + 100 * b + 4 * c + d + 1"
  shows "is_leap y \<longleftrightarrow> d = 3 \<and> (c = 24 \<longrightarrow> b = 3)"
proof (cases "d = 3")
  case False
  have "y mod 4 = d + 1"
    by (rule int_mod_pos_eq [where q = "100 * a + 25 * b + c"]) (use assms False in auto)
  then show ?thesis using False assms by (auto simp: is_leap_def)
next
  case True
  have 4: "y mod 4 = 0"
    by (rule int_mod_pos_eq [where q = "100 * a + 25 * b + c + 1"]) (use assms True in auto)
  show ?thesis
  proof (cases "c = 24")
    case c: True
    have "y mod 100 = 0" by (rule int_mod_pos_eq [where q = "4 * a + b + 1"]) (use assms True c in auto)
    moreover have "y mod 400 = (if b = 3 then 0 else 100 * b + 100)"
      by (rule int_mod_pos_eq [where q = "if b = 3 then a + 1 else a"]) (use assms True c in auto)
    ultimately show ?thesis using True 4 c assms by (auto simp: is_leap_def)
  next
    case c: False
    have "y mod 100 = 4 * c + 4" by (rule int_mod_pos_eq [where q = "4 * a + b"]) (use assms True c in auto)
    then show ?thesis using True 4 c assms by (auto simp: is_leap_def)
  qed
qed

text \<open>The last day of a leap year is its day 366.\<close>

lemma year_end:
  "is_leap y \<Longrightarrow> sum_list (take 11 (month_lengths y)) = 335"
  "sum_list (month_lengths y) = (if is_leap y then 366 else 365)"
  by (simp_all add: month_lengths_def)

theorem ymd_round_trip: "days_of_ymd (ymd_of_days n) = n"
proof -
  let ?n = "n + 719162"
  define a r1 where "a = ?n div 146097" and "r1 = ?n mod 146097"
  define b r2 where "b = r1 div 36524" and "r2 = r1 mod 36524"
  define c r3 where "c = r2 div 1461" and "r3 = r2 mod 1461"
  define d r where "d = r3 div 365" and "r = r3 mod 365"
  define y where "y = a * 400 + b * 100 + c * 4 + d + 1"
  note parts = year_parts [OF a_def r1_def b_def r2_def c_def r3_def d_def r_def]
  have ymd: "ymd_of_days n = (if d = 4 \<or> b = 4 then (y - 1, 12, 31) else (y, split_month 1 (month_lengths y) r))"
    by (simp add: ymd_of_days_def Let_def y_def a_def b_def c_def d_def r_def r1_def r2_def r3_def)
  show ?thesis
  proof (cases "d = 4 \<or> b = 4")
    case False
    then have b: "0 \<le> b" "b \<le> 3" and c: "0 \<le> c" "c \<le> 24" and d: "0 \<le> d" "d \<le> 3"
      and n: "?n = 146097 * a + 36524 * b + 1461 * c + 365 * d + r" and r: "0 \<le> r" "r < 365"
      using parts by auto
    have "y - 1 = 400 * a + 100 * b + 4 * c + d" by (simp add: y_def)
    note years = years_before [OF b c d this]
    obtain m k where mk: "split_month 1 (month_lengths y) r = (m, k)" by (cases "split_month 1 (month_lengths y) r")
    have "r < sum_list (month_lengths y)" using r by (simp add: year_end)
    then have "r = sum_list (take (nat (m - 1)) (month_lengths y)) + k - 1"
      using split_month_sum [OF r(1) _ mk] by simp
    moreover have "days_of_ymd (ymd_of_days n) = 365 * (y - 1) + (y - 1) div 4 - (y - 1) div 100 + (y - 1) div 400
        + sum_list (take (nat (m - 1)) (month_lengths y)) + k - 1 - 719162"
      using False by (simp only: ymd mk days_of_ymd_def if_False prod.case)
    ultimately show ?thesis using n years by linarith
  next
    case True
    have day: "365 * (y - 2) + (y - 2) div 4 - (y - 2) div 100 + (y - 2) div 400 + 365 = ?n \<and> is_leap (y - 1)"
    proof (cases "b = 4")
      case b: True
      have e: "y - 2 = 400 * a + 100 * 3 + 4 * 24 + 3" "y - 1 = 400 * a + 100 * 3 + 4 * 24 + 3 + 1"
        using parts b by (simp_all add: y_def)
      show ?thesis using years_before [OF _ _ _ _ _ _ e(1)] leap_years [OF _ _ _ _ _ _ e(2)] parts b by simp
    next
      case False
      then have b: "0 \<le> b" "b \<le> 3" and d: "d = 4" "r = 0" and c: "0 \<le> c" "c < 24" using parts True by auto
      have e: "y - 2 = 400 * a + 100 * b + 4 * c + 3" "y - 1 = 400 * a + 100 * b + 4 * c + 3 + 1"
        using d by (simp_all add: y_def)
      show ?thesis using years_before [OF b _ _ _ _ e(1)] leap_years [OF b _ _ _ _ e(2)] parts b c d by simp
    qed
    have "days_of_ymd (y - 1, 12, 31) = 365 * (y - 2) + (y - 2) div 4 - (y - 2) div 100 + (y - 2) div 400
        + sum_list (take 11 (month_lengths (y - 1))) + 30 - 719162"
      by (simp add: days_of_ymd_def)
    moreover have "sum_list (take 11 (month_lengths (y - 1))) = 335" using day year_end(1) by blast
    ultimately show ?thesis using True day by (simp only: ymd if_True) linarith
  qed
qed

end
