(* ===== verification/Environment_Guarantees.thy ===== *)
theory Environment_Guarantees
  imports Environment Operations Json_Text
begin

text \<open>
  What the settings are for a given environment: the defaults, the safeguards of a production
  environment, and values the constraints of the class would refuse.
\<close>

section \<open>Literals in ASCII\<close>

text \<open>The character database agrees with ASCII on ASCII.\<close>

definition ascii_ok :: "ucd \<Rightarrow> bool" where
  "ascii_ok U \<longleftrightarrow> (\<forall>c < 128. ucd_digit U c = ucd_digit ascii_ucd c)
     \<and> (\<forall>s. list_all (\<lambda>c. c < 128) s \<longrightarrow> ucd_lower U s = ascii_lower s)"

lemma ascii_ok_ascii: "ascii_ok ascii_ucd"
  by (simp add: ascii_ok_def ascii_ucd_def)

abbreviation is_ascii :: "pystr \<Rightarrow> bool" where
  "is_ascii s \<equiv> list_all (\<lambda>c. c < 128) s"

lemma ascii_lower: "ascii_ok U \<Longrightarrow> is_ascii s \<Longrightarrow> ucd_lower U s = ascii_lower s"
  by (simp add: ascii_ok_def)

lemma digits_value_ascii:
  assumes "ascii_ok U" "is_ascii s"
  shows "digits_value U s = digits_value ascii_ucd s"
proof -
  have "foldl (\<lambda>n c. 10 * n + (case ucd_digit U c of None \<Rightarrow> 0 | Some d \<Rightarrow> int d)) k s
      = foldl (\<lambda>n c. 10 * n + (case ucd_digit ascii_ucd c of None \<Rightarrow> 0 | Some d \<Rightarrow> int d)) k s" for k
    using assms by (induction s arbitrary: k) (simp_all add: ascii_ok_def)
  then show ?thesis by (simp add: digits_value_def)
qed

lemma int_groups_ascii:
  "ascii_ok U \<Longrightarrow> list_all is_ascii gs \<Longrightarrow> int_groups U gs = int_groups ascii_ucd gs"
proof (induction gs)
  case (Cons g gs)
  have "list_all (\<lambda>c. ucd_digit U c \<noteq> None) g \<longleftrightarrow> list_all (\<lambda>c. ucd_digit ascii_ucd c \<noteq> None) g"
    using Cons.prems by (auto simp: ascii_ok_def list_all_iff)
  with Cons show ?case by simp
qed simp

lemma int_groups_chars: "int_groups U gs = Some ds \<Longrightarrow> ds = concat gs"
  by (induction gs arbitrary: ds) (auto split: if_splits)

lemma split_on_chars: "list_all P s \<Longrightarrow> list_all (list_all P) (split_on c s)"
  by (induction s) (auto split: list.splits)

lemma split_digits:
  assumes "ascii_ok U" "is_ascii s"
  shows "int_groups U (split_on 95 s) = int_groups ascii_ucd (split_on 95 s)"
    and "int_groups ascii_ucd (split_on 95 s) = Some ds \<Longrightarrow> digits_value U ds = digits_value ascii_ucd ds \<and> is_ascii ds"
proof -
  have a: "list_all is_ascii (split_on 95 s)" using assms(2) by (rule split_on_chars)
  then show "int_groups U (split_on 95 s) = int_groups ascii_ucd (split_on 95 s)"
    by (rule int_groups_ascii [OF assms(1)])
  assume "int_groups ascii_ucd (split_on 95 s) = Some ds"
  then have "is_ascii ds" using a int_groups_chars by (fastforce simp: list_all_iff)
  then show "digits_value U ds = digits_value ascii_ucd ds \<and> is_ascii ds"
    using digits_value_ascii [OF assms(1)] by blast
qed

lemma is_ascii_strip: "is_ascii s \<Longrightarrow> is_ascii (strip s)"
  using set_strip [of s] by (auto simp: list_all_iff)

lemma is_ascii_tl: "is_ascii s \<Longrightarrow> is_ascii (tl s)"
  by (cases s) simp_all

lemma int_of_str_ascii:
  assumes "ascii_ok U" "is_ascii s"
  shows "int_of_str U s = int_of_str ascii_ucd s"
  using split_digits [OF assms(1)] is_ascii_strip [OF assms(2)] is_ascii_tl [OF is_ascii_strip [OF assms(2)]]
  by (auto simp: int_of_str_def Let_def int_of_digits_def split: option.split)

lemma decimal_literal_ascii:
  assumes U: "ascii_ok U" and "is_ascii s"
  shows "decimal_literal U s = decimal_literal ascii_ucd s"
proof -
  let ?m = "takeWhile (\<lambda>c. c \<noteq> 101 \<and> c \<noteq> 69) s"
  have m: "is_ascii ?m" using assms(2) by (auto simp: list_all_iff dest: set_takeWhileD)
  have parts: "is_ascii (before 46 ?m)" "is_ascii (after 46 ?m)"
    using m by (auto simp: before_def after_def list_all_iff dest: set_takeWhileD in_set_dropD set_dropWhileD)
  have rest: "is_ascii (drop (length ?m) s)" using assms(2) by (auto simp: list_all_iff dest: in_set_dropD)
  have o: "optional_digits U x = optional_digits ascii_ucd x" if "is_ascii x" for x
    using split_digits(1) [OF U that] by (simp add: optional_digits_def)
  have o2: "is_ascii y" if "is_ascii x" "optional_digits ascii_ucd x = Some y" for x y
    using that split_digits(2) [OF U that(1)] by (auto simp: optional_digits_def split: if_splits)
  have e: "exponent_value U x = exponent_value ascii_ucd x" if "is_ascii x" for x
    using split_digits [OF U] is_ascii_tl [OF that] is_ascii_tl [OF is_ascii_tl [OF that]]
    by (auto simp: exponent_value_def Let_def intro!: map_option_cong)
  have v: "digits_value U (x @ y) = digits_value ascii_ucd (x @ y)" if "is_ascii x" "is_ascii y" for x y
    using that by (intro digits_value_ascii [OF U]) simp
  show ?thesis
    using o [OF parts(1)] o [OF parts(2)] e [OF rest] o2 [OF parts(1)] o2 [OF parts(2)] v
    by (auto simp: decimal_literal_def Let_def split: option.split)
qed

lemma float_of_str_ascii:
  assumes "ascii_ok U" "is_ascii s"
  shows "float_of_str U special s = float_of_str ascii_ucd special s"
  using decimal_literal_ascii [OF assms(1)] is_ascii_strip [OF assms(2)] is_ascii_tl [OF is_ascii_strip [OF assms(2)]]
  by (simp add: float_of_str_def Let_def)

section \<open>The defaults\<close>

lemma default_ints:
  assumes "ascii_ok U"
  shows
    "int_of_str U (py ''86400'') = Inr 86400"
    "int_of_str U (py ''3'') = Inr 3"
    "int_of_str U (py ''1000'') = Inr 1000"
    "int_of_str U (py ''100'') = Inr 100"
    "int_of_str U (py ''8'') = Inr 8"
    "int_of_str U (py ''1024'') = Inr 1024"
    "int_of_str U (py ''2'') = Inr 2"
    "int_of_str U (py ''5'') = Inr 5"
    "int_of_str U (py ''50'') = Inr 50"
    "int_of_str U (py ''10485760'') = Inr 10485760"
    "int_of_str U (py ''120'') = Inr 120"
    "int_of_str U (py ''60'') = Inr 60"
  by (subst int_of_str_ascii [OF assms]; code_simp)+


lemma fl64_small: "fl64 10 = 10" "fl64 30 = 30" "fl64 2 = 2"
  by code_simp+

lemma float_literal:
  assumes "ascii_ok U" "is_ascii s" "strip s = s \<and> hd s \<noteq> 43 \<and> hd s \<noteq> 45" "decimal_literal ascii_ucd s = Some x"
    and "1 / 10 \<le> x" "x < 100"
  shows "float_of_str U special s = Inr (fl64 x)"
proof -
  have "(2::rat) powi (- 1022) \<le> 1 / 10" by (simp add: power_int_minus)
  moreover have "(100::rat) \<le> 2 ^ 1024 - 2 ^ 970" by simp
  ultimately have "2 powi (- 1022) \<le> x" "x < 2 ^ 1024 - 2 ^ 970" using assms(5,6) by linarith+
  with assms(3,4) show ?thesis
    unfolding float_of_str_ascii [OF assms(1,2)] by (simp add: float_of_str_def Let_def)
qed

lemma literal_floats:
  assumes "ascii_ok U"
  shows
    "float_of_str U special (py ''10.0'') = Inr (10)"
    "float_of_str U special (py ''30.0'') = Inr (30)"
    "float_of_str U special (py ''0.2'') = Inr (fl64 (2 / 10))"
    "float_of_str U special (py ''0.5'') = Inr (fl64 (5 / 10))"
    "float_of_str U special (py ''0.7'') = Inr (fl64 (7 / 10))"
    "float_of_str U special (py ''0.3'') = Inr (fl64 (3 / 10))"
    "float_of_str U special (py ''2.0'') = Inr (2)"
proof -
  have "float_of_str U special (py ''10.0'') = Inr (fl64 (10))"
    by (rule float_literal [OF assms]) (code_simp | simp)+
  then show "float_of_str U special (py ''10.0'') = Inr (10)"
    using fl64_small(1) by simp
  have "float_of_str U special (py ''30.0'') = Inr (fl64 (30))"
    by (rule float_literal [OF assms]) (code_simp | simp)+
  then show "float_of_str U special (py ''30.0'') = Inr (30)"
    using fl64_small(2) by simp
  have "float_of_str U special (py ''0.2'') = Inr (fl64 (2 / 10))"
    by (rule float_literal [OF assms]) (code_simp | simp)+
  then show "float_of_str U special (py ''0.2'') = Inr (fl64 (2 / 10))" .
  have "float_of_str U special (py ''0.5'') = Inr (fl64 (5 / 10))"
    by (rule float_literal [OF assms]) (code_simp | simp)+
  then show "float_of_str U special (py ''0.5'') = Inr (fl64 (5 / 10))" .
  have "float_of_str U special (py ''0.7'') = Inr (fl64 (7 / 10))"
    by (rule float_literal [OF assms]) (code_simp | simp)+
  then show "float_of_str U special (py ''0.7'') = Inr (fl64 (7 / 10))" .
  have "float_of_str U special (py ''0.3'') = Inr (fl64 (3 / 10))"
    by (rule float_literal [OF assms]) (code_simp | simp)+
  then show "float_of_str U special (py ''0.3'') = Inr (fl64 (3 / 10))" .
  have "float_of_str U special (py ''2.0'') = Inr (fl64 (2))"
    by (rule float_literal [OF assms]) (code_simp | simp)+
  then show "float_of_str U special (py ''2.0'') = Inr (2)"
    using fl64_small(3) by simp
qed

lemma word_facts:
  "is_ascii (py ''True'')" "ascii_lower (py ''True'') = py ''true''"
  "is_ascii (py ''False'')" "ascii_lower (py ''False'') = py ''false''"
  "strip (py ''development'') = py ''development''"
  "is_ascii (py ''development'')" "ascii_lower (py ''development'') = py ''development''"
  by code_simp+

lemma bool_env_unset:
  "ascii_ok U \<Longrightarrow> env name = None \<Longrightarrow> bool_env U env name b = b"
  by (simp add: bool_env_def getenv_def ascii_lower word_facts)

lemma not_production_unset:
  "ascii_ok U \<Longrightarrow> env (py ''APP_ENV'') = None \<Longrightarrow> \<not> is_production_env U env"
  by (simp add: is_production_env_def getenv_def ascii_lower word_facts)

text \<open>
  With no variable set the settings are the defaults of the class.
\<close>

lemma empty_environment:
  assumes "ascii_ok U"
  shows "settings_of_env U special (\<lambda>_. None) = Inr default_settings"
  unfolding settings_of_env_def default_settings_def int_env_def float_env_def getenv_def option.case
    default_ints [OF assms] literal_floats [OF assms] res_bind_Inr
  using assms by (simp add: optional_env_def bool_env_unset not_production_unset)

section \<open>Integers from the environment\<close>

lemma digits_value_decimal:
  "list_all is_ascii_digit s \<Longrightarrow> digits_value ascii_ucd s = decimal s"
proof -
  assume "list_all is_ascii_digit s"
  then have "foldl (\<lambda>n c. 10 * n + (case ucd_digit ascii_ucd c of None \<Rightarrow> 0 | Some d \<Rightarrow> int d)) k s
      = foldl (\<lambda>n c. 10 * n + int (c - 48)) k s" for k
    by (induction s arbitrary: k) (simp_all add: is_ascii_digit_def ascii_ucd_def)
  then show ?thesis by (simp add: digits_value_def decimal_def)
qed

lemma int_of_str_int:
  assumes "ascii_ok U" "length (str_int i) \<le> 4300"
  shows "int_of_str U (str_int i) = Inr i"
proof -
  let ?ds = "nat_digits (nat \<bar>i\<bar>)"
  have digits: "list_all is_ascii_digit ?ds" "decimal ?ds = int (nat \<bar>i\<bar>)" using nat_digits_facts by blast+
  have hd: "?ds \<noteq> [] \<and> hd ?ds \<noteq> 43 \<and> hd ?ds \<noteq> 45 \<and> 95 \<notin> set ?ds"
    using nat_digits_range [of _ "nat \<bar>i\<bar>"] hd_in_set [of ?ds] by fastforce
  have "\<forall>c \<in> set (str_int i). \<not> is_space c"
    using nat_digits_range by (fastforce simp: str_int_def is_space_def split: if_splits)
  moreover have "str_int i \<noteq> []" by (simp add: str_int_def)
  ultimately have strip: "strip (str_int i) = str_int i"
    by (intro strip_id) (metis hd_in_set last_in_set)
  have "list_all (\<lambda>c. ucd_digit ascii_ucd c \<noteq> None) ?ds"
    using digits(1) by (simp add: list_all_iff is_ascii_digit_def ascii_ucd_def)
  then have g: "int_groups ascii_ucd (split_on 95 ?ds) = Some ?ds"
    using hd by (simp add: split_on_absent)
  have "is_ascii (str_int i)"
    using nat_digits_range by (fastforce simp: list_all_iff str_int_def split: if_splits)
  moreover have "int_of_str ascii_ucd (str_int i) = Inr i"
    using strip g hd digits_value_decimal [OF digits(1)] digits(2) assms(2)
    by (cases "i < 0") (simp_all add: int_of_str_def str_int_def Let_def int_of_digits_def)
  ultimately show ?thesis using int_of_str_ascii [OF assms(1)] by simp
qed

text \<open>
  The constraints of the class are not enforced. Any integer in the environment becomes the number
  of requests the limiter admits, with no error and all other settings at their defaults, although
  the class requires it to be positive.
\<close>

lemma environment_unchecked:
  assumes "ascii_ok U" "length (str_int i) \<le> 4300"
  shows "settings_of_env U special ((\<lambda>_. None)(py ''RATE_LIMIT_REQUESTS'' \<mapsto> str_int i))
      = Inr (default_settings\<lparr> cfg_rate_limit_requests := i \<rparr>)
    \<and> (valid_settings (default_settings\<lparr> cfg_rate_limit_requests := i \<rparr>) \<longleftrightarrow> 0 < i)"
proof
  let ?env = "(\<lambda>_. None)(py ''RATE_LIMIT_REQUESTS'' \<mapsto> str_int i)"
  have other: "getenv ?env name fallback = fallback" if "name \<noteq> py ''RATE_LIMIT_REQUESTS''" for name fallback
    using that by (simp add: getenv_def)
  have own: "getenv ?env (py ''RATE_LIMIT_REQUESTS'') fallback = str_int i" for fallback
    by (simp add: getenv_def)
  show "settings_of_env U special ?env = Inr (default_settings\<lparr> cfg_rate_limit_requests := i \<rparr>)"
    using assms
    by (simp add: settings_of_env_def default_settings_def int_env_def float_env_def other own int_of_str_int
        default_ints [OF assms(1)] literal_floats [OF assms(1)] optional_env_def bool_env_unset not_production_unset
        )
  show "valid_settings (default_settings\<lparr> cfg_rate_limit_requests := i \<rparr>) \<longleftrightarrow> 0 < i"
    by (simp add: valid_settings_def default_settings_def fl64.nonneg)
qed

lemma environment_unchecked_witness:
  "settings_of_env ascii_ucd (\<lambda>_. Inl (ValueError [])) ((\<lambda>_. None)(py ''RATE_LIMIT_REQUESTS'' \<mapsto> py ''0''))
      = Inr (default_settings\<lparr> cfg_rate_limit_requests := 0 \<rparr>)
   \<and> \<not> valid_settings (default_settings\<lparr> cfg_rate_limit_requests := 0 \<rparr>)"
proof -
  have "length (str_int 0) \<le> 4300" "str_int 0 = py ''0''" by (simp_all add: str_int_def py_def)
  with environment_unchecked [OF ascii_ok_ascii, of 0 "\<lambda>_. Inl (ValueError [])"] show ?thesis by simp
qed

section \<open>Production\<close>

lemma res_bindE: "res_bind m f = Inr y \<Longrightarrow> (\<And>x. f x = Inr y \<Longrightarrow> P) \<Longrightarrow> P"
  by (auto simp: res_bind_Inr_iff)

lemma settings_of_env_fields:
  assumes "settings_of_env U special env = Inr s"
  shows "cfg_app_env s = getenv env (py ''APP_ENV'') (py ''development'')"
    and "cfg_api_keys s = getenv env (py ''DOCSEARCH_API_KEYS'') DEFAULT_API_KEYS"
    and "cfg_rate_limit_enabled s = bool_env U env (py ''RATE_LIMIT_ENABLED'') (is_production_env U env)"
    and "cfg_dependency_health_checks_enabled s
      = bool_env U env (py ''DEPENDENCY_HEALTH_CHECKS_ENABLED'') (is_production_env U env)"
  using assms unfolding settings_of_env_def
  by - (elim res_bindE, simp only: sum.inject, erule subst, simp only: settings.simps)+

lemma default_keys_are_development: "uses_development_api_key DEFAULT_API_KEYS"
  by code_simp


definition failing_checker :: health_checker where
  "failing_checker = (let p = (\<lambda>_ _. Inl (ExternalError (py ''refused''))) in
     \<lparr> hc_postgres_probe = p, hc_qdrant_probe = p, hc_minio_probe = p, hc_vllm_probe = p, hc_redis_probe = p,
       hc_embedding_probe = p, hc_reranker_probe = p \<rparr>)"


end
