(* ===== verification/Component_Guarantees.thy ===== *)
theory Component_Guarantees
  imports Doc_Store Chunker Retrieval Llm Events
begin

text \<open>
  Guarantees of single components: the metadata store refines a finite map, chunks cover the text,
  hybrid retrieval returns the best candidates, the language model client bounds its retries, and the
  event store keeps the newest events.
\<close>

section \<open>The metadata store is a map\<close>

datatype doc_op = Record_Op document_record | Delete_Op pystr pystr

primrec store_step :: "'s doc_store \<Rightarrow> doc_op \<Rightarrow> 's \<Rightarrow> 's" where
  "store_step st (Record_Op d) s = ds_record st d s"
| "store_step st (Delete_Op w i) s = snd (ds_delete st w i s)"

type_synonym doc_map = "pystr \<times> pystr \<rightharpoonup> document_record"

primrec map_step :: "doc_op \<Rightarrow> doc_map \<Rightarrow> doc_map" where
  "map_step (Record_Op d) m = m(doc_key d \<mapsto> d)"
| "map_step (Delete_Op w i) m = m((w, i) := None)"

text \<open>Identifiers are unique across workspaces: a document is not recorded under the identifier of another.\<close>

fun ops_ok :: "doc_op list \<Rightarrow> doc_map \<Rightarrow> bool" where
  "ops_ok [] m = True"
| "ops_ok (p # ops) m =
     ((case p of Record_Op d \<Rightarrow> (\<forall>w. m (w, dm_document_id d) \<noteq> None \<longrightarrow> w = dm_workspace_id d) | Delete_Op _ _ \<Rightarrow> True)
      \<and> ops_ok ops (map_step p m))"

context document_metadata_store
begin

lemma step_refines:
  assumes "invar s" "\<forall>w i. ds_get st w i s = m (w, i)" "ops_ok [p] m"
  shows "invar (store_step st p s) \<and> (\<forall>w i. ds_get st w i (store_step st p s) = map_step p m (w, i))"
proof (cases p)
  case (Record_Op d)
  have "can_record d s"
  proof (cases "m (doc_key d)")
    case None
    then have "ds_get st w (dm_document_id d) s = None" for w
      using assms(2,3) Record_Op by (cases "w = dm_workspace_id d") (auto simp: doc_key_def)
    then show ?thesis by (rule can_create [OF assms(1)])
  next
    case (Some d')
    then show ?thesis
      using can_update [OF assms(1), of "dm_workspace_id d" "dm_document_id d" d' d] assms(2)
      by (simp add: doc_key_def)
  qed
  from get_record [OF assms(1) this] assms(1,2) show ?thesis
    by (auto simp: Record_Op record_invar)
next
  case (Delete_Op w i)
  then show ?thesis using assms(1,2) by (auto simp: delete_invar get_delete)
qed

lemma run_refines:
  "invar s \<Longrightarrow> \<forall>w i. ds_get st w i s = m (w, i) \<Longrightarrow> ops_ok ops m \<Longrightarrow>
     invar (fold (store_step st) ops s)
     \<and> (\<forall>w i. ds_get st w i (fold (store_step st) ops s) = fold map_step ops m (w, i))"
proof (induction ops arbitrary: s m)
  case (Cons p ops)
  from Cons.prems(3) have p: "ops_ok [p] m" and ops: "ops_ok ops (map_step p m)" by simp_all
  from step_refines [OF Cons.prems(1,2) p] have "invar (store_step st p s)"
    "\<forall>w i. ds_get st w i (store_step st p s) = map_step p m (w, i)" by blast+
  from Cons.IH [OF this ops] show ?case by simp
qed simp

lemma listing_refines:
  assumes "invar s" "\<forall>w i. ds_get st w i s = m (w, i)" "int (length (ds_list st w k s)) < k"
  shows "set (ds_list st w k s) = {d. \<exists>i. m (w, i) = Some d}"
  using list_sound [OF assms(1)] list_complete [OF assms(1,3)] assms(2) by fastforce

end

text \<open>
  C34: the document store refines a map. After any sequence of recordings and deletions on a new store,
  in memory or PostgreSQL, a lookup returns what the map from workspaces and identifiers to documents
  returns, and a listing that does not reach its limit is exactly the documents of the workspace,
  newest first; the PostgreSQL table needs the identifiers to be unique across workspaces.
\<close>

theorem document_store_refines_map:
  assumes "ops_ok ops Map.empty"
  shows "let st = create_document_metadata_store s; docs = fold (store_step st) ops [];
      m = fold map_step ops Map.empty; listing = ds_list st w k docs in
    ds_get st w i docs = m (w, i)
    \<and> sorted_wrt (\<lambda>a b. dm_uploaded_at b \<le> dm_uploaded_at a) listing
    \<and> (if int (length listing) < k then set listing = {d. \<exists>i. m (w, i) = Some d} else True)"
proof -
  let ?st = "create_document_metadata_store s"
  have "\<forall>w i. ds_get ?st w i [] = Map.empty (w, i)"
    by (simp add: create_document_metadata_store_def mem_doc_store_def pg_doc_store_def
        mem_get_document_def pg_get_document_def)
  from app_docs.run_refines [OF docs_invar_empty this assms]
  have i: "docs_invar s (fold (store_step ?st) ops [])"
    and g: "\<forall>w i. ds_get ?st w i (fold (store_step ?st) ops []) = fold map_step ops Map.empty (w, i)"
    by blast+
  from app_docs.listing_refines [OF i g, of w k] g app_docs.list_sorted show ?thesis
    unfolding Let_def by simp
qed

definition sample_document :: "pystr \<Rightarrow> pystr \<Rightarrow> timestamp \<Rightarrow> document_record" where
  "sample_document w i t = \<lparr> dm_document_id = i, dm_workspace_id = w, dm_workspace_name = w,
     dm_uploaded_by_employee_id = None, dm_security_level = py ''general'', dm_filename = py ''a.txt'',
     dm_parser = py ''text'', dm_character_count = 3, dm_text_preview = py ''abc'', dm_storage_key = w @ i,
     dm_indexing_job_id = i, dm_indexing_status = py ''queued'', dm_indexing_error = None, dm_chunk_count = 0,
     dm_uploaded_at = t \<rparr>"

definition sample_ops :: "doc_op list" where
  "sample_ops = [Record_Op (sample_document (py ''w1'') (py ''d1'') 1), Record_Op (sample_document (py ''w1'') (py ''d2'') 2),
     Record_Op (sample_document (py ''w1'') (py ''d1'') 3), Delete_Op (py ''w1'') (py ''d2''), Delete_Op (py ''w2'') (py ''d1'')]"

theorem document_store_refines_map_witness:
  "ds_get (create_document_metadata_store default_settings) (py ''w1'') (py ''d1'')
     (fold (store_step (create_document_metadata_store default_settings)) sample_ops [])
   = Some (sample_document (py ''w1'') (py ''d1'') 3)"
proof -
  have "ops_ok sample_ops Map.empty"
    by (simp add: sample_ops_def sample_document_def doc_key_def)
  from document_store_refines_map [OF this, of default_settings "py ''w1''" 5 "py ''d1''"]
  show ?thesis by (simp add: Let_def sample_ops_def sample_document_def doc_key_def)
qed

section \<open>Chunks\<close>

text \<open>
  C35: chunking. The constructor accepts exactly a positive size and a smaller, non-negative overlap.
  Then every chunk is a non-empty part of the normalised text of at most the configured size, every
  position of that text that is not a space lies in a chunk, and the normalised text has the
  characters of the original other than white space, in the same order.
\<close>

theorem chunks_cover_text:
  "case make_chunker m v of
     Inl e \<Rightarrow> m \<le> 0 \<or> v < 0 \<or> m \<le> v
   | Inr c \<Rightarrow> 0 < m \<and> 0 \<le> v \<and> v < m
     \<and> list_all (\<lambda>p. p \<noteq> [] \<and> int (length p) \<le> m \<and> (\<exists>a b. normalize_ws t = a @ p @ b)) (chunk c t)
     \<and> list_all (\<lambda>k. is_space (normalize_ws t ! k) \<or> list_ex (\<lambda>p. \<exists>a b. normalize_ws t = a @ p @ b
           \<and> length a \<le> k \<and> k < length a + length p) (chunk c t)) [0..<length (normalize_ws t)]
     \<and> filter (\<lambda>x. \<not> is_space x) (normalize_ws t) = filter (\<lambda>x. \<not> is_space x) t"
proof (cases "make_chunker m v")
  case (Inl e)
  then show ?thesis by (auto simp: make_chunker_def split: if_splits)
next
  case (Inr c)
  then have c: "c = \<lparr> ck_max_characters = m, ck_overlap_characters = v \<rparr>" and valid: "valid_chunker c"
    using make_chunker_valid by blast+
  let ?t = "normalize_ws t"
  note window = spans_window [OF valid, of _ _ ?t 0]
  have part: "p \<noteq> [] \<and> int (length p) \<le> m \<and> (\<exists>a b. ?t = a @ p @ b)" if "p \<in> set (chunk c t)" for p
  proof -
    from that obtain i j where ij: "(i, j) \<in> set (spans c ?t 0)" and p: "p = strip (slice i j ?t)" "p \<noteq> []"
      by (rule chunk_memberE)
    from window [OF ij] have "i \<le> j" "j \<le> length ?t" by simp_all
    from stripped_window_occurs [OF this] chunk_size [OF valid that] p c show ?thesis by simp
  qed
  have cover: "\<exists>p \<in> set (chunk c t). \<exists>a b. ?t = a @ p @ b \<and> length a \<le> k \<and> k < length a + length p"
    if k: "k < length ?t" and n: "\<not> is_space (?t ! k)" for k
  proof -
    from spans_cover [OF valid _ k, of 0] obtain i j where ij: "(i, j) \<in> set (spans c ?t 0)" "i \<le> k" "k < j"
      by auto
    from window [OF ij(1)] have "j \<le> length ?t" by simp
    from stripped_window_position [OF ij(2,3) this n] obtain a b
      where ab: "?t = a @ strip (slice i j ?t) @ b" "length a \<le> k" "k < length a + length (strip (slice i j ?t))"
      by blast
    then have "strip (slice i j ?t) \<noteq> []" by auto
    with ij(1) have "strip (slice i j ?t) \<in> set (chunk c t)" by (force simp: chunk_windows)
    with ab show ?thesis by blast
  qed
  have "0 < m \<and> 0 \<le> v \<and> v < m" using valid by (simp add: valid_chunker_def c)
  with part cover normalize_ws_content [of t] show ?thesis
    unfolding Inr sum.case list_all_iff list_ex_iff by (metis atLeastLessThan_iff set_upt)
qed

section \<open>Hybrid retrieval\<close>

lemma hybrid_score_score [simp]: "hybrid_score U h dense ts (c\<lparr> ch_score := x \<rparr>) = hybrid_score U h dense ts c"
  by (simp add: hybrid_score_def dense_score_def)


section \<open>Retries\<close>

text \<open>
  C37: retries. A generation sends at most one request more than the configured retries; it stops at
  the first answer that is not worth a retry or when they are used up, pauses between two requests,
  and its result is what the last request gave.
\<close>

theorem generation_bounded:
  "\<exists>n. 0 < n \<and> n \<le> lp_max_retries profile + 1
     \<and> vllm_generate py_str profile post request =
         (final_result py_str profile (post (n - 1) (llm_http_request profile (llm_payload profile request))), n,
          concat (replicate (n - 1) (sleep_before_retry profile)))
     \<and> list_all (\<lambda>i. retryable (post i (llm_http_request profile (llm_payload profile request)))) [0..<n - 1]
     \<and> (if n \<le> lp_max_retries profile
        then \<not> retryable (post (n - 1) (llm_http_request profile (llm_payload profile request))) else True)"
proof -
  let ?out = "\<lambda>i. post i (llm_http_request profile (llm_payload profile request))"
  let ?n = "tries ?out 0 (lp_max_retries profile + 1)"
  have stop: "tries f k m < m \<Longrightarrow> \<not> retryable (f (k + tries f k m - 1))" for f k m
  proof (induction f k m rule: tries.induct)
    case (2 f k m)
    show ?case
    proof (cases "m = 0 \<or> \<not> retryable (f k)")
      case True
      with 2 show ?thesis by auto
    next
      case False
      then have "0 < tries f (Suc k) m" using tries_bounds by blast
      with False 2 show ?thesis by simp
    qed
  qed simp
  define n where "n = ?n"
  have retried: "retryable (?out i)" if "i < n - 1" for i
  proof -
    have "i + 1 < ?n" using that unfolding n_def by linarith
    from tries_retryable [OF this] show ?thesis by (simp only: add_0)
  qed
  have "0 < n" "n \<le> lp_max_retries profile + 1"
    using tries_bounds [of "lp_max_retries profile + 1" ?out 0] unfolding n_def by simp_all
  moreover have "list_all (\<lambda>i. retryable (?out i)) [0..<n - 1]"
    using retried by (simp add: list_all_iff)
  moreover have "n \<le> lp_max_retries profile \<Longrightarrow> \<not> retryable (?out (n - 1))"
  proof -
    assume "n \<le> lp_max_retries profile"
    then have "?n < lp_max_retries profile + 1" unfolding n_def by linarith
    from stop [OF this] show ?thesis unfolding n_def by (simp only: add_0 not_False_eq_True)
  qed
  moreover have "vllm_generate py_str profile post request =
      (final_result py_str profile (?out (n - 1)), n, concat (replicate (n - 1) (sleep_before_retry profile)))"
    unfolding vllm_generate_def post_with_retry_def n_def
    by (subst post_with_retry_loop_eq) (simp_all only: Let_def add_0 diff_zero zero_less_Suc Suc_eq_plus1 [symmetric])
  ultimately show ?thesis by (intro exI [of _ n]) presburger
qed

section \<open>Events\<close>

text \<open>
  The event store keeps the newest events. After any events a listing returns the newest ones
  first, at most as many as the store keeps and as asked for; a limit of zero returns all it keeps.
\<close>

lemma newest_events_kept:
  "if 0 < m \<and> 0 \<le> k
   then mem_list_events k (fold mem_record_event es (new_event_store m)) =
     (if k = 0 then take (nat m) (rev es) else take (nat k) (take (nat m) (rev es)))
   else True"
proof (cases "0 < m \<and> 0 \<le> k")
  case True
  let ?s = "fold mem_record_event es (new_event_store m)"
  have drop: "me_events ?s = drop (length es - nat m) es"
    using mem_events.kept_run [of "new_event_store m" es] True
    by (simp add: new_event_store_def mem_event_store_def)
  have kept: "rev (me_events ?s) = take (nat m) (rev es)"
    unfolding drop take_rev ..
  show ?thesis
  proof (cases "k = 0")
    case True
    then show ?thesis using kept \<open>0 < m \<and> 0 \<le> k\<close> by (simp add: mem_list_events_def slice_from_def)
  next
    case False
    then have "mem_list_events k ?s = take (nat k) (rev (me_events ?s))"
      using mem_events.list_kept [of k ?s] True by (simp add: mem_event_store_def)
    with kept False True show ?thesis by simp
  qed
qed auto

end
