(* ===== verification/Dev_Stub.thy ===== *)
theory Dev_Stub
  imports Chat Embedding Environment
begin

text \<open>
  \<open>dev/ai_stub.py\<close>: the server that stands in for the language model and the embedding model during
  local development. A handler takes the decoded request; SHA-256 and the environment are arguments.
  The lemmas connect it to the clients: the embedding client reads its vectors, which are those of the
  deterministic embedder, and the language model client reads its answer.
\<close>

section \<open>Models and chat completions\<close>

definition stub_llm_model :: "environment \<Rightarrow> pystr" where
  "stub_llm_model env = getenv env (py ''AI_STUB_LLM_MODEL'') (py ''local-dev-llm'')"

definition stub_embedding_model :: "environment \<Rightarrow> pystr" where
  "stub_embedding_model env = getenv env (py ''AI_STUB_EMBEDDING_MODEL'') (py ''local-dev-embedding'')"

definition list_models :: "environment \<Rightarrow> json" where
  "list_models env = JObj [(py ''data'', JList
     [JObj [(py ''id'', JStr (stub_llm_model env)), (py ''object'', JStr (py ''model''))],
      JObj [(py ''id'', JStr (stub_embedding_model env)), (py ''object'', JStr (py ''model''))]])]"

text \<open>A message is its role and its content.\<close>

definition last_user_message :: "(pystr \<times> pystr) list \<Rightarrow> pystr" where
  "last_user_message messages =
     (case find (\<lambda>(role, content). role = py ''user'') (rev messages) of
        None \<Rightarrow> [] | Some (role, content) \<Rightarrow> content)"

text \<open>\<open>s.split(sep, 1)[0]\<close>: the text before the first occurrence of \<open>sep\<close>.\<close>

fun split_first :: "pystr \<Rightarrow> pystr \<Rightarrow> pystr" where
  "split_first sep [] = []"
| "split_first sep (c # s) = (if startswith sep (c # s) then [] else c # split_first sep s)"

definition extract_question :: "pystr \<Rightarrow> pystr" where
  "extract_question content =
     (let prefix = QUESTION_LABEL @ [10] in
      if \<not> startswith prefix content then content
      else strip (split_first ([10, 10] @ CONTEXT_LABEL) (drop (length prefix) content)))"

definition STUB_ANSWER :: pystr where
  "STUB_ANSWER =
     [47196, 52972, 32, 44060, 48156, 50857, 32, 65, 73, 32, 115, 116, 117, 98, 32, 51025, 45813,
      51077, 45768, 45796, 46, 32, 49892, 51228, 32, 47784, 45944, 32, 54408, 51656, 32, 44160,
      51613, 51060, 32, 50500, 45768, 46972, 32, 45432, 53944, 48513, 32, 53685, 54633, 32,
      53580, 49828, 53944, 50857, 32, 51025, 45813, 51077, 45768, 45796, 46, 32, 51656, 47928,
      58, 32]"

definition create_chat_completion :: "pystr \<Rightarrow> (pystr \<times> pystr) list \<Rightarrow> json" where
  "create_chat_completion model messages =
     (let question = extract_question (last_user_message messages);
          content = STUB_ANSWER @ question @ py '' [1]'';
          prompt_tokens = int (length (split_ws question));
          completion_tokens = int (length (split_ws content))
      in JObj [(py ''id'', JStr (py ''chatcmpl-local-stub'')),
           (py ''object'', JStr (py ''chat.completion'')),
           (py ''model'', JStr model),
           (py ''choices'', JList [JObj
              [(py ''index'', JInt 0),
               (py ''message'', JObj [(py ''role'', JStr (py ''assistant'')), (py ''content'', JStr content)]),
               (py ''finish_reason'', JStr (py ''stop''))]]),
           (py ''usage'', JObj
              [(py ''prompt_tokens'', JInt prompt_tokens),
               (py ''completion_tokens'', JInt completion_tokens),
               (py ''total_tokens'', JInt (prompt_tokens + completion_tokens))])])"

section \<open>Embeddings\<close>

text \<open>\<open>range(n)\<close> is empty for a negative \<open>n\<close>.\<close>

definition embedding_vector :: "ucd \<Rightarrow> environment \<Rightarrow> (bytes \<Rightarrow> bytes) \<Rightarrow> pystr \<Rightarrow> pyfloat list res" where
  "embedding_vector U env sha256 text =
     (case int_env U env (py ''AI_STUB_EMBEDDING_VECTOR_SIZE'') (py ''8'') of
        Inl e \<Rightarrow> Inl e
      | Inr vector_size \<Rightarrow>
          (case utf8_encode text of
             Inl e \<Rightarrow> Inl e
           | Inr encoded \<Rightarrow>
               (let digest = sha256 encoded in
                Inr (map (\<lambda>index. round6 (idiv (int (digest ! (index mod length digest))) 255)) [0..<nat vector_size]))))"

fun embedding_items :: "ucd \<Rightarrow> environment \<Rightarrow> (bytes \<Rightarrow> bytes) \<Rightarrow> nat \<Rightarrow> pystr list \<Rightarrow> json list res" where
  "embedding_items U env sha256 index [] = Inr []"
| "embedding_items U env sha256 index (text # texts) =
     (case embedding_vector U env sha256 text of
        Inl e \<Rightarrow> Inl e
      | Inr vector \<Rightarrow> (case embedding_items U env sha256 (Suc index) texts of
          Inl e \<Rightarrow> Inl e
        | Inr items \<Rightarrow> Inr (JObj [(py ''object'', JStr (py ''embedding'')), (py ''index'', JInt (int index)),
            (py ''embedding'', JList (map JFloat vector))] # items)))"

text \<open>The input is one text or a list of texts.\<close>

definition create_embedding ::
  "ucd \<Rightarrow> environment \<Rightarrow> (bytes \<Rightarrow> bytes) \<Rightarrow> pystr \<Rightarrow> pystr + pystr list \<Rightarrow> json res" where
  "create_embedding U env sha256 model input =
     (let inputs = (case input of Inl text \<Rightarrow> [text] | Inr texts \<Rightarrow> texts) in
      case embedding_items U env sha256 0 inputs of
        Inl e \<Rightarrow> Inl e
      | Inr items \<Rightarrow> Inr (JObj [(py ''object'', JStr (py ''list'')), (py ''model'', JStr model),
          (py ''data'', JList items)]))"

section \<open>The clients read the stub\<close>

lemma parse_vector_floats: "parse_vector (map JFloat v) = Inr v"
  by (induction v) simp_all

lemma parse_stub_answer:
  "\<exists>r. parse_llm_response py_str profile (create_chat_completion model messages) = Inr r
     \<and> lr_content r = STUB_ANSWER @ extract_question (last_user_message messages) @ py '' [1]''"
  by (simp add: parse_llm_response_def create_chat_completion_def jget_def Let_def STUB_ANSWER_def truthy_def)

text \<open>A vector of at most 32 numbers is the one of the deterministic embedder.\<close>

lemma embedding_vector_deterministic:
  assumes "sha256_ok sha256" "int_env U env (py ''AI_STUB_EMBEDDING_VECTOR_SIZE'') (py ''8'') = Inr n" "0 \<le> n" "n \<le> 32"
  shows "embedding_vector U env sha256 text =
    (case deterministic_embed_texts sha256 n [text] of Inl e \<Rightarrow> Inl e | Inr vs \<Rightarrow> Inr (hd vs))"
proof (cases "utf8_encode text")
  case (Inl e)
  then show ?thesis using assms by (simp add: embedding_vector_def)
next
  case (Inr encoded)
  let ?d = "sha256 encoded"
  have len: "length ?d = 32" using assms(1) by (simp add: sha256_ok_def)
  have "map (\<lambda>index. f (?d ! (index mod length ?d))) [0..<nat n] = map f (slice_to n ?d)" for f :: "nat \<Rightarrow> pyfloat"
    using assms(3,4) len by (intro nth_equalityI) (simp_all add: slice_to_def)
  then show ?thesis using assms Inr by (simp add: embedding_vector_def Let_def)
qed

lemma stub_items:
  assumes "sha256_ok sha256" "int_env U env (py ''AI_STUB_EMBEDDING_VECTOR_SIZE'') (py ''8'') = Inr n" "0 \<le> n" "n \<le> 32"
  shows "case deterministic_embed_texts sha256 n texts of
      Inl e \<Rightarrow> embedding_items U env sha256 i texts = Inl e
    | Inr vs \<Rightarrow> embedding_items U env sha256 i texts = Inr (map (\<lambda>(j, v). JObj [(py ''object'', JStr (py ''embedding'')),
        (py ''index'', JInt (int j)), (py ''embedding'', JList (map JFloat v))]) (enumerate i vs))"
proof (induction texts arbitrary: i)
  case (Cons t ts)
  from Cons.IH [of "Suc i"] show ?case
    by (auto simp: embedding_vector_deterministic [OF assms] Let_def split: sum.splits)
qed simp

lemma read_items:
  "\<forall>v \<in> set vs. int (length v) = n \<Longrightarrow>
   parse_embedding_loop (int (length pre + length vs)) n (map Some pre @ replicate (length vs) None)
     (map (\<lambda>(j, v). JObj [(py ''object'', JStr (py ''embedding'')), (py ''index'', JInt (int j)),
        (py ''embedding'', JList (map JFloat v))]) (enumerate (length pre) vs)) = Inr (map Some (pre @ vs))"
proof (induction vs arbitrary: pre)
  case (Cons v vs)
  have item: "parse_embedding_item (int (length pre + length (v # vs))) n (map Some pre @ replicate (length (v # vs)) None)
      (JObj [(py ''object'', JStr (py ''embedding'')), (py ''index'', JInt (int (length pre))),
        (py ''embedding'', JList (map JFloat v))]) = Inr (length pre, v)"
    using Cons.prems by (simp add: parse_embedding_item_def jget_def parse_vector_floats nth_append)
  have update: "(map Some pre @ replicate (length (v # vs)) None)[length pre := Some v]
      = map Some (pre @ [v]) @ replicate (length vs) None"
    by (simp add: list_update_append)
  show ?case
    using Cons.IH [of "pre @ [v]"] Cons.prems item update by simp
qed simp

text \<open>The embedding client reads the vectors of the deterministic embedder from the stub.\<close>

lemma stub_embeddings_read:
  assumes "sha256_ok sha256" "int_env U env (py ''AI_STUB_EMBEDDING_VECTOR_SIZE'') (py ''8'') = Inr n" "0 \<le> n" "n \<le> 32"
    and vs: "deterministic_embed_texts sha256 n texts = Inr vs"
  shows "\<exists>body. create_embedding U env sha256 model (Inr texts) = Inr body
    \<and> parse_embedding_response body (length texts) n = Inr vs"
proof -
  have len: "length vs = length texts" using deterministic_embed_result [OF vs] by blast
  have dims: "\<forall>v \<in> set vs. int (length v) = n"
  proof
    fix v
    assume "v \<in> set vs"
    then obtain x where "length v = length (slice_to n (sha256 x))"
      using deterministic_embed_result [OF vs] by blast
    moreover have "length (sha256 x) = 32" using assms(1) by (simp add: sha256_ok_def)
    ultimately show "int (length v) = n" using assms(3,4) by (simp add: slice_to_def)
  qed
  define items where "items = map (\<lambda>(j, v). JObj [(py ''object'', JStr (py ''embedding'')),
      (py ''index'', JInt (int j)), (py ''embedding'', JList (map JFloat v))]) (enumerate 0 vs)"
  have "embedding_items U env sha256 0 texts = Inr items"
    using stub_items [OF assms(1-4), of 0 texts] vs by (simp add: items_def)
  moreover have "parse_embedding_loop (int (length texts)) n (replicate (length texts) None) items = Inr (map Some vs)"
    using read_items [OF dims, of "[]"] len by (simp add: items_def)
  moreover have "length items = length texts" by (simp add: items_def len)
  ultimately show ?thesis
    by (auto simp: create_embedding_def parse_embedding_response_def jget_def comp_def)
qed

end
