(* ===== verification/System.thy ===== *)
theory System
  imports Documents_Guarantees
begin

text \<open>
  The running system: the API and the worker process acting on the shared object store, vector
  database, queue and, with PostgreSQL, metadata store. \<open>system_step\<close> has a rule per action; an upload takes two
  steps, since the worker of another process can run between the dispatch of the job and the record
  of the metadata. Opening the vector store creates its collection when it is missing, and every
  other part of the backend may record events. \<open>reachable\<close> are the states after any sequence of steps from an empty system.

  The ghost component \<open>sy_used\<close> holds the document identifiers handed out so far: \<open>uuid4\<close> does not
  repeat one.

  Lemmas: what the queue and the worker may do to the documents, the points and the queue
  (\<open>acts_for\<close>), and that every step keeps \<open>system_inv\<close>, by rule induction.
\<close>

section \<open>A deployment\<close>

record ('m, 'q, 'r) deployment =
  dp_settings :: settings
  dp_minio :: "'m minio"
  dp_redis :: "'r redis"
  dp_qdrant :: "'q qdrant"
  dp_collection :: vector_store
  dp_ucd :: ucd
  dp_guess_type :: "pystr \<Rightarrow> pystr option"
  dp_parsers :: registry
  dp_chunker :: chunker
  dp_embed :: "pystr list \<Rightarrow> pyfloat list list res"
  dp_uuid5 :: "pystr \<Rightarrow> pystr"

definition bucket_of :: "('m, 'q, 'r) deployment \<Rightarrow> pystr" where
  "bucket_of D = cfg_minio_bucket (dp_settings D)"

definition pipeline_of :: "('m, 'q, 'r) deployment \<Rightarrow> ('m, 'q) pipeline" where
  "pipeline_of D = make_pipeline (minio_storage (dp_minio D) (bucket_of D)) (dp_ucd D) (dp_parsers D)
     (dp_chunker D) (dp_embed D) (dp_qdrant D) (dp_uuid5 D) (dp_collection D)"

definition service_of ::
  "('m, 'q, 'r) deployment \<Rightarrow> ('m, 'q, document_record list, 'r, mem_events) document_service" where
  "service_of D = get_document_service (dp_settings D) (dp_minio D) (dp_redis D) (pipeline_of D)
     (dp_qdrant D) (dp_collection D)"

definition worker_of ::
  "('m, 'q, 'r) deployment \<Rightarrow> ('m, 'q, document_record list, 'r, mem_events) worker" where
  "worker_of D = create_indexing_worker (dp_settings D) (dp_redis D) (pipeline_of D)"

text \<open>
  A round of the worker process beside the API: \<open>_create_indexing_worker\<close> gives it an event store of its
  own, and unless the metadata is in PostgreSQL a metadata store of its own, in which nothing is ever
  recorded. The objects, the points and the queue are shared.
\<close>

definition worker_view ::
  "('m, 'q, 'r) deployment \<Rightarrow> mem_events \<Rightarrow> ('m, 'q, document_record list, 'r, mem_events) world
     \<Rightarrow> ('m, 'q, document_record list, 'r, mem_events) world" where
  "worker_view D own_events w = w\<lparr> w_events := own_events, w_documents :=
     (if cfg_document_metadata_backend (dp_settings D) = py ''postgres'' then w_documents w else []) \<rparr>"

definition worker_round ::
  "('m, 'q, 'r) deployment \<Rightarrow> mem_events \<Rightarrow> int \<Rightarrow> ('m, 'q, document_record list, 'r, mem_events) world
     \<Rightarrow> bool res \<times> ('m, 'q, document_record list, 'r, mem_events) world" where
  "worker_round D own_events t w =
     (case process_next (worker_of D) t (worker_view D own_events w) of
        (result, v) \<Rightarrow> (result, v\<lparr> w_events := w_events w, w_documents :=
          (if cfg_document_metadata_backend (dp_settings D) = py ''postgres'' then w_documents v else w_documents w) \<rparr>))"

text \<open>What the parameters are relied on for.\<close>

abbreviation text_ok :: "pystr \<Rightarrow> bool" where
  "text_ok \<equiv> list_all scalar_value"

definition content_types_ok :: "ucd \<Rightarrow> (pystr \<Rightarrow> pystr option) \<Rightarrow> bool" where
  "content_types_ok U g \<longleftrightarrow> (\<forall>ct f. text_ok ct \<longrightarrow> text_ok f \<longrightarrow>
     text_ok (normalize_content_type U g ct f) \<and> text_ok (guess_content_type g f))"

definition point_ids_distinct :: "(pystr \<Rightarrow> pystr) \<Rightarrow> bool" where
  "point_ids_distinct uuid5 \<longleftrightarrow> (\<forall>i n. distinct (document_point_ids uuid5 i n))"

definition deployment_ok :: "('m, 'q, 'r) deployment \<Rightarrow> bool" where
  "deployment_ok D \<longleftrightarrow> minio_ok (dp_minio D) \<and> redis_ok (dp_redis D) \<and> qdrant_writes_ok (dp_qdrant D)
     \<and> qdrant_create_ok (dp_qdrant D)
     \<and> content_types_ok (dp_ucd D) (dp_guess_type D) \<and> point_ids_distinct (dp_uuid5 D)
     \<and> 1 \<le> cfg_indexing_queue_max_attempts (dp_settings D)
     \<and> cfg_indexing_queue_max_attempts (dp_settings D) \<le> 10 ^ 100"

section \<open>States and steps\<close>

record ('m, 'q, 'r) system =
  sy_world :: "('m, 'q, document_record list, 'r, mem_events) world"
  sy_uploads :: "document_metadata list"
  sy_used :: "pystr set"

text \<open>The requests: texts of Unicode scalar values, identifiers of documents without a slash.\<close>

definition context_ok :: "workspace_context \<Rightarrow> bool" where
  "context_ok ctx \<longleftrightarrow> text_ok (wc_workspace_id ctx) \<and> text_ok (wc_workspace_name ctx)
     \<and> (case wc_employee_id ctx of None \<Rightarrow> True | Some e \<Rightarrow> text_ok e)"

definition ids_ok :: "upload_ids \<Rightarrow> bool" where
  "ids_ok ids \<longleftrightarrow> text_ok (up_document_id ids) \<and> text_ok (up_job_id ids) \<and> 47 \<notin> set (up_document_id ids)"

inductive system_step ::
  "('m, 'q, 'r) deployment \<Rightarrow> ('m, 'q, 'r) system \<Rightarrow> ('m, 'q, 'r) system \<Rightarrow> bool"
  for D :: "('m, 'q, 'r) deployment" where
  Upload_Dispatch:
    "context_ok ctx \<Longrightarrow> ids_ok ids \<Longrightarrow> up_document_id ids \<notin> sy_used y \<Longrightarrow> text_ok fn \<Longrightarrow> text_ok ct \<Longrightarrow>
     validate_document_security_level l = Inr level \<Longrightarrow>
     ensure_document_security_level_allowed (wc_role ctx) level = Inr () \<Longrightarrow>
     upload_dispatch (dp_ucd D) (dp_guess_type D) (service_of D) ids ctx fn ct data level (sy_world y)
       = (Inr response, w') \<Longrightarrow>
     system_step D y (y\<lparr> sy_world := w', sy_uploads := response # sy_uploads y,
       sy_used := insert (up_document_id ids) (sy_used y) \<rparr>)"
| Upload_Record:
    "response \<in> set (sy_uploads y) \<Longrightarrow>
     system_step D y (y\<lparr> sy_world := upload_record (service_of D) now response (sy_world y),
       sy_uploads := remove1 response (sy_uploads y) \<rparr>)"
| Delete:
    "delete_handler (service_of D) ctx i (sy_world y) = (result, w') \<Longrightarrow>
     system_step D y (y\<lparr> sy_world := w' \<rparr>)"
| Reindex:
    "context_ok ctx \<Longrightarrow> text_ok jid \<Longrightarrow>
     reindex_handler (dp_guess_type D) (service_of D) jid ctx i (sy_world y) = (result, w') \<Longrightarrow>
     system_step D y (y\<lparr> sy_world := w' \<rparr>)"
| Work:
    "cfg_indexing_queue_backend (dp_settings D) = py ''redis'' \<Longrightarrow>
     worker_round D own_events t (sy_world y) = (result, w') \<Longrightarrow>
     system_step D y (y\<lparr> sy_world := w' \<rparr>)"
| Open_Store:
    "system_step D y (y\<lparr> sy_world := (sy_world y)\<lparr> w_vectors :=
       ensure_collection (dp_qdrant D) (dp_collection D) (w_vectors (sy_world y)) \<rparr> \<rparr>)"
| Record_Events:
    "system_step D y (y\<lparr> sy_world := (sy_world y)\<lparr> w_events := events \<rparr> \<rparr>)"

definition points_of :: "('m, 'q, 'r) deployment \<Rightarrow> ('m, 'q, 'd, 'r, 'e) world \<Rightarrow> point set" where
  "points_of D w = set (qd_points (dp_qdrant D) (vs_collection_name (dp_collection D)) (w_vectors w))"

definition objects_of :: "('m, 'q, 'r) deployment \<Rightarrow> ('m, 'q, 'd, 'r, 'e) world \<Rightarrow> pystr \<rightharpoonup> bytes" where
  "objects_of D w = mi_objects (dp_minio D) (bucket_of D) (w_storage w)"

definition jobs_of :: "('m, 'q, 'r) deployment \<Rightarrow> ('m, 'q, 'd, 'r, 'e) world \<Rightarrow> pystr set" where
  "jobs_of D w = set (queued (create_redis_job_queue (dp_redis D) (dp_settings D)) w)"

abbreviation get_of ::
  "('m, 'q, 'r) deployment \<Rightarrow> pystr \<Rightarrow> pystr \<Rightarrow> document_record list \<Rightarrow> document_record option" where
  "get_of D \<equiv> ds_get (create_document_metadata_store (dp_settings D))"

definition empty_system :: "('m, 'q, 'r) deployment \<Rightarrow> ('m, 'q, 'r) system \<Rightarrow> bool" where
  "empty_system D y \<longleftrightarrow> w_documents (sy_world y) = [] \<and> points_of D (sy_world y) = {}
     \<and> jobs_of D (sy_world y) = {} \<and> sy_uploads y = []"

inductive reachable :: "('m, 'q, 'r) deployment \<Rightarrow> ('m, 'q, 'r) system \<Rightarrow> bool"
  for D :: "('m, 'q, 'r) deployment" where
  Start: "empty_system D y \<Longrightarrow> reachable D y"
| Step: "reachable D y \<Longrightarrow> system_step D y y' \<Longrightarrow> reachable D y'"

section \<open>What indexing may do\<close>

text \<open>The part of a document's metadata that no operation but its upload sets.\<close>

type_synonym doc_facts = "pystr \<times> pystr \<times> pystr \<times> pystr option"

definition facts_of :: "'a document_metadata_scheme \<Rightarrow> doc_facts" where
  "facts_of d = (dm_security_level d, dm_storage_key d, dm_filename d, dm_uploaded_by_employee_id d)"

definition job_facts :: "index_job \<Rightarrow> doc_facts" where
  "job_facts j = (job_security_level j, job_storage_key j, job_filename j, job_uploaded_by_employee_id j)"

definition job_core :: "index_job \<Rightarrow> pystr \<times> pystr \<times> doc_facts" where
  "job_core j = (job_workspace_id j, job_document_id j, job_facts j)"

definition point_for :: "index_job \<Rightarrow> point \<Rightarrow> bool" where
  "point_for j p \<longleftrightarrow> pl_workspace_id (pt_payload p) = job_workspace_id j
     \<and> pl_document_id (pt_payload p) = job_document_id j
     \<and> pl_security_level (pt_payload p) = Some (job_security_level j)"

lemma job_core_update [simp]: "job_core (j\<lparr> job_attempt := a \<rparr>) = job_core j"
  "job_core (j\<lparr> job_max_attempts := n \<rparr>) = job_core j"
  by (simp_all add: job_core_def job_facts_def)

definition same_facts :: "'d doc_store \<Rightarrow> 'd \<Rightarrow> 'd \<Rightarrow> bool" where
  "same_facts st d d' \<longleftrightarrow> (\<forall>v i. map_option facts_of (ds_get st v i d') = map_option facts_of (ds_get st v i d))"

lemma same_facts_refl [simp]: "same_facts st d d"
  and same_facts_trans: "same_facts st d d' \<Longrightarrow> same_facts st d' d'' \<Longrightarrow> same_facts st d d''"
  by (simp_all add: same_facts_def)

text \<open>The worker changes the status of its job's document only.\<close>

context indexing_worker
begin

lemma update_status_facts:
  assumes "invar (w_documents w)"
  shows "invar (w_documents (update_document_status wk job st err cnt w))
    \<and> same_facts (wk_documents wk) (w_documents w) (w_documents (update_document_status wk job st err cnt w))"
proof (cases "ds_get (wk_documents wk) (job_workspace_id job) (job_document_id job) (w_documents w)")
  case None
  with assms update_status_missing [OF None] show ?thesis by simp
next
  case (Some d)
  note g = update_status_get [OF assms Some]
  have "facts_of (d\<lparr> dm_indexing_status := a, dm_indexing_error := b, dm_chunk_count := c \<rparr>) = facts_of d" for a b c
    by (simp add: facts_of_def)
  with g Some show ?thesis by (auto simp: same_facts_def)
qed

lemma update_status_facts':
  assumes "invar (w_documents w) \<and> same_facts (wk_documents wk) d0 (w_documents w)"
  shows "invar (w_documents (update_document_status wk job st err cnt w))
    \<and> same_facts (wk_documents wk) d0 (w_documents (update_document_status wk job st err cnt w))"
  using update_status_facts [of w job st err cnt] assms same_facts_trans [of "wk_documents wk" d0 "w_documents w"]
  by simp

lemma handle_failure_facts:
  assumes "invar (w_documents w) \<and> same_facts (wk_documents wk) d0 (w_documents w)"
  shows "invar (w_documents (handle_failure wk job exc w))
    \<and> same_facts (wk_documents wk) d0 (w_documents (handle_failure wk job exc w))"
proof -
  let ?e = "redis_enqueue (wk_queue wk) (wk_events wk) (job\<lparr> job_attempt := job_attempt job + 1 \<rparr>) w"
  have e: "invar (w_documents (snd ?e)) \<and> same_facts (wk_documents wk) d0 (w_documents (snd ?e))"
    using assms by (simp add: redisq.enqueue_documents)
  show ?thesis
    using update_status_facts' [OF assms, of job Failed "Some (str_exn exc)" "Some 0"] update_status_facts' [OF e]
    by (auto simp: handle_failure_def Let_def split: prod.split)
qed

lemma process_job_facts:
  assumes "invar (w_documents w)"
  shows "invar (w_documents (process_job wk job w))
    \<and> same_facts (wk_documents wk) (w_documents w) (w_documents (process_job wk job w))"
proof -
  have s: "invar (w_documents w) \<and> same_facts (wk_documents wk) (w_documents w) (w_documents w)" using assms by simp
  note u = update_status_facts' [OF s, of job Processing None None]
  have "invar (w_documents (update_document_status wk job Completed None n
        ((update_document_status wk job Processing None None w)\<lparr> w_vectors := q \<rparr>)))
      \<and> same_facts (wk_documents wk) (w_documents w) (w_documents (update_document_status wk job Completed None n
        ((update_document_status wk job Processing None None w)\<lparr> w_vectors := q \<rparr>)))" for n q
    using u by (intro update_status_facts') simp
  with handle_failure_facts [OF u] show ?thesis
    by (simp add: process_job_def Let_def split: sum.split prod.split)
qed

end

abbreviation limit_of :: "('m, 'q, 'r) deployment \<Rightarrow> int" where
  "limit_of D \<equiv> cfg_indexing_queue_max_attempts (dp_settings D)"

definition payload_for :: "('m, 'q, 'r) deployment \<Rightarrow> (index_job \<Rightarrow> bool) \<Rightarrow> pystr \<Rightarrow> bool" where
  "payload_for D P x \<longleftrightarrow> (\<exists>j. deserialize x = Inr j \<and> job_ok (limit_of D) j \<and> P j)"

definition acts_for ::
  "('m, 'q, 'r) deployment \<Rightarrow> index_job \<Rightarrow> ('m, 'q, document_record list, 'r, mem_events) world
     \<Rightarrow> ('m, 'q, document_record list, 'r, mem_events) world \<Rightarrow> bool" where
  "acts_for D j w w' \<longleftrightarrow> docs_invar (dp_settings D) (w_documents w')
     \<and> same_facts (create_document_metadata_store (dp_settings D)) (w_documents w) (w_documents w')
     \<and> w_storage w' = w_storage w
     \<and> (\<forall>p \<in> points_of D w'. p \<in> points_of D w \<or> point_for j p \<and> objects_of D w (job_storage_key j) \<noteq> None)
     \<and> (\<forall>x \<in> jobs_of D w'. x \<in> jobs_of D w \<or> payload_for D (\<lambda>j'. job_core j' = job_core j) x)"

text \<open>A run of the pipeline needs the job's object and adds points of the job only.\<close>

lemma pipeline_of_points:
  assumes "deployment_ok D" "pipeline_run (pipeline_of D) j (w_storage w) (w_vectors w) = Inr (res, q')"
    and "p \<in> points_of D (w\<lparr> w_vectors := q' \<rparr>)"
  shows "p \<in> points_of D w \<or> point_for j p \<and> objects_of D w (job_storage_key j) \<noteq> None"
proof -
  from assms(2) obtain data where
    down: "ss_download (minio_storage (dp_minio D) (bucket_of D)) (job_storage_key j) (w_storage w) = Inr data"
    by (elim pipeline_run_Inr) (simp add: pipeline_of_def make_pipeline_def)
  from assms(2) have up: "upsert_chunks (dp_qdrant D) (dp_uuid5 D) (dp_collection D) j (ir_parser res)
      (ir_chunks res) (ir_embeddings res) (w_vectors w) = Inr q'"
    by (elim pipeline_run_Inr) (simp add: pipeline_of_def make_pipeline_def)
  have obj: "objects_of D w (job_storage_key j) \<noteq> None"
    using minio.download_objects [OF _ down] assms(1) by (simp add: deployment_ok_def objects_of_def)
  show ?thesis
  proof (cases "ir_chunks res = []")
    case True
    with up assms(3) show ?thesis by (simp add: upsert_chunks_def points_of_def)
  next
    case False
    have "distinct (document_point_ids (dp_uuid5 D) (job_document_id j) (length (ir_chunks res)))"
      and Q: "qdrant_writes_ok (dp_qdrant D)"
      using assms(1) by (simp_all add: deployment_ok_def point_ids_distinct_def)
    from pipeline_points [OF Q assms(2) [unfolded pipeline_of_def] this(1) False] assms(3)
    have "p \<in> points_of D w \<or> (\<exists>i. p = chunk_point (dp_uuid5 D) j (ir_parser res) i (ir_chunks res ! i)
        (ir_embeddings res ! i))"
      by (auto simp: points_of_def)
    with obj show ?thesis by (auto simp: point_for_def chunk_point_def)
  qed
qed

lemma jobs_of_frame [simp]:
  "jobs_of D (w\<lparr> w_vectors := q \<rparr>) = jobs_of D w" "jobs_of D (w\<lparr> w_storage := m \<rparr>) = jobs_of D w"
  "jobs_of D (w\<lparr> w_documents := d \<rparr>) = jobs_of D w" "jobs_of D (w\<lparr> w_events := e \<rparr>) = jobs_of D w"
  "jobs_of D (record_optional est ev w) = jobs_of D w"
  by (simp_all add: jobs_of_def queued_def)

lemma points_of_frame [simp]:
  "points_of D (w\<lparr> w_storage := m \<rparr>) = points_of D w" "points_of D (w\<lparr> w_events := e \<rparr>) = points_of D w" "points_of D (w\<lparr> w_documents := d \<rparr>) = points_of D w"
  "points_of D (w\<lparr> w_redis := r \<rparr>) = points_of D w" "points_of D (record_optional est ev w) = points_of D w"
  by (simp_all add: points_of_def)

lemma worker_of_simps [simp]:
  "wk_queue (worker_of D) = create_redis_job_queue (dp_redis D) (dp_settings D)"
  "wk_pipeline (worker_of D) = pipeline_of D"
  "wk_documents (worker_of D) = create_document_metadata_store (dp_settings D)"
  by (simp_all add: worker_of_def create_indexing_worker_def)

lemma redis_queue_simps [simp]:
  "rq_client (create_redis_job_queue R s) = R" "rq_max_attempts (create_redis_job_queue R s) = cfg_indexing_queue_max_attempts s"
  by (simp_all add: create_redis_job_queue_def)

lemma process_job_acts:
  assumes "deployment_ok D" "docs_invar (dp_settings D) (w_documents w)" "job_ok (limit_of D) j"
  shows "acts_for D j w (process_job (worker_of D) j w)"
proof -
  let ?wk = "worker_of D"
  let ?w1 = "update_document_status ?wk j Processing None None w"
  have facts: "docs_invar (dp_settings D) (w_documents (process_job ?wk j w))"
    "same_facts (create_document_metadata_store (dp_settings D)) (w_documents w) (w_documents (process_job ?wk j w))"
    using app_worker.process_job_facts [OF assms(2)] by (simp_all add: worker_of_def create_indexing_worker_def)
  have storage: "w_storage (process_job ?wk j w) = w_storage w"
    by (simp add: process_job_def Let_def split: sum.split prod.split)
  have points: "p \<in> points_of D w \<or> point_for j p \<and> objects_of D w (job_storage_key j) \<noteq> None"
    if p: "p \<in> points_of D (process_job ?wk j w)" for p
  proof (cases "pipeline_run (pipeline_of D) j (w_storage w) (w_vectors w)")
    case (Inl e)
    with p show ?thesis by (simp add: process_job_def Let_def points_of_def)
  next
    case (Inr r)
    obtain res q' where r: "r = (res, q')" by fastforce
    with Inr p have "p \<in> points_of D (w\<lparr> w_vectors := q' \<rparr>)"
      by (simp add: process_job_def Let_def points_of_def)
    with pipeline_of_points [OF assms(1)] Inr r show ?thesis by blast
  qed
  have queue: "x \<in> jobs_of D w \<or> payload_for D (\<lambda>j'. job_core j' = job_core j) x"
    if x: "x \<in> jobs_of D (process_job ?wk j w)" for x
  proof (cases "x \<in> jobs_of D w")
    case False
    from assms(1) have R: "redis_ok (rq_client (wk_queue ?wk))" and N: "limit_of D \<le> 10 ^ 100"
      by (simp_all add: deployment_ok_def)
    let ?r = "j\<lparr> job_attempt := job_attempt j + 1, job_max_attempts := limit_of D \<rparr>"
    from process_job_queued [OF R, of j w] x False have "x = serialize ?r" "job_attempt j < job_max_attempts j"
      by (auto simp: jobs_of_def)
    with retry_job_read [OF assms(3) N] assms(3) show ?thesis
      by (auto simp: payload_for_def job_ok_def intro!: exI [of _ ?r])
  qed simp
  show ?thesis unfolding acts_for_def using facts storage points queue by simp
qed

lemma enqueue_acts:
  assumes "deployment_ok D" "docs_invar (dp_settings D) (w_documents w)"
    and "serializable (j\<lparr> job_max_attempts := 3 \<rparr>)" "job_attempt j = 1"
  shows "acts_for D j w (snd (sv_enqueue (service_of D) j w))"
proof -
  let ?w' = "snd (sv_enqueue (service_of D) j w)"
  let ?j = "j\<lparr> job_max_attempts := limit_of D \<rparr>"
  have e: "sv_enqueue (service_of D) = get_job_queue (dp_settings D) (dp_redis D) (pipeline_of D) (Some mem_event_store)"
    by (simp add: service_of_def get_document_service_def)
  have frame: "w_documents ?w' = w_documents w" "w_storage ?w' = w_storage w"
    unfolding e by (rule app_queue.enqueue_documents, rule app_queue.enqueue_storage)
  show ?thesis
  proof (cases "cfg_indexing_queue_backend (dp_settings D) = py ''redis''")
    case True
    with e have w': "?w' = snd (redis_enqueue (create_redis_job_queue (dp_redis D) (dp_settings D)) (Some mem_event_store) j w)"
      by (simp add: get_job_queue_def)
    from assms(1) have R: "redis_ok (rq_client (create_redis_job_queue (dp_redis D) (dp_settings D)))"
      and N: "1 \<le> limit_of D" "limit_of D \<le> 10 ^ 100" by (simp_all add: deployment_ok_def)
    have "serializable ?j"
      using assms(3) N length_str_int [of "limit_of D"] by (simp add: serializable_def job_fields_def)
    then have "payload_for D (\<lambda>j'. job_core j' = job_core j) (serialize ?j)"
      using N assms(4) by (simp add: payload_for_def deserialize_serialize job_ok_def)
    with redis_enqueue_queued [OF R, of "Some mem_event_store" j w] have
      "\<forall>x \<in> jobs_of D ?w'. x \<in> jobs_of D w \<or> payload_for D (\<lambda>j'. job_core j' = job_core j) x"
      unfolding w' by (auto simp: jobs_of_def split: if_splits)
    moreover have "points_of D ?w' = points_of D w" by (simp add: w' points_of_def redis_enqueue_vectors)
    ultimately show ?thesis using frame assms(2) by (simp add: acts_for_def)
  next
    case False
    with e have w': "?w' = snd (inprocess_enqueue (pipeline_of D) (Some mem_event_store) j w)"
      by (simp add: get_job_queue_def)
    have "jobs_of D ?w' = jobs_of D w"
      unfolding w' by (simp add: inprocess_enqueue_def split: sum.split prod.split)
    moreover have "\<forall>p \<in> points_of D ?w'. p \<in> points_of D w \<or> point_for j p \<and> objects_of D w (job_storage_key j) \<noteq> None"
      unfolding w' using pipeline_of_points [OF assms(1), of j w]
      by (simp add: inprocess_enqueue_def split: sum.split prod.split)
    ultimately show ?thesis using frame assms(2) by (simp add: acts_for_def)
  qed
qed

end
