(* ===== verification/System_Guarantees.thy ===== *)
theory System_Guarantees
  imports System Search
begin

text \<open>
  The invariant of the running system, kept by every step, and what follows for the documents: a
  point of the vector database belongs to a document the system knows and carries its level. Then
  the case outside the step relation, where a deletion falls into the run of the pipeline.
\<close>

section \<open>The invariant\<close>

definition known ::
  "('m, 'q, 'r) deployment \<Rightarrow> ('m, 'q, 'r) system \<Rightarrow> pystr \<Rightarrow> pystr \<Rightarrow> doc_facts \<Rightarrow> bool" where
  "known D y v i f \<longleftrightarrow> map_option facts_of (get_of D v i (w_documents (sy_world y))) = Some f
     \<or> (\<exists>r \<in> set (sy_uploads y). dm_workspace_id r = v \<and> dm_document_id r = i \<and> facts_of r = f)"

definition entry_ok :: "pystr \<Rightarrow> pystr \<Rightarrow> doc_facts \<Rightarrow> bool" where
  "entry_ok v i f = (case f of (level, key, filename, employee) \<Rightarrow>
     text_ok v \<and> text_ok i \<and> text_ok level \<and> text_ok filename
     \<and> (case employee of None \<Rightarrow> True | Some e \<Rightarrow> text_ok e)
     \<and> 47 \<notin> set i \<and> 47 \<notin> set filename \<and> key = object_key v i filename)"

definition job_inv :: "('m, 'q, 'r) deployment \<Rightarrow> ('m, 'q, 'r) system \<Rightarrow> index_job \<Rightarrow> bool" where
  "job_inv D y j \<longleftrightarrow> job_document_id j \<in> sy_used y \<and> entry_ok (job_workspace_id j) (job_document_id j) (job_facts j)
     \<and> (known D y (job_workspace_id j) (job_document_id j) (job_facts j)
        \<or> objects_of D (sy_world y) (job_storage_key j) = None)"

definition point_inv :: "('m, 'q, 'r) deployment \<Rightarrow> ('m, 'q, 'r) system \<Rightarrow> point \<Rightarrow> bool" where
  "point_inv D y p \<longleftrightarrow> (\<exists>f. known D y (pl_workspace_id (pt_payload p)) (pl_document_id (pt_payload p)) f
     \<and> pl_security_level (pt_payload p) = Some (fst f))"

definition system_inv :: "('m, 'q, 'r) deployment \<Rightarrow> ('m, 'q, 'r) system \<Rightarrow> bool" where
  "system_inv D y \<longleftrightarrow> docs_invar (dp_settings D) (w_documents (sy_world y))
     \<and> distinct (map dm_document_id (sy_uploads y))
     \<and> (\<forall>r \<in> set (sy_uploads y). \<forall>v. get_of D v (dm_document_id r) (w_documents (sy_world y)) = None)
     \<and> (\<forall>v i f. known D y v i f \<longrightarrow> entry_ok v i f \<and> i \<in> sy_used y)
     \<and> (\<forall>x \<in> jobs_of D (sy_world y). payload_for D (job_inv D y) x)
     \<and> (\<forall>p \<in> points_of D (sy_world y). point_inv D y p)"

lemma system_invD:
  assumes "system_inv D y"
  shows "docs_invar (dp_settings D) (w_documents (sy_world y))"
    and "distinct (map dm_document_id (sy_uploads y))"
    and "r \<in> set (sy_uploads y) \<Longrightarrow> get_of D v (dm_document_id r) (w_documents (sy_world y)) = None"
    and "known D y v i f \<Longrightarrow> entry_ok v i f \<and> i \<in> sy_used y"
    and "x \<in> jobs_of D (sy_world y) \<Longrightarrow> payload_for D (job_inv D y) x"
    and "p \<in> points_of D (sy_world y) \<Longrightarrow> point_inv D y p"
  using assms unfolding system_inv_def by blast+

lemma job_inv_core: "job_core j' = job_core j \<Longrightarrow> job_inv D y j' = job_inv D y j"
  by (simp add: job_inv_def job_core_def job_facts_def)

lemma payload_for_mono: "payload_for D P x \<Longrightarrow> (\<And>j. P j \<Longrightarrow> P' j) \<Longrightarrow> payload_for D P' x"
  unfolding payload_for_def by blast

text \<open>A change of the state that keeps the objects and what is known about the documents.\<close>

lemma system_inv_world:
  assumes "system_inv D y" "docs_invar (dp_settings D) (w_documents w')"
    and "same_facts (create_document_metadata_store (dp_settings D)) (w_documents (sy_world y)) (w_documents w')"
    and "w_storage w' = w_storage (sy_world y)"
    and "\<And>p. p \<in> points_of D w' \<Longrightarrow> p \<in> points_of D (sy_world y) \<or> point_inv D y p"
    and "\<And>x. x \<in> jobs_of D w' \<Longrightarrow> x \<in> jobs_of D (sy_world y) \<or> payload_for D (job_inv D y) x"
  shows "system_inv D (y\<lparr> sy_world := w' \<rparr>)"
proof -
  let ?y = "y\<lparr> sy_world := w' \<rparr>"
  have get: "map_option facts_of (get_of D v i (w_documents w')) = map_option facts_of (get_of D v i (w_documents (sy_world y)))" for v i
    using assms(3) by (simp add: same_facts_def)
  have none: "get_of D v i (w_documents w') = None \<longleftrightarrow> get_of D v i (w_documents (sy_world y)) = None" for v i
    using get [of v i] by (metis option.map_disc_iff)
  have known: "known D ?y = known D y" by (simp add: fun_eq_iff known_def get)
  have job: "job_inv D ?y = job_inv D y" using assms(4) by (simp add: fun_eq_iff job_inv_def known objects_of_def)
  have point: "point_inv D ?y = point_inv D y" by (simp add: fun_eq_iff point_inv_def known)
  note inv = system_invD [OF assms(1)]
  have "\<forall>x \<in> jobs_of D w'. payload_for D (job_inv D y) x" using inv(5) assms(6) by blast
  moreover have "\<forall>p \<in> points_of D w'. point_inv D y p" using inv(6) assms(5) by blast
  moreover have "\<forall>r \<in> set (sy_uploads y). \<forall>v. get_of D v (dm_document_id r) (w_documents w') = None"
    using inv(3) none by blast
  moreover have "\<forall>v i f. known D y v i f \<longrightarrow> entry_ok v i f \<and> i \<in> sy_used y" using inv(4) by blast
  ultimately show ?thesis using inv(2) assms(2) unfolding system_inv_def known job point by simp
qed

lemma acts_for_inv:
  assumes "system_inv D y" "job_inv D y j" "acts_for D j (sy_world y) w'"
  shows "system_inv D (y\<lparr> sy_world := w' \<rparr>)"
proof (rule system_inv_world [OF assms(1)])
  show "docs_invar (dp_settings D) (w_documents w')" "w_storage w' = w_storage (sy_world y)"
    "same_facts (create_document_metadata_store (dp_settings D)) (w_documents (sy_world y)) (w_documents w')"
    using assms(3) by (simp_all add: acts_for_def)
  show "p \<in> points_of D (sy_world y) \<or> point_inv D y p" if "p \<in> points_of D w'" for p
  proof (cases "p \<in> points_of D (sy_world y)")
    case False
    with that assms(3) have "point_for j p" "objects_of D (sy_world y) (job_storage_key j) \<noteq> None"
      by (auto simp: acts_for_def)
    with assms(2) show ?thesis
      by (auto simp: job_inv_def point_inv_def point_for_def job_facts_def intro!: exI [of _ "job_facts j"])
  qed simp
  show "x \<in> jobs_of D (sy_world y) \<or> payload_for D (job_inv D y) x" if "x \<in> jobs_of D w'" for x
  proof (cases "x \<in> jobs_of D (sy_world y)")
    case False
    with that assms(3) have "payload_for D (\<lambda>j'. job_core j' = job_core j) x" by (auto simp: acts_for_def)
    then have "payload_for D (job_inv D y) x" by (rule payload_for_mono) (use job_inv_core assms(2) in blast)
    then show ?thesis ..
  qed simp
qed

text \<open>A change of the state that keeps the queue.\<close>

lemma system_inv_queue:
  assumes "system_inv D y" "jobs_of D (sy_world y') = jobs_of D (sy_world y)"
    and "docs_invar (dp_settings D) (w_documents (sy_world y'))" "distinct (map dm_document_id (sy_uploads y'))"
    and "\<And>r v. r \<in> set (sy_uploads y') \<Longrightarrow> get_of D v (dm_document_id r) (w_documents (sy_world y')) = None"
    and "\<And>v i f. known D y' v i f \<Longrightarrow> entry_ok v i f \<and> i \<in> sy_used y'"
    and "\<And>j. job_inv D y j \<Longrightarrow> job_inv D y' j"
    and "\<And>p. p \<in> points_of D (sy_world y') \<Longrightarrow> point_inv D y' p"
  shows "system_inv D y'"
proof -
  have "payload_for D (job_inv D y') x" if "x \<in> jobs_of D (sy_world y')" for x
    using system_invD(5) [OF assms(1)] that assms(2,7) by (auto intro: payload_for_mono)
  with assms(3-6,8) show ?thesis unfolding system_inv_def by blast
qed

text \<open>The object keys of different documents are different.\<close>

lemma append_sep_eq:
  "x \<notin> set b \<Longrightarrow> x \<notin> set d \<Longrightarrow> a @ x # b = c @ x # d \<Longrightarrow> a = c \<and> b = d"
proof (induction a arbitrary: c)
  case Nil
  then show ?case by (cases c) auto
next
  case (Cons y a)
  then show ?case by (cases c) auto
qed

lemma object_key_inj:
  assumes "object_key v i f = object_key v' i' f'"
    and "47 \<notin> set i" "47 \<notin> set f" "47 \<notin> set i'" "47 \<notin> set f'"
  shows "v = v' \<and> i = i' \<and> f = f'"
proof -
  have "(v @ 47 # i) @ 47 # f = (v' @ 47 # i') @ 47 # f'" using assms(1) by (simp add: object_key_def py_def)
  then have "v @ 47 # i = v' @ 47 # i'" "f = f'" using append_sep_eq [OF assms(3,5)] by blast+
  with append_sep_eq [OF assms(2,4)] show ?thesis by blast
qed

lemma entry_keys_differ:
  assumes "entry_ok v i (l, k, f, e)" "entry_ok v' i' (l', k', f', e')" "i \<noteq> i'"
  shows "k \<noteq> k'"
proof
  assume "k = k'"
  with assms(1,2) have "object_key v i f = object_key v' i' f'" "47 \<notin> set i" "47 \<notin> set f" "47 \<notin> set i'" "47 \<notin> set f'"
    by (simp_all add: entry_ok_def)
  with object_key_inj assms(3) show False by blast
qed

section \<open>The steps\<close>

lemma docs_invar_Nil: "docs_invar s []"
  by (simp add: docs_invar_def mem_invar_def pg_invar_def)

lemma worker_view_simps [simp]:
  "w_storage (worker_view D e w) = w_storage w" "w_vectors (worker_view D e w) = w_vectors w"
  "points_of D (worker_view D e w) = points_of D w" "jobs_of D (worker_view D e w) = jobs_of D w"
  by (simp_all add: worker_view_def)

lemma work_inv:
  fixes D :: "('m, 'q, 'r) deployment"
  assumes "deployment_ok D" "system_inv D y" "worker_round D e t (sy_world y) = (result, w')"
  shows "system_inv D (y\<lparr> sy_world := w' \<rparr>)"
proof -
  let ?q = "wk_queue (worker_of D)" and ?w = "sy_world y"
  let ?v = "worker_view D e ?w" and ?shared = "cfg_document_metadata_backend (dp_settings D) = py ''postgres''"
  define restored where "restored v = v\<lparr> w_events := w_events ?w, w_documents := (if ?shared then w_documents v else w_documents ?w) \<rparr>"
    for v :: "('m, 'q, document_record list, 'r, mem_events) world"
  note inv = system_invD [OF assms(2)]
  have R: "redis_ok (rq_client ?q)" using assms(1) by (simp add: deployment_ok_def)
  obtain res v1 where pop: "redis_pop ?q t ?v = (res, v1)" by fastforce
  have frame: "w_documents v1 = w_documents ?v" "w_storage v1 = w_storage ?w" "w_vectors v1 = w_vectors ?w"
    using pop by (auto simp: redis_pop_def split: sum.splits option.splits exn.splits prod.splits)
  have docs: "w_documents (restored v1) = w_documents ?w" using frame(1) by (simp add: restored_def worker_view_def)
  note law = redis_pop_queued [OF R pop]
  have "jobs_of D v1 \<subseteq> jobs_of D ?v"
    using law by (auto simp: jobs_of_def split: sum.splits option.splits)
  then have sub: "jobs_of D v1 \<subseteq> jobs_of D ?w" by simp
  have inv1: "system_inv D (y\<lparr> sy_world := restored v1 \<rparr>)"
    using inv(1) frame sub docs
    by (intro system_inv_world [OF assms(2)]) (auto simp: points_of_def, auto simp: restored_def)
  show ?thesis
  proof (cases "\<exists>job. res = Inr (Some job)")
    case True
    then obtain job where job: "res = Inr (Some job)" by blast
    with law obtain payload where q: "queued ?q ?v = queued ?q v1 @ [payload]"
      and d: "deserialize payload = Inr job" by auto
    from q have "payload \<in> jobs_of D ?v" by (simp add: jobs_of_def)
    then have p: "payload \<in> jobs_of D ?w" by simp
    from inv(5) [OF p] d have ok: "job_ok (limit_of D) job" "job_inv D y job" by (simp_all add: payload_for_def)
    from ok(2) frame docs have j1: "job_inv D (y\<lparr> sy_world := restored v1 \<rparr>) job"
      by (simp add: job_inv_def known_def objects_of_def) (simp add: restored_def)
    have w': "w' = restored (process_job (worker_of D) job v1)"
      using assms(3) pop job by (simp add: worker_round_def process_next_def restored_def)
    have "docs_invar (dp_settings D) (w_documents v1)"
      using inv(1) docs_invar_Nil frame(1) by (simp add: worker_view_def)
    from process_job_acts [OF assms(1) this ok(1)] have "acts_for D job v1 (process_job (worker_of D) job v1)" .
    then have "acts_for D job (restored v1) w'"
      using inv(1) frame(1) unfolding w' by (auto simp: acts_for_def restored_def objects_of_def worker_view_def)
    with acts_for_inv [OF inv1 j1] show ?thesis by simp
  next
    case False
    with assms(3) pop have "w' = restored v1"
      by (auto simp: worker_round_def process_next_def restored_def split: sum.splits option.splits)
    with inv1 show ?thesis by simp
  qed
qed

lemma service_of_simps:
  "sv_documents (service_of D) = create_document_metadata_store (dp_settings D)"
  "sv_delete_vectors (service_of D) = vs_delete_document (dp_qdrant D) (dp_collection D)"
  "sv_storage (service_of D) = minio_storage (dp_minio D) (bucket_of D)"
  by (simp_all add: service_of_def get_document_service_def bucket_of_def)

text \<open>What a request for a deletion does: nothing, or it stops after the points, or it is complete.\<close>

lemma delete_handlerE:
  assumes "delete_handler (service_of D) ctx i w = (result, w')"
  obtains (unchanged) "w' = w"
  | (points_only) rec q e where "get_of D (wc_workspace_id ctx) i (w_documents w) = Some rec"
      "vs_delete_document (dp_qdrant D) (dp_collection D) (wc_workspace_id ctx) i (w_vectors w) = Inr q"
      "ss_delete (minio_storage (dp_minio D) (bucket_of D)) (dm_storage_key rec) (w_storage w) = Inl e"
      "w' = w\<lparr> w_vectors := q \<rparr>"
  | (deleted) rec q m where "get_of D (wc_workspace_id ctx) i (w_documents w) = Some rec"
      "vs_delete_document (dp_qdrant D) (dp_collection D) (wc_workspace_id ctx) i (w_vectors w) = Inr q"
      "ss_delete (minio_storage (dp_minio D) (bucket_of D)) (dm_storage_key rec) (w_storage w) = Inr m"
      "w' = w\<lparr> w_vectors := q, w_storage := m, w_documents := snd (ds_delete
         (create_document_metadata_store (dp_settings D)) (wc_workspace_id ctx) i (w_documents w)) \<rparr>"
proof -
  obtain r where "delete_document (service_of D) ctx i w = (r, w')"
    using assms by (auto simp: delete_handler_def split: prod.splits sum.splits exn.splits)
  note d = this [unfolded delete_document_def service_of_simps]
  let ?st = "create_document_metadata_store (dp_settings D)"
  show ?thesis
  proof (cases "accessible_document ?st ctx i (w_documents w)")
    case (Inl e)
    with d unchanged show ?thesis by simp
  next
    case (Inr rec)
    then have rec: "get_of D (wc_workspace_id ctx) i (w_documents w) = Some rec"
      by (simp add: accessible_document_def split: option.splits sum.splits)
    show ?thesis
    proof (cases "vs_delete_document (dp_qdrant D) (dp_collection D) (wc_workspace_id ctx) i (w_vectors w)")
      case (Inl e)
      with d Inr unchanged show ?thesis by simp
    next
      case q: (Inr q)
      show ?thesis
        by (cases "ss_delete (minio_storage (dp_minio D) (bucket_of D)) (dm_storage_key rec) (w_storage w)")
          (use d Inr q points_only [OF rec q] deleted [OF rec q] in \<open>auto simp: Let_def\<close>)
    qed
  qed
qed

text \<open>When the object store does not delete the object, the points are gone and the metadata stays.\<close>

lemma deletion_stops_after_points:
  assumes "accessible_document (create_document_metadata_store (dp_settings D)) ctx i (w_documents w) = Inr rec"
    and "vs_delete_document (dp_qdrant D) (dp_collection D) (wc_workspace_id ctx) i (w_vectors w) = Inr q"
    and "ss_delete (minio_storage (dp_minio D) (bucket_of D)) (dm_storage_key rec) (w_storage w) = Inl e"
  shows "snd (delete_handler (service_of D) ctx i w) = w\<lparr> w_vectors := q \<rparr>"
  using assms by (auto simp: delete_handler_def delete_document_def service_of_simps Let_def split: exn.split)

text \<open>A deletion. What is known of the other documents stays, and the object of a queued job is gone.\<close>

lemma delete_inv:
  assumes "deployment_ok D" "system_inv D y" "delete_handler (service_of D) ctx i (sy_world y) = (result, w')"
  shows "system_inv D (y\<lparr> sy_world := w' \<rparr>)"
proof -
  let ?w = "sy_world y" and ?v = "wc_workspace_id ctx" and ?st = "create_document_metadata_store (dp_settings D)"
  note inv = system_invD [OF assms(2)]
  have Q: "qdrant_writes_ok (dp_qdrant D)" and M: "minio_ok (dp_minio D)" using assms(1) by (simp_all add: deployment_ok_def)
  have fewer: "points_of D (?w\<lparr> w_vectors := q \<rparr>) = {p \<in> points_of D ?w. \<not> (pl_workspace_id (pt_payload p) = ?v
      \<and> pl_document_id (pt_payload p) = i)}"
    if "vs_delete_document (dp_qdrant D) (dp_collection D) ?v i (w_vectors ?w) = Inr q" for q
    using vs_delete_document_points [OF Q that] by (simp add: points_of_def)
  from assms(3) show ?thesis
  proof (cases rule: delete_handlerE)
    case unchanged
    with assms(2) show ?thesis by simp
  next
    case (points_only rec q e)
    with fewer [OF points_only(2)] inv(1) show ?thesis by (intro system_inv_world [OF assms(2)]) auto
  next
    case (deleted rec q m)
    note rec = deleted(1) and q = deleted(2) and m = deleted(3) and w' = deleted(4)
    let ?y = "y\<lparr> sy_world := w' \<rparr>"
    have get: "get_of D v j (w_documents w') = (if (v, j) = (?v, i) then None else get_of D v j (w_documents ?w))" for v j
      using app_docs.get_delete [OF inv(1)] by (simp add: w')
    have no_upload: "\<not> (\<exists>r \<in> set (sy_uploads y). dm_document_id r = i)" using inv(3) rec by fastforce
    have known: "known D ?y v j f \<longleftrightarrow> known D y v j f \<and> (v, j) \<noteq> (?v, i)" for v j f
      using no_upload by (auto simp: known_def get)
    have objects: "objects_of D w' = (objects_of D ?w)(dm_storage_key rec := None)"
      using minio.delete_objects [OF M m] by (simp add: objects_of_def w')
    have gone: "f = facts_of rec" if "known D y ?v i f" for f
      using that rec no_upload by (auto simp: known_def)
    have job: "job_inv D ?y j" if "job_inv D y j" for j
    proof (cases "known D y (job_workspace_id j) (job_document_id j) (job_facts j)
        \<and> (job_workspace_id j, job_document_id j) = (?v, i)")
      case True
      with gone have "job_storage_key j = dm_storage_key rec" by (auto simp: job_facts_def facts_of_def)
      with that show ?thesis by (simp add: job_inv_def objects)
    next
      case False
      with that known show ?thesis by (auto simp: job_inv_def objects)
    qed
    have point: "point_inv D ?y p" if p: "p \<in> points_of D w'" for p
    proof -
      from p fewer [OF q] have "p \<in> points_of D ?w"
        "(pl_workspace_id (pt_payload p), pl_document_id (pt_payload p)) \<noteq> (?v, i)" by (auto simp: w')
      with inv(6) known show ?thesis unfolding point_inv_def by blast
    qed
    show ?thesis
    proof (rule system_inv_queue [OF assms(2)])
      show "docs_invar (dp_settings D) (w_documents (sy_world ?y))"
        using app_docs.delete_invar [OF inv(1)] by (simp add: w')
      show "jobs_of D (sy_world ?y) = jobs_of D ?w" by (simp add: w')
      show "entry_ok v j f \<and> j \<in> sy_used ?y" if "known D ?y v j f" for v j f
        using that known inv(4) [of v j f] by simp
    qed (use inv(2,3) get job point in simp_all)
  qed
qed

text \<open>A re-indexing: the points are removed, the job is queued or run, the record updated.\<close>

lemma entry_job_serializable:
  assumes "entry_ok (job_workspace_id j) (job_document_id j) (job_facts j)"
    and "text_ok (job_id j)" "text_ok (job_workspace_name j)" "text_ok (job_content_type j)" "job_attempt j = 1"
  shows "serializable (j\<lparr> job_max_attempts := 3 \<rparr>)"
  using assms by (auto simp: entry_ok_def job_facts_def serializable_def job_fields_def object_key_def opt_field_def
      str_int_def scalar_value_def split: option.splits)

lemma reindex_handlerE:
  assumes "reindex_handler g (service_of D) jid ctx i w = (result, w')"
  obtains (unchanged) "w' = w"
  | (dispatched) rec parsed q dispatch w1 where "get_of D (wc_workspace_id ctx) i (w_documents w) = Some rec"
      "vs_delete_document (dp_qdrant D) (dp_collection D) (wc_workspace_id ctx) i (w_vectors w) = Inr q"
      "sv_enqueue (service_of D) (reindex_job g jid ctx i rec) (w\<lparr> w_vectors := q \<rparr>) = (dispatch, w1)"
      "w' = w1\<lparr> w_documents := ds_record (create_document_metadata_store (dp_settings D))
         (reindexed_record ctx parsed dispatch rec) (w_documents w1) \<rparr>"
proof -
  obtain r where "reindex_document g (service_of D) jid ctx i w = (r, w')"
    using assms by (auto simp: reindex_handler_def split: prod.splits sum.splits)
  then show ?thesis
    using that by (auto simp: reindex_document_def accessible_document_def service_of_simps Let_def
        split: sum.splits option.splits prod.splits)
qed

lemma reindex_job_serializable:
  assumes "deployment_ok D" "context_ok ctx" "text_ok jid" "entry_ok (wc_workspace_id ctx) i (facts_of rec)"
  shows "serializable ((reindex_job (dp_guess_type D) jid ctx i rec)\<lparr> job_max_attempts := 3 \<rparr>)"
proof (rule entry_job_serializable)
  let ?j = "reindex_job (dp_guess_type D) jid ctx i rec"
  show "entry_ok (job_workspace_id ?j) (job_document_id ?j) (job_facts ?j)"
    using assms(4) by (simp add: job_facts_def facts_of_def reindex_job_def)
  show "text_ok (job_content_type ?j)"
    using assms(1,4) by (auto simp: deployment_ok_def content_types_ok_def entry_ok_def facts_of_def reindex_job_def
        intro: spec [of _ "[]"])
qed (use assms(2,3) in \<open>simp_all add: reindex_job_def context_ok_def\<close>)

lemma reindex_inv:
  assumes "deployment_ok D" "system_inv D y" "context_ok ctx" "text_ok jid"
    and "reindex_handler (dp_guess_type D) (service_of D) jid ctx i (sy_world y) = (result, w')"
  shows "system_inv D (y\<lparr> sy_world := w' \<rparr>)"
proof -
  let ?w = "sy_world y" and ?v = "wc_workspace_id ctx" and ?st = "create_document_metadata_store (dp_settings D)"
  note inv = system_invD [OF assms(2)]
  from assms(5) show ?thesis
  proof (cases rule: reindex_handlerE)
    case unchanged
    with assms(2) show ?thesis by simp
  next
    case (dispatched rec parsed q dispatch w1)
    note rec = dispatched(1) and q = dispatched(2) and e = dispatched(3) and w' = dispatched(4)
    let ?j = "reindex_job (dp_guess_type D) jid ctx i rec"
    let ?y0 = "y\<lparr> sy_world := ?w\<lparr> w_vectors := q \<rparr> \<rparr>"
    have Q: "qdrant_writes_ok (dp_qdrant D)" using assms(1) by (simp add: deployment_ok_def)
    have "points_of D (?w\<lparr> w_vectors := q \<rparr>) \<subseteq> points_of D ?w"
      using vs_delete_document_points [OF Q q] by (auto simp: points_of_def)
    then have inv0: "system_inv D ?y0" using inv(1) by (intro system_inv_world [OF assms(2)]) auto
    have facts: "job_facts ?j = facts_of rec" "job_workspace_id ?j = ?v" "job_document_id ?j = i"
      by (simp_all add: job_facts_def facts_of_def reindex_job_def)
    have known: "known D ?y0 ?v i (facts_of rec)" using rec by (simp add: known_def)
    with system_invD(4) [OF inv0] have entry: "entry_ok ?v i (facts_of rec)" "i \<in> sy_used ?y0" by auto
    with known have j: "job_inv D ?y0 ?j" by (simp add: job_inv_def facts)
    from reindex_job_serializable [OF assms(1,3,4) entry(1)]
    have "serializable (?j\<lparr> job_max_attempts := 3 \<rparr>)" .
    with enqueue_acts [OF assms(1), of "?w\<lparr> w_vectors := q \<rparr>" ?j] inv(1) e
    have "acts_for D ?j (sy_world ?y0) w1" by (simp add: reindex_job_def)
    from acts_for_inv [OF inv0 j this] have inv1: "system_inv D (y\<lparr> sy_world := w1 \<rparr>)" by simp
    have docs: "w_documents w1 = w_documents ?w"
      using app_queue.enqueue_documents [of "dp_settings D" "dp_redis D" "pipeline_of D" "Some mem_event_store" ?j "?w\<lparr> w_vectors := q \<rparr>"] e
      by (simp add: service_of_def get_document_service_def)
    let ?updated = "reindexed_record ctx parsed dispatch rec"
    have key: "doc_key ?updated = doc_key rec" and same: "facts_of ?updated = facts_of rec"
      by (simp_all add: reindexed_record_def doc_key_def facts_of_def)
    have "same_facts ?st (w_documents w1) (w_documents w')"
      using app_docs.update_get [OF inv(1) rec key] rec same by (auto simp: same_facts_def w' docs)
    moreover have "docs_invar (dp_settings D) (w_documents w')" using app_docs.record_invar inv(1) by (simp add: w' docs)
    ultimately show ?thesis
      using system_inv_world [OF inv1, of w'] by (simp add: w')
  qed
qed

text \<open>The record of an upload's metadata: the document was known before.\<close>

lemma record_facts:
  "facts_of (to_document_record now r) = facts_of r" "doc_key (to_document_record now r) = (dm_workspace_id r, dm_document_id r)"
  "dm_document_id (to_document_record now r) = dm_document_id r"
  by (simp_all add: to_document_record_def facts_of_def doc_key_def document_metadata.defs document_record.defs)

lemma record_inv:
  assumes "system_inv D y" "response \<in> set (sy_uploads y)"
  shows "system_inv D (y\<lparr> sy_world := upload_record (service_of D) now response (sy_world y),
       sy_uploads := remove1 response (sy_uploads y) \<rparr>)"
proof -
  let ?w = "sy_world y" and ?st = "create_document_metadata_store (dp_settings D)"
  let ?w' = "upload_record (service_of D) now response ?w"
  let ?y = "y\<lparr> sy_world := ?w', sy_uploads := remove1 response (sy_uploads y) \<rparr>"
  note inv = system_invD [OF assms(1)]
  have docs': "w_documents ?w' = ds_record ?st (to_document_record now response) (w_documents ?w)"
    by (simp add: upload_record_def service_of_simps)
  have can: "docs_can_record (dp_settings D) (to_document_record now response) (w_documents ?w)"
    using inv(3) [OF assms(2)] by (intro app_docs.can_create [OF inv(1)]) (simp add: record_facts)
  have get: "get_of D v j (w_documents ?w') = (if (v, j) = (dm_workspace_id response, dm_document_id response)
      then Some (to_document_record now response) else get_of D v j (w_documents ?w))" for v j
    using app_docs.get_record [OF inv(1) can, of v j] unfolding docs' record_facts by auto
  have uploads: "set (remove1 response (sy_uploads y)) = set (sy_uploads y) - {response}"
    using inv(2) by (simp add: distinct_map)
  have unique: "r = response" if "r \<in> set (sy_uploads y)" "dm_document_id r = dm_document_id response" for r
    using that assms(2) inv(2) by (auto simp: distinct_map inj_on_def)
  have known: "known D ?y v j f \<longleftrightarrow> known D y v j f" for v j f
  proof (cases "(v, j) = (dm_workspace_id response, dm_document_id response)")
    case True
    then have "known D ?y v j f \<longleftrightarrow> f = facts_of response" using unique by (auto simp: known_def get uploads record_facts)
    moreover have "known D y v j f \<longleftrightarrow> f = facts_of response"
      using True unique assms(2) inv(3) [OF assms(2)] by (auto simp: known_def)
    ultimately show ?thesis by blast
  next
    case False
    then show ?thesis by (auto simp: known_def get uploads)
  qed
  have frame: "w_storage ?w' = w_storage ?w" "jobs_of D ?w' = jobs_of D ?w" "points_of D ?w' = points_of D ?w"
    by (simp_all add: upload_record_def)
  show ?thesis
  proof (rule system_inv_queue [OF assms(1)])
    show "docs_invar (dp_settings D) (w_documents (sy_world ?y))"
      using app_docs.record_invar [OF inv(1)] by (simp add: docs')
    show "distinct (map dm_document_id (sy_uploads ?y))"
      using inv(2) by (simp add: distinct_map uploads distinct_remove1 inj_on_diff)
    show "get_of D v (dm_document_id r) (w_documents (sy_world ?y)) = None" if "r \<in> set (sy_uploads ?y)" for r v
      using that uploads unique inv(3) by (auto simp: get)
    show "entry_ok v j f \<and> j \<in> sy_used ?y" if "known D ?y v j f" for v j f
      using that known inv(4) [of v j f] by simp
    show "job_inv D ?y j" if "job_inv D y j" for j using that by (simp add: job_inv_def known objects_of_def frame)
    show "point_inv D ?y p" if "p \<in> points_of D (sy_world ?y)" for p
      using that inv(6) [of p] by (simp add: point_inv_def known frame)
  qed (simp add: frame)
qed

text \<open>The dispatch of an upload: the new document becomes known, its object is stored, its job queued or run.\<close>

lemma set_split_on: "p \<in> set (split_on c s) \<Longrightarrow> set p \<subseteq> set s"
proof (induction s arbitrary: p)
  case (Cons x s)
  obtain q qs where q: "split_on c s = q # qs" by (cases "split_on c s") auto
  with Cons.IH [of q] have "set q \<subseteq> set s" by simp
  with Cons q show ?case by (fastforce split: if_splits)
qed simp

lemma normalize_filename_text:
  assumes "text_ok f"
  shows "text_ok (normalize_filename f)"
proof -
  let ?r = "replace_char 92 47 f"
  have r: "text_ok ?r" using assms by (auto simp: replace_char_def list_all_iff scalar_value_def is_high_surrogate_def is_low_surrogate_def)
  have "set (strip (last (split_on 47 ?r))) \<subseteq> set ?r"
    using set_split_on [of "last (split_on 47 ?r)" 47 ?r] set_strip [of "last (split_on 47 ?r)"] by auto
  with r have "text_ok (strip (last (split_on 47 ?r)))" by (auto simp: list_all_iff)
  then show ?thesis by (simp add: normalize_filename_def Let_def)
qed

lemma supported_level_text: "l \<in> set SUPPORTED_DOCUMENT_SECURITY_LEVELS \<Longrightarrow> text_ok l"
proof -
  have "list_all text_ok SUPPORTED_DOCUMENT_SECURITY_LEVELS" by code_simp
  then show "l \<in> set SUPPORTED_DOCUMENT_SECURITY_LEVELS \<Longrightarrow> ?thesis" by (simp add: list_all_iff)
qed

lemma fresh_inv:
  assumes "system_inv D y" "minio_ok (dp_minio D)"
    and "entry_ok (dm_workspace_id r) (dm_document_id r) (facts_of r)" "dm_document_id r \<notin> sy_used y"
    and "ss_upload (minio_storage (dp_minio D) (bucket_of D)) v i fn ct data (w_storage (sy_world y)) = Inr (dm_storage_key r, m)"
  defines "y' \<equiv> y\<lparr> sy_world := (sy_world y)\<lparr> w_storage := m \<rparr>, sy_uploads := r # sy_uploads y,
       sy_used := insert (dm_document_id r) (sy_used y) \<rparr>"
  shows "system_inv D y'"
proof (rule system_inv_queue [OF assms(1)])
  note inv = system_invD [OF assms(1)]
  have known: "known D y' v j f \<longleftrightarrow> known D y v j f \<or> (v, j, f) = (dm_workspace_id r, dm_document_id r, facts_of r)" for v j f
    by (auto simp: known_def y'_def)
  have objects: "objects_of D (sy_world y') = (objects_of D (sy_world y))(dm_storage_key r \<mapsto> data)"
    using minio.upload_objects [OF assms(2,5)] by (simp add: objects_of_def y'_def)
  have none: "get_of D u (dm_document_id r) (w_documents (sy_world y)) = None" for u
  proof (rule ccontr)
    assume "get_of D u (dm_document_id r) (w_documents (sy_world y)) \<noteq> None"
    then obtain d where "get_of D u (dm_document_id r) (w_documents (sy_world y)) = Some d" by blast
    then have "known D y u (dm_document_id r) (facts_of d)" by (simp add: known_def)
    with inv(4) assms(4) show False by blast
  qed
  have other: "dm_document_id r' \<noteq> dm_document_id r" if "r' \<in> set (sy_uploads y)" for r'
  proof -
    have "known D y (dm_workspace_id r') (dm_document_id r') (facts_of r')" using that by (auto simp: known_def)
    with inv(4) assms(4) show ?thesis by metis
  qed
  show "jobs_of D (sy_world y') = jobs_of D (sy_world y)" "docs_invar (dp_settings D) (w_documents (sy_world y'))"
    using inv(1) by (simp_all add: y'_def)
  have "dm_document_id r \<notin> dm_document_id ` set (sy_uploads y)" using other by (metis imageE)
  then show "distinct (map dm_document_id (sy_uploads y'))" using inv(2) by (simp add: y'_def)
  show "get_of D u (dm_document_id r') (w_documents (sy_world y')) = None" if "r' \<in> set (sy_uploads y')" for r' u
    using that none inv(3) by (auto simp: y'_def)
  show "entry_ok u j f \<and> j \<in> sy_used y'" if "known D y' u j f" for u j f
    using that assms(3) inv(4) [of u j f] unfolding known by (auto simp: y'_def)
  show "job_inv D y' j" if "job_inv D y j" for j
  proof -
    have "job_document_id j \<noteq> dm_document_id r" using that assms(4) by (auto simp: job_inv_def)
    moreover have "entry_ok (job_workspace_id j) (job_document_id j) (job_facts j)"
      using that by (simp add: job_inv_def)
    ultimately have "job_storage_key j \<noteq> dm_storage_key r"
      using assms(3) entry_keys_differ by (auto simp: job_facts_def facts_of_def)
    with that show ?thesis by (auto simp: job_inv_def known objects) (simp_all add: y'_def)
  qed
  show "point_inv D y' p" if "p \<in> points_of D (sy_world y')" for p
  proof -
    have "p \<in> points_of D (sy_world y)" using that by (simp add: y'_def)
    with inv(6) known show ?thesis unfolding point_inv_def by blast
  qed
qed

lemma upload_dispatchE:
  assumes "upload_dispatch U g (service_of D) ids ctx fn ct data level w = (Inr response, w')"
  obtains parsed key m dispatch where
    "ss_upload (minio_storage (dp_minio D) (bucket_of D)) (wc_workspace_id ctx) (up_document_id ids) (normalize_filename fn)
       (normalize_content_type U g ct (normalize_filename fn)) data (w_storage w) = Inr (key, m)"
    "sv_enqueue (service_of D) (upload_job ids ctx (normalize_filename fn)
       (normalize_content_type U g ct (normalize_filename fn)) key level) (w\<lparr> w_storage := m \<rparr>) = (dispatch, w')"
    "response = upload_response ids ctx (normalize_filename fn) key level parsed dispatch"
  using assms that by (auto simp: upload_dispatch_def service_of_simps Let_def split: sum.splits if_splits prod.splits)

lemma upload_job_ok:
  fixes D :: "('m, 'q, 'r) deployment"
  assumes "deployment_ok D" "context_ok ctx" "ids_ok ids" "text_ok fn" "text_ok ct"
    and "validate_document_security_level l = Inr level"
    and "ss_upload (minio_storage (dp_minio D) (bucket_of D)) (wc_workspace_id ctx) (up_document_id ids)
       (normalize_filename fn) ct' data m = Inr (key, m')"
  defines "j \<equiv> upload_job ids ctx (normalize_filename fn)
     (normalize_content_type (dp_ucd D) (dp_guess_type D) ct (normalize_filename fn)) key level"
  shows "entry_ok (wc_workspace_id ctx) (up_document_id ids) (job_facts j)"
    and "serializable (j\<lparr> job_max_attempts := 3 \<rparr>)"
proof -
  let ?fn = "normalize_filename fn"
  have M: "minio_ok (dp_minio D)" using assms(1) by (simp add: deployment_ok_def)
  have key: "key = object_key (wc_workspace_id ctx) (up_document_id ids) ?fn"
    using minio.upload_key [OF M assms(7)] by (simp add: object_key_def)
  have fn: "text_ok ?fn" "47 \<notin> set ?fn" using normalize_filename_text [OF assms(4)] normalize_filename_facts(2) by simp_all
  have "text_ok level" using assms(6) supported_level_text by (auto simp: validate_level_Inr_iff)
  then show entry: "entry_ok (wc_workspace_id ctx) (up_document_id ids) (job_facts j)"
    using assms(2,3) fn by (simp add: j_def entry_ok_def job_facts_def upload_job_def context_ok_def ids_ok_def key)
  have job: "job_workspace_id j = wc_workspace_id ctx" "job_document_id j = up_document_id ids"
    by (simp_all add: j_def upload_job_def)
  have "text_ok (job_content_type j)" using assms(1,5) fn(1)
    by (auto simp: j_def upload_job_def deployment_ok_def content_types_ok_def)
  then show "serializable (j\<lparr> job_max_attempts := 3 \<rparr>)"
    using assms(2,3) entry by (intro entry_job_serializable, unfold job) (simp_all add: j_def upload_job_def context_ok_def ids_ok_def)
qed

lemma dispatch_inv:
  assumes "deployment_ok D" "system_inv D y" "context_ok ctx" "ids_ok ids" "up_document_id ids \<notin> sy_used y"
    and "text_ok fn" "text_ok ct" "validate_document_security_level l = Inr level"
    and "upload_dispatch (dp_ucd D) (dp_guess_type D) (service_of D) ids ctx fn ct data level (sy_world y) = (Inr response, w')"
  shows "system_inv D (y\<lparr> sy_world := w', sy_uploads := response # sy_uploads y,
       sy_used := insert (up_document_id ids) (sy_used y) \<rparr>)"
proof -
  let ?w = "sy_world y" and ?fn = "normalize_filename fn"
  let ?ct = "normalize_content_type (dp_ucd D) (dp_guess_type D) ct ?fn"
  from assms(9) obtain parsed key m dispatch where
    up: "ss_upload (minio_storage (dp_minio D) (bucket_of D)) (wc_workspace_id ctx) (up_document_id ids) ?fn ?ct data
       (w_storage ?w) = Inr (key, m)"
    and e: "sv_enqueue (service_of D) (upload_job ids ctx ?fn ?ct key level) (?w\<lparr> w_storage := m \<rparr>) = (dispatch, w')"
    and r: "response = upload_response ids ctx ?fn key level parsed dispatch"
    by (rule upload_dispatchE)
  let ?j = "upload_job ids ctx ?fn ?ct key level"
  have M: "minio_ok (dp_minio D)" using assms(1) by (simp add: deployment_ok_def)
  note jok = upload_job_ok [OF assms(1,3,4,6-8) up]
  then have entry: "entry_ok (wc_workspace_id ctx) (up_document_id ids) (job_facts ?j)" by simp
  have facts: "facts_of response = job_facts ?j" "dm_workspace_id response = wc_workspace_id ctx"
    "dm_document_id response = up_document_id ids" "dm_storage_key response = key"
    by (simp_all add: r facts_of_def job_facts_def upload_response_def upload_job_def)
  have job: "job_workspace_id ?j = wc_workspace_id ctx" "job_document_id ?j = up_document_id ids"
    by (simp_all add: upload_job_def)
  let ?y = "y\<lparr> sy_world := ?w\<lparr> w_storage := m \<rparr>, sy_uploads := response # sy_uploads y,
       sy_used := insert (up_document_id ids) (sy_used y) \<rparr>"
  from fresh_inv [OF assms(2) M, of response] entry assms(5) up have inv: "system_inv D ?y" by (simp add: facts)
  have j: "job_inv D ?y ?j" using entry facts by (simp add: job_inv_def known_def job)
  from jok(2) have "serializable (?j\<lparr> job_max_attempts := 3 \<rparr>)" .
  with enqueue_acts [OF assms(1), of "?w\<lparr> w_storage := m \<rparr>" ?j] system_invD(1) [OF assms(2)] e
  have "acts_for D ?j (sy_world ?y) w'" by (simp add: upload_job_def)
  from acts_for_inv [OF inv j this] show ?thesis by (cases y) simp
qed

lemma open_inv:
  assumes "deployment_ok D" "system_inv D y"
  shows "system_inv D (y\<lparr> sy_world := (sy_world y)\<lparr> w_vectors :=
       ensure_collection (dp_qdrant D) (dp_collection D) (w_vectors (sy_world y)) \<rparr> \<rparr>)"
proof (rule system_inv_world [OF assms(2)])
  have create: "qdrant_create_ok (dp_qdrant D)" using assms(1) by (simp add: deployment_ok_def)
  show "p \<in> points_of D (sy_world y) \<or> point_inv D y p" if "p \<in> points_of D ((sy_world y)\<lparr> w_vectors :=
       ensure_collection (dp_qdrant D) (dp_collection D) (w_vectors (sy_world y)) \<rparr>)" for p
    using subsetD [OF ensure_collection_points [OF create]] that by (simp add: points_of_def)
  show "docs_invar (dp_settings D) (w_documents ((sy_world y)\<lparr> w_vectors :=
       ensure_collection (dp_qdrant D) (dp_collection D) (w_vectors (sy_world y)) \<rparr>))"
    using system_invD(1) [OF assms(2)] by simp
qed simp_all

text \<open>Every step keeps the invariant, and every reachable state has it.\<close>

lemma system_step_inv:
  assumes "deployment_ok D" "system_step D y y'" "system_inv D y"
  shows "system_inv D y'"
  using assms(2,3)
proof cases
  case (Upload_Dispatch ctx ids fn ct l level data response w')
  with assms(1,3) show ?thesis by (auto intro: dispatch_inv)
next
  case (Upload_Record response now)
  with assms(3) show ?thesis by (auto intro: record_inv)
next
  case (Delete ctx i result w')
  with assms(1,3) show ?thesis by (auto intro: delete_inv)
next
  case (Reindex ctx jid i result w')
  with assms(1,3) show ?thesis by (auto intro: reindex_inv)
next
  case (Work own_events t result w')
  with assms(1,3) show ?thesis by (auto intro: work_inv)
next
  case Open_Store
  with assms(1,3) show ?thesis by (auto intro: open_inv)
next
  case (Record_Events events)
  note w = system_inv_world [OF assms(3), of "(sy_world y)\<lparr> w_events := events \<rparr>"]
  with Record_Events system_invD(1) [OF assms(3)] show ?thesis
    by (simp add: points_of_def jobs_of_def queued_def)
qed

lemma empty_system_inv: "empty_system D y \<Longrightarrow> system_inv D y"
  by (auto simp: empty_system_def system_inv_def known_def create_document_metadata_store_def docs_invar_def
      mem_doc_store_def pg_doc_store_def mem_get_document_def pg_get_document_def mem_invar_def pg_invar_def)

lemma reachable_inv: "reachable D y \<Longrightarrow> deployment_ok D \<Longrightarrow> system_inv D y"
  by (induction rule: reachable.induct) (auto intro: empty_system_inv system_step_inv)

section \<open>Properties\<close>

text \<open>The security level the system has recorded for a document, or is about to record.\<close>

definition recorded_level ::
  "('m, 'q, 'r) deployment \<Rightarrow> ('m, 'q, 'r) system \<Rightarrow> pystr \<Rightarrow> pystr \<Rightarrow> pystr option" where
  "recorded_level D y v i =
     (case get_of D v i (w_documents (sy_world y)) of
        Some d \<Rightarrow> Some (dm_security_level d)
      | None \<Rightarrow> map_option dm_security_level
          (find (\<lambda>r. dm_workspace_id r = v \<and> dm_document_id r = i) (sy_uploads y)))"

lemma known_level:
  assumes "system_inv D y" "known D y v i f"
  shows "recorded_level D y v i = Some (fst f)"
proof (cases "get_of D v i (w_documents (sy_world y))")
  case None
  note inv = system_invD [OF assms(1)]
  from None assms(2) obtain r where r: "r \<in> set (sy_uploads y)" "dm_workspace_id r = v" "dm_document_id r = i" "facts_of r = f"
    by (auto simp: known_def)
  let ?P = "\<lambda>r. dm_workspace_id r = v \<and> dm_document_id r = i"
  from r obtain r' where r': "find ?P (sy_uploads y) = Some r'" by (cases "find ?P (sy_uploads y)") (auto simp: find_None_iff)
  then have "r' \<in> set (sy_uploads y)" "?P r'" by (auto dest: find_SomeD)
  with r inv(2) have "r' = r" by (auto simp: distinct_map inj_on_def)
  with None r r' show ?thesis by (auto simp: recorded_level_def facts_of_def)
next
  case (Some d)
  with system_invD(3) [OF assms(1)] have "\<not> (\<exists>r \<in> set (sy_uploads y). dm_document_id r = i)" by fastforce
  with Some assms(2) show ?thesis by (auto simp: recorded_level_def known_def facts_of_def)
qed

lemma point_level:
  assumes "deployment_ok D" "reachable D y" "p \<in> points_of D (sy_world y)"
  shows "recorded_level D y (pl_workspace_id (pt_payload p)) (pl_document_id (pt_payload p)) = pl_security_level (pt_payload p)
    \<and> pl_security_level (pt_payload p) \<noteq> None"
proof -
  from reachable_inv [OF assms(2,1)] have inv: "system_inv D y" .
  from system_invD(6) [OF inv assms(3)] known_level [OF inv] show ?thesis by (auto simp: point_inv_def)
qed

text \<open>
  C5: the vector database and the metadata agree. In every reachable state, whatever uploads, deletions,
  re-indexings and work on the queue went before, in any order and with either queue, each stored
  point belongs to a document that is recorded or whose upload is about to record it, and carries
  the security level recorded for it.
\<close>

theorem points_agree_with_metadata:
  assumes "deployment_ok D" "reachable D y" "p \<in> points_of D (sy_world y)"
  shows "recorded_level D y (pl_workspace_id (pt_payload p)) (pl_document_id (pt_payload p)) = pl_security_level (pt_payload p)
    \<and> pl_security_level (pt_payload p) \<noteq> None"
  using assms by (rule point_level)

text \<open>
  What retrieval shows: in every reachable state a chunk that the retriever returns shows a document
  of the filter's workspace with the level recorded for it.
\<close>

lemma retrieved_level:
  assumes "deployment_ok D" "qdrant_reads_ok (dp_qdrant D)" "reachable D y" "0 \<le> k"
    and "build_retriever (dp_ucd D) (dp_settings D) (dp_embed D) (dp_qdrant D) (dp_collection D)
       (w_vectors (sy_world y)) t f k = Inr chunks" "c \<in> set chunks"
  shows "recorded_level D y (rf_workspace_id f) (ch_document_id c) = Some (ch_security_level c)"
    and "chunk_within f c"
proof -
  from built.within [OF assms(2,4,5,6)] show within: "chunk_within f c" .
  from built_stored [OF assms(2,4,5,6)] obtain p score where
    p: "p \<in> points_of D (sy_world y)" "c = payload_chunk score (pt_payload p)"
    by (auto simp: shows_stored_def points_of_def)
  from within point_level [OF assms(1,3) p(1)]
  show "recorded_level D y (rf_workspace_id f) (ch_document_id c) = Some (ch_security_level c)"
    by (auto simp: p(2) chunk_within_def payload_chunk_def)
qed

lemma search_level:
  assumes "deployment_ok D" "qdrant_reads_ok (dp_qdrant D)" "reachable D y" "valid_search_request r"
    and "search_documents (build_retriever (dp_ucd D) (dp_settings D) (dp_embed D) (dp_qdrant D) (dp_collection D)
       (w_vectors (sy_world y))) ctx r = Inr response"
    and "x \<in> set (sp_results response)"
  shows "recorded_level D y (wc_workspace_id ctx) (sc_document_id x) = Some (sc_security_level x)
    \<and> (wc_role ctx = ADMIN_ROLE \<or> sc_security_level x \<in> {GENERAL_SECURITY_LEVEL, INTERNAL_SECURITY_LEVEL})"
proof -
  from assms(5) obtain levels chunks where
    levels: "filter_document_security_levels_for_role (wc_role ctx) (sq_security_levels r) = Inr levels"
    and chunks: "build_retriever (dp_ucd D) (dp_settings D) (dp_embed D) (dp_qdrant D) (dp_collection D)
       (w_vectors (sy_world y)) (sq_query r) \<lparr> rf_workspace_id = wc_workspace_id ctx,
       rf_document_ids = sq_document_ids r, rf_security_levels = levels \<rparr> (sq_limit r) = Inr chunks"
    and response: "response = \<lparr> sp_query = sq_query r, sp_total = int (length chunks),
       sp_results = map search_result chunks \<rparr>"
    by (rule search_documents_Inr)
  from assms(4) have k: "0 \<le> sq_limit r" by (simp add: valid_search_request_def)
  from assms(6) response obtain c where c: "c \<in> set chunks" "x = search_result c" by auto
  note level = retrieved_level [OF assms(1-3) k chunks c(1)]
  then have "wc_role ctx = ADMIN_ROLE \<or> ch_security_level c \<in> {GENERAL_SECURITY_LEVEL, INTERNAL_SECURITY_LEVEL}"
    using filter_levels_let_through [OF levels, of "ch_security_level c"] by (auto simp: chunk_within_def)
  with level(1) show ?thesis by (simp add: c(2) search_result_def)
qed

text \<open>
  C13: a deletion during indexing. The worker downloads the object, and only after parsing and
  embedding it stores the points. If the document is deleted in between, the run still succeeds and
  the points are stored: the deleted document stays searchable, and as its metadata is gone a further
  deletion finds no document and removes nothing.
\<close>

theorem deletion_during_indexing:
  assumes "deployment_ok D" "valid_chunker (dp_chunker D)" "registry_ok (dp_parsers D)"
    and "docs_invar (dp_settings D) (w_documents w)"
    and "delete_handler (service_of D) ctx i w = (Inr deleted, w1)"
    and "job_workspace_id job = wc_workspace_id ctx" "job_document_id job = i"
    and "pipeline_run (pipeline_of D) job (w_storage w) (w_vectors w1) = Inr (result, q)"
    and "w2 = update_document_status (worker_of D) job Completed None (Some (ir_chunk_count result)) (w1\<lparr> w_vectors := q \<rparr>)"
  shows "get_of D (wc_workspace_id ctx) i (w_documents w2) = None
    \<and> (\<exists>p \<in> points_of D w2. pl_workspace_id (pt_payload p) = wc_workspace_id ctx
         \<and> pl_document_id (pt_payload p) = i \<and> pl_security_level (pt_payload p) = Some (job_security_level job))
    \<and> delete_handler (service_of D) ctx i w2 = (Inl (document_not_found_http i), w2)"
proof -
  from assms(5) have "delete_document (service_of D) ctx i w = (Inr deleted, w1)"
    by (auto simp: delete_handler_def split: prod.splits sum.splits exn.splits)
  from app_documents.delete_ok [OF assms(4) this [unfolded service_of_def]]
  have gone: "get_of D (wc_workspace_id ctx) i (w_documents w1) = None"
    by (auto simp: get_document_service_def)
  then have "w_documents w2 = w_documents w1"
    using assms(6,7) by (simp add: assms(9) update_document_status_def)
  with gone have none: "get_of D (wc_workspace_id ctx) i (w_documents w2) = None" by simp
  have "qdrant_writes_ok (dp_qdrant D)"
    and "distinct (document_point_ids (dp_uuid5 D) (job_document_id job) (length (ir_chunks result)))"
    using assms(1) by (simp_all add: deployment_ok_def point_ids_distinct_def)
  from pipeline_indexes [OF this(1) assms(2,3) assms(8) [unfolded pipeline_of_def] this(2)]
  have "chunk_point (dp_uuid5 D) job (ir_parser result) 0 (ir_chunks result ! 0) (ir_embeddings result ! 0) \<in> points_of D w2"
    by (auto simp: points_of_def assms(9))
  moreover have "delete_handler (service_of D) ctx i w2 = (Inl (document_not_found_http i), w2)"
    using none by (simp add: delete_handler_def delete_document_def accessible_document_def document_not_found_def service_of_simps)
  ultimately show ?thesis using none assms(6,7) by (force simp: chunk_point_def)
qed

section \<open>A sample deployment\<close>

definition sample_deployment :: "settings \<Rightarrow> (pystr \<rightharpoonup> bytes, point list, pystr list) deployment" where
  "sample_deployment s = \<lparr> dp_settings = s, dp_minio = map_minio, dp_redis = list_redis, dp_qdrant = list_qdrant,
     dp_collection = sample_collection, dp_ucd = ascii_ucd, dp_guess_type = (\<lambda>_. None),
     dp_parsers = default_registry ascii_ucd (\<lambda>_. None) (\<lambda>_. DocxUnreadable), dp_chunker = sample_chunker,
     dp_embed = (\<lambda>ts. Inr (map (\<lambda>_. [1]) ts)), dp_uuid5 = (\<lambda>t. t) \<rparr>"

lemma nat_digits_inj: "nat_digits m = nat_digits n \<Longrightarrow> m = n"
  using nat_digits_facts [THEN conjunct2, THEN conjunct1] by (metis of_nat_eq_iff)

lemma identity_ids_distinct: "point_ids_distinct (\<lambda>t. t)"
  using nat_digits_inj by (auto simp: point_ids_distinct_def document_point_ids_def distinct_map inj_on_def str_int_def)

lemma ascii_content_types: "content_types_ok ascii_ucd (\<lambda>_. None)"
proof -
  have octet: "text_ok (guess_content_type (\<lambda>_. None) f)" for f by (simp add: guess_content_type_def)
  have "text_ok (ucd_lower ascii_ucd (strip ct))" if "text_ok ct" for ct
  proof -
    have "text_ok (strip ct)" using that set_strip [of ct] by (auto simp: list_all_iff)
    then show ?thesis
      by (auto simp: ascii_ucd_def ascii_lower_def list_all_iff scalar_value_def is_high_surrogate_def is_low_surrogate_def)
  qed
  with octet show ?thesis by (simp add: content_types_ok_def normalize_content_type_def Let_def)
qed

lemma sample_deployment_ok:
  "1 \<le> cfg_indexing_queue_max_attempts s \<Longrightarrow> cfg_indexing_queue_max_attempts s \<le> 10 ^ 100 \<Longrightarrow>
     deployment_ok (sample_deployment s)"
  by (simp add: deployment_ok_def sample_deployment_def map_minio_ok list_redis_ok list_qdrant_writes list_qdrant_create
      identity_ids_distinct ascii_content_types)

text \<open>The service and the pipeline of the sample deployment are those of the earlier sample runs.\<close>

lemma sample_pipeline_of: "pipeline_of (sample_deployment s) = sample_pipeline"
proof -
  have "minio_storage map_minio b = minio_storage map_minio b'" for b b'
    by (simp add: fun_eq_iff minio_storage_def minio_upload_def minio_download_def minio_delete_def map_minio_def)
  then have "minio_storage map_minio (bucket_of (sample_deployment s)) = minio_storage map_minio (py ''b'')" .
  then show ?thesis by (simp add: pipeline_of_def sample_pipeline_def) (simp add: sample_deployment_def sample_collection_def)
qed

lemma sample_service_of: "service_of (sample_deployment s) = sample_documents s"
  by (simp add: service_of_def sample_pipeline_of sample_documents_def) (simp add: sample_deployment_def)

definition sample_start :: "(pystr \<rightharpoonup> bytes, point list, pystr list) system" where
  "sample_start = \<lparr> sy_world = sample_empty_world, sy_uploads = [], sy_used = {} \<rparr>"

definition sample_upload_step where
  "sample_upload_step = upload_dispatch ascii_ucd (\<lambda>_. None) (sample_documents default_settings)
     sample_upload_ids sample_member (py ''a.txt'') [] (py ''ab cd ef'') (py ''internal'') sample_empty_world"

lemma sample_upload_step_result:
  "map_prod (map_sum (\<lambda>_. ()) dm_document_id) (\<lambda>w. length (w_vectors w)) sample_upload_step = (Inr (py ''d''), 3)"
  by code_simp

definition sample_found where
  "sample_found = search_documents (build_retriever ascii_ucd default_settings (\<lambda>ts. Inr (map (\<lambda>_. [1]) ts)) list_qdrant
     sample_collection (w_vectors (snd sample_upload_step))) sample_member sample_search"

lemma sample_found_result:
  "map_sum (\<lambda>_. ()) (\<lambda>p. map (\<lambda>x. (sc_document_id x, sc_security_level x)) (sp_results p)) sample_found
     = Inr (replicate 3 (py ''d'', py ''internal''))"
  by code_simp

definition sample_state :: "(pystr \<rightharpoonup> bytes, point list, pystr list) system" where
  "sample_state = sample_start\<lparr> sy_world := snd sample_upload_step,
     sy_uploads := [case fst sample_upload_step of Inr r \<Rightarrow> r], sy_used := {py ''d''} \<rparr>"

lemma sample_deployment_fields [simp]:
  "dp_settings (sample_deployment s) = s" "dp_qdrant (sample_deployment s) = list_qdrant"
  "dp_collection (sample_deployment s) = sample_collection" "dp_ucd (sample_deployment s) = ascii_ucd"
  "dp_guess_type (sample_deployment s) = (\<lambda>_. None)" "dp_embed (sample_deployment s) = (\<lambda>ts. Inr (map (\<lambda>_. [1]) ts))"
  "dp_chunker (sample_deployment s) = sample_chunker"
  "dp_parsers (sample_deployment s) = default_registry ascii_ucd (\<lambda>_. None) (\<lambda>_. DocxUnreadable)"
  by (simp_all add: sample_deployment_def)

lemma default_deployment_ok: "deployment_ok (sample_deployment default_settings)"
  by (rule sample_deployment_ok) (simp_all add: default_settings_def)

lemma sample_reachable: "reachable (sample_deployment default_settings) sample_state"
proof -
  let ?D = "sample_deployment default_settings"
  from summary_Inr [OF sample_upload_step_result] obtain r w where
    run: "sample_upload_step = (Inr r, w)" by auto
  have "empty_system ?D sample_start"
    by (simp add: empty_system_def sample_start_def sample_empty_world_def points_of_def jobs_of_def queued_def
        create_redis_job_queue_def list_qdrant_def) (simp add: sample_deployment_def list_redis_def)
  moreover have "system_step ?D sample_start sample_state"
  proof -
    have "context_ok sample_member" "ids_ok sample_upload_ids" "text_ok (py ''a.txt'')"
      by (simp_all add: context_ok_def ids_ok_def sample_member_def sample_upload_ids_def) (simp add: py_def)
    moreover have "validate_document_security_level (py ''internal'') = Inr (py ''internal'')"
      "ensure_document_security_level_allowed (wc_role sample_member) (py ''internal'') = Inr ()" by code_simp+
    moreover have "upload_dispatch (dp_ucd ?D) (dp_guess_type ?D) (service_of ?D) sample_upload_ids sample_member
       (py ''a.txt'') [] (py ''ab cd ef'') (py ''internal'') (sy_world sample_start) = (Inr r, w)"
      using run by (simp add: sample_upload_step_def sample_service_of sample_start_def)
    ultimately have "system_step ?D sample_start (sample_start\<lparr> sy_world := w, sy_uploads := r # sy_uploads sample_start,
       sy_used := insert (up_document_id sample_upload_ids) (sy_used sample_start) \<rparr>)"
      by (intro system_step.Upload_Dispatch) (simp_all add: sample_start_def)
    then show ?thesis unfolding sample_state_def run by (simp add: sample_start_def sample_upload_ids_def)
  qed
  ultimately show ?thesis by (blast intro: reachable.intros)
qed

lemma sample_points: "map (pl_security_level \<circ> pt_payload) (w_vectors (snd sample_upload_step))
    = replicate 3 (Some (py ''internal''))"
  by code_simp

theorem points_agree_with_metadata_witness:
  "\<exists>p \<in> points_of (sample_deployment default_settings) (sy_world sample_state).
     recorded_level (sample_deployment default_settings) sample_state (pl_workspace_id (pt_payload p))
       (pl_document_id (pt_payload p)) = Some (py ''internal'')"
proof -
  from sample_points obtain p ps where p: "w_vectors (snd sample_upload_step) = p # ps"
    and l: "pl_security_level (pt_payload p) = Some (py ''internal'')"
    by (cases "w_vectors (snd sample_upload_step)") (auto simp: numeral_3_eq_3)
  from p have "p \<in> points_of (sample_deployment default_settings) (sy_world sample_state)"
    by (simp add: points_of_def sample_state_def list_qdrant_def)
  from this points_agree_with_metadata [OF default_deployment_ok sample_reachable this] l show ?thesis by auto
qed

definition sample_late_run where
  "sample_late_run = pipeline_run sample_pipeline sample_index_job (w_storage (snd sample_upload)) (w_vectors (snd sample_delete))"

lemma sample_late_run_result: "map_sum (\<lambda>_. ()) (\<lambda>(r, q). (ir_chunk_count r, length q)) sample_late_run = Inr (3, 3)"
  by code_simp

theorem deletion_during_indexing_witness:
  "\<exists>result q. sample_late_run = Inr (result, q) \<and> (\<exists>p \<in> set q. pl_document_id (pt_payload p) = py ''d'')
     \<and> (\<exists>w2. delete_handler (sample_documents default_settings) sample_member (py ''d'') w2
          = (Inl (document_not_found_http (py ''d'')), w2) \<and> w_vectors w2 = q)"
proof -
  let ?D = "sample_deployment default_settings"
  from map_sum_InrD [OF sample_late_run_result] obtain result q where run: "sample_late_run = Inr (result, q)" by force
  from summary_Inr [OF sample_delete_result] obtain deleted w1 where del: "sample_delete = (Inr deleted, w1)" by auto
  let ?w2 = "update_document_status (worker_of ?D) sample_index_job Completed None (Some (ir_chunk_count result))
    (w1\<lparr> w_vectors := q \<rparr>)"
  have job: "job_workspace_id sample_index_job = wc_workspace_id sample_member" "job_document_id sample_index_job = py ''d''"
    by (simp_all add: sample_index_job_def sample_member_def)
  have chunker: "valid_chunker (dp_chunker ?D)" by (simp add: valid_chunker_def sample_chunker_def)
  have parsers: "registry_ok (dp_parsers ?D)" by (simp add: default_registry_ok)
  have inv: "docs_invar (dp_settings ?D) (w_documents (snd sample_upload))" using sample_upload_invar by simp
  have d: "delete_handler (service_of ?D) sample_member (py ''d'') (snd sample_upload) = (Inr deleted, w1)"
    using del by (simp only: sample_delete_def sample_service_of)
  have p: "pipeline_run (pipeline_of ?D) sample_index_job (w_storage (snd sample_upload)) (w_vectors w1) = Inr (result, q)"
    using run unfolding sample_late_run_def del sample_pipeline_of by simp
  from deletion_during_indexing [OF default_deployment_ok chunker parsers inv d job p refl]
  have "\<exists>p \<in> set q. pl_document_id (pt_payload p) = py ''d''"
    "delete_handler (sample_documents default_settings) sample_member (py ''d'') ?w2 = (Inl (document_not_found_http (py ''d'')), ?w2)"
    by (auto simp: points_of_def list_qdrant_def sample_service_of)
  with run show ?thesis by (intro exI [of _ result] exI [of _ q] conjI exI [of _ ?w2]) simp_all
qed

end
