(* ===== verification/Backend.thy ===== *)
theory Backend
  imports System_Guarantees Auth_Endpoints Audit_Export Operations Rate_Limit Llm
begin

text \<open>
  \<open>create_app\<close> of \<open>main.py\<close>: the whole application. A request that FastAPI has matched to an endpoint
  and whose arguments it has validated is an \<open>api_call\<close>; \<open>route\<close> is the method and path of the endpoint's
  decorator, \<open>access_of\<close> the dependency that guards it. \<open>serve\<close> resolves the dependencies of the
  endpoint, calls its handler and turns the outcome into a response; \<open>backend_app\<close> puts the middlewares
  around it. Requests FastAPI itself refuses (unknown path, invalid arguments) do not reach a handler
  and are not modelled.

  The state behind the endpoints is the shared world, the users and the audit log.
\<close>

section \<open>The parts\<close>

record ('m, 'q, 'r) backend =
  bk_settings :: settings
  bk_minio :: "'m minio"
  bk_redis :: "'r redis"
  bk_qdrant :: "'q qdrant"
  bk_ucd :: ucd
  bk_guess_type :: "pystr \<Rightarrow> pystr option"
  bk_parsers :: registry
  bk_uuid5 :: "pystr \<Rightarrow> pystr"
  bk_sha256 :: "bytes \<Rightarrow> bytes"
  bk_embed_post :: "http_request \<Rightarrow> http_result"
  bk_rerank_post :: "http_request \<Rightarrow> http_result"
  bk_llm_post :: "nat \<Rightarrow> http_request \<Rightarrow> http_result"
  bk_py_str :: "json \<Rightarrow> pystr"
  bk_tokens :: token_codec
  bk_kdf :: kdf
  bk_users :: "user_record list user_store"
  bk_health :: health_checker

text \<open>The values a request takes from generators and clocks.\<close>

record fresh_values =
  fv_ids :: upload_ids
  fv_now :: timestamp
  fv_salt :: pystr
  fv_stamp :: stamp

record ('m, 'q, 'r) backend_state =
  bs_world :: "('m, 'q, document_record list, 'r, mem_events) world"
  bs_users :: "user_record list"
  bs_audit :: "chat_audit_event list"

type_synonym ('l, 'm, 'q, 'r) server_state = "('l, mem_events, ('m, 'q, 'r) backend_state) http_state"

text \<open>The event store of \<open>app.state\<close> is the one the services record to.\<close>

definition server_world ::
  "('l, 'm, 'q, 'r) server_state \<Rightarrow> ('m, 'q, document_record list, 'r, mem_events) world" where
  "server_world s = (bs_world (hs_app s))\<lparr> w_events := hs_events s \<rparr>"

definition put_world ::
  "('m, 'q, document_record list, 'r, mem_events) world \<Rightarrow> ('l, 'm, 'q, 'r) server_state
     \<Rightarrow> ('l, 'm, 'q, 'r) server_state" where
  "put_world w s = s\<lparr> hs_events := w_events w, hs_app := (hs_app s)\<lparr> bs_world := w \<rparr> \<rparr>"

lemma server_put_world [simp]: "server_world (put_world w s) = w"
  by (simp add: server_world_def put_world_def)

section \<open>Dependencies of the endpoints\<close>

definition get_chunker :: "settings \<Rightarrow> chunker res" where
  "get_chunker s = make_chunker (cfg_chunk_max_characters s) (cfg_chunk_overlap_characters s)"

definition app_collection :: "settings \<Rightarrow> vector_store" where
  "app_collection s = \<lparr> vs_collection_name = cfg_qdrant_collection s, vs_vector_size = cfg_embedding_vector_size s \<rparr>"

definition get_qdrant_store :: "settings \<Rightarrow> 'q qdrant \<Rightarrow> 'q \<Rightarrow> vector_store \<times> 'q" where
  "get_qdrant_store s Q q =
     (let v = app_collection s in (v, ensure_collection Q v q))"

definition get_llm_client ::
  "(json \<Rightarrow> pystr) \<Rightarrow> settings \<Rightarrow> (nat \<Rightarrow> http_request \<Rightarrow> http_result) \<Rightarrow> (llm_request \<Rightarrow> llm_response res) res" where
  "get_llm_client py_str s post =
     (case get_default_llm_profile s of
        Inl e \<Rightarrow> Inl e
      | Inr profile \<Rightarrow> Inr (\<lambda>request. fst (vllm_generate py_str profile post request)))"

definition deployment_of ::
  "('m, 'q, 'r) backend \<Rightarrow> chunker \<Rightarrow> (pystr list \<Rightarrow> pyfloat list list res) \<Rightarrow> vector_store
     \<Rightarrow> ('m, 'q, 'r) deployment" where
  "deployment_of B c embed_texts v = \<lparr> dp_settings = bk_settings B, dp_minio = bk_minio B, dp_redis = bk_redis B,
     dp_qdrant = bk_qdrant B, dp_collection = v, dp_ucd = bk_ucd B, dp_guess_type = bk_guess_type B,
     dp_parsers = bk_parsers B, dp_chunker = c, dp_embed = embed_texts, dp_uuid5 = bk_uuid5 B \<rparr>"

text \<open>The embedder and the vector store, which the search and the chat take.\<close>

definition open_retrieval ::
  "('m, 'q, 'r) backend \<Rightarrow> ('l, 'm, 'q, 'r) server_state
     \<Rightarrow> ((pystr list \<Rightarrow> pyfloat list list res) \<times> vector_store) res \<times> ('l, 'm, 'q, 'r) server_state" where
  "open_retrieval B s =
     (case get_embedder (bk_settings B) (bk_sha256 B) (bk_embed_post B) of
        Inl e \<Rightarrow> (Inl e, s)
      | Inr embed_texts \<Rightarrow>
          (let w = server_world s; (v, q) = get_qdrant_store (bk_settings B) (bk_qdrant B) (w_vectors w)
           in (Inr (embed_texts, v), put_world (w\<lparr> w_vectors := q \<rparr>) s)))"

text \<open>The document service needs the pipeline, so also the chunker, which is resolved before.\<close>

definition open_documents ::
  "('m, 'q, 'r) backend \<Rightarrow> ('l, 'm, 'q, 'r) server_state
     \<Rightarrow> ('m, 'q, 'r) deployment res \<times> ('l, 'm, 'q, 'r) server_state" where
  "open_documents B s =
     (case get_chunker (bk_settings B) of
        Inl e \<Rightarrow> (Inl e, s)
      | Inr c \<Rightarrow>
          (case open_retrieval B s of
             (Inl e, s') \<Rightarrow> (Inl e, s')
           | (Inr (embed_texts, v), s') \<Rightarrow> (Inr (deployment_of B c embed_texts v), s')))"

definition auth_service_of :: "('m, 'q, 'r) backend \<Rightarrow> user_record list auth_service" where
  "auth_service_of B = \<lparr> au_settings = bk_settings B, au_store = bk_users B \<rparr>"

section \<open>Calls\<close>

record audit_query =
  aq_query :: "pystr option"
  aq_document_id :: "pystr option"
  aq_request_id :: "pystr option"
  aq_from :: "timestamp option"
  aq_to :: "timestamp option"
  aq_limit :: int

datatype api_call =
    Get_Health
  | Get_Ready
  | Get_Workspace
  | Get_Me
  | Post_Signup pystr pystr "pystr option"
  | Post_Login pystr pystr
  | Post_Document "pystr option" "pystr option" bytes pystr
  | Get_Documents int
  | Delete_Document pystr
  | Post_Reindex pystr
  | Post_Search search_request
  | Post_Chat chat_request
  | Get_Audit audit_query
  | Get_Export audit_query
  | Get_Operations

fun route :: "api_call \<Rightarrow> pystr \<times> pystr" where
  "route Get_Health = (py ''GET'', py ''/health'')"
| "route Get_Ready = (py ''GET'', py ''/ready'')"
| "route Get_Workspace = (py ''GET'', py ''/v1/workspace'')"
| "route Get_Me = (py ''GET'', py ''/v1/auth/me'')"
| "route (Post_Signup _ _ _) = (py ''POST'', py ''/v1/auth/signup'')"
| "route (Post_Login _ _) = (py ''POST'', py ''/v1/auth/login'')"
| "route (Post_Document _ _ _ _) = (py ''POST'', py ''/v1/documents'')"
| "route (Get_Documents _) = (py ''GET'', py ''/v1/documents'')"
| "route (Delete_Document i) = (py ''DELETE'', py ''/v1/documents/'' @ i)"
| "route (Post_Reindex i) = (py ''POST'', py ''/v1/documents/'' @ i @ py ''/reindex'')"
| "route (Post_Search _) = (py ''POST'', py ''/v1/search'')"
| "route (Post_Chat _) = (py ''POST'', py ''/v1/chat'')"
| "route (Get_Audit _) = (py ''GET'', py ''/v1/audit-logs/chat'')"
| "route (Get_Export _) = (py ''GET'', py ''/v1/audit-logs/chat/export'')"
| "route Get_Operations = (py ''GET'', py ''/v1/admin/operations'')"

datatype access = Public | Any_Role | Admin_Role

fun access_of :: "api_call \<Rightarrow> access" where
  "access_of Get_Health = Public"
| "access_of Get_Ready = Public"
| "access_of (Post_Signup _ _ _) = Public"
| "access_of (Post_Login _ _) = Public"
| "access_of (Get_Audit _) = Admin_Role"
| "access_of (Get_Export _) = Admin_Role"
| "access_of Get_Operations = Admin_Role"
| "access_of _ = Any_Role"

text \<open>What FastAPI checks of the arguments: the constraints of the models and the query parameters.\<close>

fun valid_call :: "api_call \<Rightarrow> bool" where
  "valid_call (Get_Documents limit) \<longleftrightarrow> 1 \<le> limit \<and> limit \<le> 200"
| "valid_call (Post_Search r) \<longleftrightarrow> valid_search_request r"
| "valid_call (Post_Chat r) \<longleftrightarrow> valid_chat_request r"
| "valid_call (Get_Audit a) \<longleftrightarrow> 1 \<le> aq_limit a \<and> aq_limit a \<le> 200"
| "valid_call (Get_Export a) \<longleftrightarrow> 1 \<le> aq_limit a \<and> aq_limit a \<le> 200"
| "valid_call _ \<longleftrightarrow> True"

datatype api_result =
    Health_Result "(pystr \<times> pystr) list"
  | Ready_Result readiness_response
  | Context_Result workspace_context
  | Auth_Result auth_response
  | Upload_Result document_metadata
  | Documents_Result "document_record list" int
  | Delete_Result delete_response
  | Reindex_Result document_record
  | Search_Result search_response
  | Chat_Result chat_response
  | Audit_Result "chat_audit_event list" int
  | Export_Result export_response
  | Operations_Result operations_status_response

section \<open>The endpoints\<close>

text \<open>An \<open>HTTPException\<close> becomes a response with its detail; another exception goes to the server.\<close>

fun exception_response :: "exn \<Rightarrow> 'b response res" where
  "exception_response (HTTPException status code message) =
     Inr \<lparr> wp_status = status, wp_headers = [], wp_body = Detail code message \<rparr>"
| "exception_response e = Inl e"

fun success_status :: "api_call \<Rightarrow> int" where
  "success_status (Post_Signup _ _ _) = 201"
| "success_status (Post_Document _ _ _ _) = 201"
| "success_status _ = 200"

fun result_headers :: "api_result \<Rightarrow> (pystr \<times> pystr) list" where
  "result_headers (Export_Result x) =
     [(py ''content-disposition'', ex_content_disposition x), (py ''content-type'', ex_media_type x)]"
| "result_headers _ = []"

definition endpoint_response :: "int \<Rightarrow> api_result res \<Rightarrow> api_result response res" where
  "endpoint_response status outcome =
     (case outcome of
        Inl e \<Rightarrow> exception_response e
      | Inr result \<Rightarrow> Inr \<lparr> wp_status = status, wp_headers = result_headers result, wp_body = Content result \<rparr>)"

definition put_users :: "user_record list \<Rightarrow> ('l, 'm, 'q, 'r) server_state \<Rightarrow> ('l, 'm, 'q, 'r) server_state" where
  "put_users users s = s\<lparr> hs_app := (hs_app s)\<lparr> bs_users := users \<rparr> \<rparr>"

definition put_audit :: "chat_audit_event list \<Rightarrow> ('l, 'm, 'q, 'r) server_state \<Rightarrow> ('l, 'm, 'q, 'r) server_state" where
  "put_audit alog s = s\<lparr> hs_app := (hs_app s)\<lparr> bs_audit := alog \<rparr> \<rparr>"

text \<open>\<open>request.state.request_context\<close>; the middleware has set it.\<close>

definition no_request_context :: exn where
  "no_request_context = AttributeError (py ''State object has no attribute request_context'')"

fun public_endpoint ::
  "('m, 'q, 'r) backend \<Rightarrow> fresh_values \<Rightarrow> api_call \<Rightarrow> ('l, 'm, 'q, 'r) server_state
     \<Rightarrow> (int \<times> api_result res) \<times> ('l, 'm, 'q, 'r) server_state" where
  "public_endpoint B f Get_Ready s =
     (let ((status, readiness), events) = ready (bk_ucd B) (bk_settings B) (bk_health B) mem_event_store (hs_events s)
      in ((status, Inr (Ready_Result readiness)), s\<lparr> hs_events := events \<rparr>))"
| "public_endpoint B f (Post_Signup employee_id password display_name) s =
     (case hs_context s of
        None \<Rightarrow> ((201, Inl no_request_context), s)
      | Some rc \<Rightarrow>
          (let (outcome, users) = signup (bk_kdf B) (tc_hmac (bk_tokens B)) (auth_service_of B) (fv_salt f) (fv_now f) rc
                 employee_id password display_name (bs_users (hs_app s))
           in ((201, map_sum id Auth_Result outcome), put_users users s)))"
| "public_endpoint B f (Post_Login employee_id password) s =
     (case hs_context s of
        None \<Rightarrow> ((200, Inl no_request_context), s)
      | Some rc \<Rightarrow>
          ((200, map_sum id Auth_Result (login (bk_kdf B) (tc_hmac (bk_tokens B)) (auth_service_of B) (fv_now f) rc
             employee_id password (bs_users (hs_app s)))), s))"
| "public_endpoint B f _ s = ((200, Inr (Health_Result health)), s)"

definition document_endpoint ::
  "('m, 'q, 'r) backend
     \<Rightarrow> (('m, 'q, 'r) deployment \<Rightarrow> ('m, 'q, document_record list, 'r, mem_events) world
          \<Rightarrow> api_result res \<times> ('m, 'q, document_record list, 'r, mem_events) world)
     \<Rightarrow> ('l, 'm, 'q, 'r) server_state \<Rightarrow> api_result res \<times> ('l, 'm, 'q, 'r) server_state" where
  "document_endpoint B handler s =
     (case open_documents B s of
        (Inl e, s') \<Rightarrow> (Inl e, s')
      | (Inr D, s') \<Rightarrow> (let (outcome, w) = handler D (server_world s') in (outcome, put_world w s')))"

definition search_endpoint ::
  "('m, 'q, 'r) backend \<Rightarrow> workspace_context \<Rightarrow> search_request \<Rightarrow> ('l, 'm, 'q, 'r) server_state
     \<Rightarrow> search_response res \<times> ('l, 'm, 'q, 'r) server_state" where
  "search_endpoint B ctx r s =
     (case open_retrieval B s of
        (Inl e, s') \<Rightarrow> (Inl e, s')
      | (Inr (embed_texts, v), s') \<Rightarrow>
          (search_documents (build_retriever (bk_ucd B) (bk_settings B) embed_texts (bk_qdrant B) v
             (w_vectors (server_world s'))) ctx r, s'))"

definition chat_endpoint ::
  "('m, 'q, 'r) backend \<Rightarrow> stamp \<Rightarrow> workspace_context \<Rightarrow> chat_request \<Rightarrow> ('l, 'm, 'q, 'r) server_state
     \<Rightarrow> chat_response res \<times> ('l, 'm, 'q, 'r) server_state" where
  "chat_endpoint B stamp ctx r s =
     (case open_retrieval B s of
        (Inl e, s') \<Rightarrow> (Inl e, s')
      | (Inr (embed_texts, v), s') \<Rightarrow>
     (case get_reranker (bk_settings B) (bk_rerank_post B) of
        Inl e \<Rightarrow> (Inl e, s')
      | Inr rerank \<Rightarrow>
     (case get_llm_client (bk_py_str B) (bk_settings B) (bk_llm_post B) of
        Inl e \<Rightarrow> (Inl e, s')
      | Inr generate \<Rightarrow>
          (let retrieve = build_retriever (bk_ucd B) (bk_settings B) embed_texts (bk_qdrant B) v
                 (w_vectors (server_world s'));
               service = make_chat_service (bk_settings B) retrieve rerank generate
                 (create_audit_log_store (bk_ucd B) (bk_settings B));
               (outcome, alog) = answer_question (bk_ucd B) service stamp ctx r (bs_audit (hs_app s'))
           in (outcome, put_audit alog s')))))"

fun workspace_endpoint ::
  "('m, 'q, 'r) backend \<Rightarrow> fresh_values \<Rightarrow> workspace_context \<Rightarrow> api_call \<Rightarrow> ('l, 'm, 'q, 'r) server_state
     \<Rightarrow> api_result res \<times> ('l, 'm, 'q, 'r) server_state" where
  "workspace_endpoint B f ctx (Post_Document filename content_type data level) s =
     document_endpoint B (\<lambda>D w. map_prod (map_sum id Upload_Result) id (upload_handler (bk_ucd B) (bk_guess_type B)
       (service_of D) (fv_ids f) (fv_now f) ctx filename content_type data level w)) s"
| "workspace_endpoint B f ctx (Get_Documents limit) s =
     (map_sum id (\<lambda>(ds, number). Documents_Result ds number) (list_documents_handler
       (create_document_metadata_store (bk_settings B)) ctx limit (w_documents (server_world s))), s)"
| "workspace_endpoint B f ctx (Delete_Document i) s =
     document_endpoint B (\<lambda>D w. map_prod (map_sum id Delete_Result) id (delete_handler (service_of D) ctx i w)) s"
| "workspace_endpoint B f ctx (Post_Reindex i) s =
     document_endpoint B (\<lambda>D w. map_prod (map_sum id Reindex_Result) id (reindex_handler (bk_guess_type B)
       (service_of D) (up_job_id (fv_ids f)) ctx i w)) s"
| "workspace_endpoint B f ctx (Post_Search r) s = map_prod (map_sum id Search_Result) id (search_endpoint B ctx r s)"
| "workspace_endpoint B f ctx (Post_Chat r) s =
     map_prod (map_sum id Chat_Result) id (chat_endpoint B (fv_stamp f) ctx r s)"
| "workspace_endpoint B f ctx (Get_Audit a) s =
     (case list_chat_audit_events (create_audit_log_store (bk_ucd B) (bk_settings B)) ctx (aq_query a)
          (aq_document_id a) (aq_request_id a) (aq_from a) (aq_to a) (aq_limit a) (bs_audit (hs_app s)) of
        (events, number) \<Rightarrow> (Inr (Audit_Result events number), s))"
| "workspace_endpoint B f ctx (Get_Export a) s =
     (map_sum id Export_Result (export_chat_audit_events (create_audit_log_store (bk_ucd B) (bk_settings B)) (fv_now f)
       ctx (aq_query a) (aq_document_id a) (aq_request_id a) (aq_from a) (aq_to a) (aq_limit a)
       (bs_audit (hs_app s))), s)"
| "workspace_endpoint B f ctx Get_Operations s =
     (let (overview, w) = get_operations_status (bk_ucd B) (bk_settings B) (bk_health B) (bk_redis B) mem_event_store
            ctx (server_world s)
      in (Inr (Operations_Result overview), put_world w s))"
| "workspace_endpoint B f ctx _ s = (Inr (Context_Result (me ctx)), s)"

section \<open>The application\<close>

definition serve ::
  "('m, 'q, 'r) backend \<Rightarrow> fresh_values \<Rightarrow> api_call \<Rightarrow> (api_result, ('l, 'm, 'q, 'r) server_state) app" where
  "serve B f c r s =
     (if access_of c = Public
      then (let ((status, outcome), s') = public_endpoint B f c s in (endpoint_response status outcome, s'))
      else case hs_context s of
        None \<Rightarrow> (Inl no_request_context, s)
      | Some rc \<Rightarrow>
          (let (credentials, rc') = require_workspace_context (bk_tokens B) (bk_settings B) (fv_now f) r rc;
               s1 = s\<lparr> hs_context := Some rc' \<rparr> in
           case (case credentials of
               Inl e \<Rightarrow> Inl e
             | Inr ctx \<Rightarrow> if access_of c = Admin_Role then require_admin_workspace_context ctx else Inr ctx) of
             Inl e \<Rightarrow> (exception_response e, s1)
           | Inr ctx \<Rightarrow>
               (let (outcome, s') = workspace_endpoint B f ctx c s1
                in (endpoint_response (success_status c) outcome, s'))))"

definition backend_app ::
  "('m, 'q, 'r) backend \<Rightarrow> 'l limiter_check \<Rightarrow> pyfloat \<Rightarrow> pystr \<Rightarrow> pystr \<Rightarrow> fresh_values \<Rightarrow> api_call
     \<Rightarrow> (api_result, ('l, 'm, 'q, 'r) server_state) app" where
  "backend_app B check clock member uuid_hex f c =
     middleware_stack (bk_ucd B) (bk_settings B) check (Some mem_event_store) clock member uuid_hex (serve B f c)"

end
