(* ===== verification/Backend_Guarantees.thy ===== *)
theory Backend_Guarantees
  imports Backend
begin

text \<open>
  The guards of the application: without credentials that permit the call no handler of a protected
  endpoint runs. The lemmas give the outcomes of the middlewares and of \<open>serve\<close>, by cases.
\<close>

section \<open>The guards\<close>

lemma exception_response_Inr:
  "exception_response e = Inr p \<longleftrightarrow> (\<exists>status code m. e = HTTPException status code m \<and>
     p = \<lparr> wp_status = status, wp_headers = [], wp_body = Detail code m \<rparr>)"
  by (cases e) auto

lemma find_api_key_Inl: "find_api_key ks k = Inl e \<Longrightarrow> \<exists>m. e = TypeError m"
  by (induction ks k rule: find_api_key.induct) (auto simp: compare_digest_def split: sum.splits if_splits)

lemma parse_api_keys_Inl: "parse_api_keys raw = Inl e \<Longrightarrow> \<exists>m. e = ValueError m"
proof -
  have one: "\<exists>m. e = ValueError m" if "parse_api_key entry = Inl e" for entry e
    using that by (auto simp: parse_api_key_def Let_def bad_api_keys_def split: if_splits)
  have "\<exists>m. e = ValueError m" if "parse_api_keys_loop records entries = Inl e" for records entries
    using that one
    by (induction records entries rule: parse_api_keys_loop.induct) (auto split: sum.splits option.splits)
  then show "parse_api_keys raw = Inl e \<Longrightarrow> ?thesis" by (simp add: parse_api_keys_def)
qed

lemma validate_api_key_Inl: "validate_api_key s k = Inl e \<Longrightarrow> e \<noteq> HTTPException a b m"
  using parse_api_keys_Inl find_api_key_Inl by (fastforce simp: validate_api_key_def split: sum.splits)

text \<open>A request without valid credentials is answered with status 401 or fails with an exception.\<close>

lemma require_context_Inl:
  assumes "require_workspace_context T s now r rc = (Inl e, rc')"
  shows "rc' = rc" and "exception_response e = Inr p \<Longrightarrow> wp_status p = 401"
proof -
  show "rc' = rc" using assms
    by (auto simp: require_workspace_context_def require_bearer_token_def Let_def
        split: if_splits option.splits sum.splits prod.splits)
  assume "exception_response e = Inr p"
  then obtain status code m where e: "e = HTTPException status code m" and p: "wp_status p = status"
    by (auto simp: exception_response_Inr)
  from assms validate_api_key_Inl have "status = 401" unfolding e
    by (fastforce simp: require_workspace_context_def require_bearer_token_def Let_def auth_error_def
        split: if_splits option.splits sum.splits prod.splits)
  with p show "wp_status p = 401" by simp
qed

lemma require_context_request_id:
  "rc_request_id (snd (require_workspace_context T s now r rc)) = rc_request_id rc"
  by (auto simp: require_workspace_context_def require_bearer_token_def context_from_api_key_def
      context_from_user_def Let_def split: if_splits option.splits sum.splits prod.splits)

section \<open>The endpoints keep the request's context\<close>

lemma put_frames [simp]:
  "hs_context (put_world w s) = hs_context s" "hs_context (put_users us s) = hs_context s"
  "hs_context (put_audit al s) = hs_context s"
  by (simp_all add: put_world_def put_users_def put_audit_def)

lemma open_retrieval_context: "open_retrieval B s = (x, s') \<Longrightarrow> hs_context s' = hs_context s"
  by (auto simp: open_retrieval_def Let_def split: sum.splits prod.splits)

lemma open_documents_context: "open_documents B s = (x, s') \<Longrightarrow> hs_context s' = hs_context s"
  by (auto simp: open_documents_def dest: open_retrieval_context split: sum.splits prod.splits)

lemma document_endpoint_context: "document_endpoint B h s = (x, s') \<Longrightarrow> hs_context s' = hs_context s"
  by (auto simp: document_endpoint_def Let_def dest: open_documents_context split: sum.splits prod.splits)

lemma workspace_endpoint_context: "hs_context (snd (workspace_endpoint B f ctx c s)) = hs_context s"
proof (cases c)
  case (Post_Search r)
  then show ?thesis
    by (auto simp: search_endpoint_def dest: open_retrieval_context split: sum.split prod.split)
next
  case (Post_Chat r)
  then show ?thesis
    by (auto simp: chat_endpoint_def Let_def dest: open_retrieval_context split: sum.split prod.split)
qed (auto simp: document_endpoint_context Let_def list_chat_audit_events_def get_operations_status_def
    intro: document_endpoint_context [OF surjective_pairing] split: prod.split)

lemma public_endpoint_context: "hs_context (snd (public_endpoint B f c s)) = hs_context s"
  by (cases c) (auto split: option.split prod.split)

lemma serve_keeps_request_id:
  fixes B :: "('m, 'q, 'r) backend"
  shows "keeps_request_id (serve B f c :: (api_result, ('l, 'm, 'q, 'r) server_state) app)"
  unfolding keeps_request_id_def
proof (intro allI)
  fix r and s :: "('l, 'm, 'q, 'r) server_state"
  show "map_option rc_request_id (hs_context (snd (serve B f c r s))) = map_option rc_request_id (hs_context s)"
  proof (cases "access_of c = Public")
    case True
    then show ?thesis using public_endpoint_context [of B f c s]
      by (auto simp: serve_def Let_def split: prod.split)
  next
    case False
    show ?thesis
    proof (cases "hs_context s")
      case (Some rc)
      obtain cr rc' where rq: "require_workspace_context (bk_tokens B) (bk_settings B) (fv_now f) r rc = (cr, rc')" by fastforce
      with require_context_request_id [of "bk_tokens B" "bk_settings B" "fv_now f" r rc] have id: "rc_request_id rc' = rc_request_id rc" by simp
      have w: "hs_context (snd (workspace_endpoint B f ctx c (s\<lparr> hs_context := Some rc' \<rparr>))) = Some rc'" for ctx
        by (simp add: workspace_endpoint_context)
      show ?thesis using False Some rq id w
        by (auto simp: serve_def Let_def case_prod_unfold split: sum.split)
    qed (use False in \<open>simp add: serve_def\<close>)
  qed
qed


section \<open>The middlewares around the endpoints\<close>

definition initial_context :: "pystr \<Rightarrow> request_context_state" where
  "initial_context uuid_hex = \<lparr> rc_request_id = py ''req_'' @ uuid_hex, rc_workspace_id = None, rc_workspace_name = None \<rparr>"

text \<open>The limiter refuses the request, or answers what the routers answer, but for headers.\<close>

lemma limiter_outcome:
  assumes "rate_limit_middleware U settings check est now m routers r s = (x, s')"
  obtains (refused) "hs_app s' = hs_app s"
      "\<And>p. x = Inr p \<Longrightarrow> wp_status p \<in> {429, 503} \<and> (\<exists>code message. wp_body p = Detail code message)"
  | (served) s0 y where "hs_app s0 = hs_app s" "hs_context s0 = hs_context s" "routers r s0 = (y, s')"
      "\<And>p. x = Inr p \<Longrightarrow> \<exists>p0. y = Inr p0 \<and> wp_status p = wp_status p0 \<and> wp_body p = wp_body p0"
proof (cases "\<not> cfg_rate_limit_enabled settings \<or> \<not> startswith (py ''/v1/'') (wr_path r)")
  case True
  with assms that(2) [of s x] show ?thesis by (auto simp: rate_limit_middleware_def)
next
  case False
  obtain d l where d: "check now m (bucket_key U r) (hs_limiter s) = (d, l)" by fastforce
  let ?s = "s\<lparr> hs_limiter := l \<rparr>"
  show ?thesis
  proof (cases d)
    case (Inr decision)
    show ?thesis
    proof (cases "rd_allowed decision")
      case True
      obtain y s1 where "routers r ?s = (y, s1)" by fastforce
      with True Inr d False assms that(2) [of ?s y] show ?thesis
        by (auto simp: rate_limit_middleware_def apply_headers_def split: sum.splits)
    next
      case no: False
      with Inr d False assms that(1) show ?thesis
        by (auto simp: rate_limit_middleware_def rate_limit_exceeded_def apply_headers_def)
    qed
  next
    case (Inl e)
    show ?thesis
    proof (cases "\<exists>message. e = RateLimitBackendUnavailable message")
      case True
      then obtain message where e: "e = RateLimitBackendUnavailable message" by blast
      let ?s1 = "record_backend_unavailable est r message ?s"
      obtain y s1 where "routers r ?s1 = (y, s1)" by fastforce
      with e Inl d False assms that(1) that(2) [of ?s1 y] show ?thesis
        by (auto simp: rate_limit_middleware_def Let_def rate_limit_backend_unavailable_def split: sum.splits if_splits)
    next
      case no: False
      with Inl d False assms that(1) show ?thesis
        by (cases e) (auto simp: rate_limit_middleware_def)
    qed
  qed
qed

lemma stack_outcome:
  assumes "middleware_stack U settings check est now m uuid_hex routers r s = (x, s')"
  obtains (refused) "hs_app s' = hs_app s"
      "\<And>p. x = Inr p \<Longrightarrow> wp_status p \<in> {429, 503} \<and> (\<exists>code message. wp_body p = Detail code message)"
  | (served) s0 y where "hs_app s0 = hs_app s" "hs_context s0 = Some (initial_context uuid_hex)" "routers r s0 = (y, s')"
      "\<And>p. x = Inr p \<Longrightarrow> \<exists>p0. y = Inr p0 \<and> wp_status p = wp_status p0 \<and> wp_body p = wp_body p0"
proof -
  let ?s = "s\<lparr> hs_context := Some (initial_context uuid_hex) \<rparr>"
  obtain y1 s1 where lim: "rate_limit_middleware U settings check est now m routers r ?s = (y1, s1)" by fastforce
  with assms have x: "\<exists>p1. y1 = Inr p1 \<and> wp_status p = wp_status p1 \<and> wp_body p = wp_body p1" if "x = Inr p" for p
    using that by (auto simp: middleware_stack_def request_context_middleware_def security_headers_middleware_def
        initial_context_def split: sum.splits option.splits)
  have state: "s1 = s'" using assms lim
    by (auto simp: middleware_stack_def request_context_middleware_def security_headers_middleware_def
        initial_context_def split: sum.splits option.splits)
  from lim [unfolded state] show ?thesis
  proof (cases rule: limiter_outcome)
    case refused
    with x that(1) show ?thesis by fastforce
  next
    case (served s0 y)
    with x that(2) [of s0 y] show ?thesis by fastforce
  qed
qed


lemma app_outcome:
  assumes "backend_app B check clock m uuid_hex f c r s = (x, s')"
  obtains (refused) "hs_app s' = hs_app s"
      "\<And>p. x = Inr p \<Longrightarrow> wp_status p \<in> {429, 503} \<and> (\<exists>code message. wp_body p = Detail code message)"
  | (served) s0 y where "hs_app s0 = hs_app s" "hs_context s0 = Some (initial_context uuid_hex)" "serve B f c r s0 = (y, s')"
      "\<And>p. x = Inr p \<Longrightarrow> \<exists>p0. y = Inr p0 \<and> wp_status p = wp_status p0 \<and> wp_body p = wp_body p0"
  using assms [unfolded backend_app_def]
proof (cases rule: stack_outcome)
  case refused
  from refused show ?thesis by (rule that(1))
next
  case (served s0 y)
  from served show ?thesis by (rule that(2))
qed

section \<open>Guarded endpoints\<close>

definition credentials ::
  "('m, 'q, 'r) backend \<Rightarrow> fresh_values \<Rightarrow> pystr \<Rightarrow> request \<Rightarrow> workspace_context option" where
  "credentials B f uuid_hex r =
     (case fst (require_workspace_context (bk_tokens B) (bk_settings B) (fv_now f) r (initial_context uuid_hex)) of
        Inl _ \<Rightarrow> None | Inr ctx \<Rightarrow> Some ctx)"

definition permitted :: "api_call \<Rightarrow> workspace_context \<Rightarrow> bool" where
  "permitted c ctx \<longleftrightarrow> access_of c \<noteq> Admin_Role \<or> wc_role ctx = ADMIN_ROLE"

text \<open>What a guarded endpoint does with and without a context that permits the call.\<close>

lemma serve_refused:
  assumes "access_of c \<noteq> Public" "hs_context s = Some (initial_context uuid_hex)"
    and "\<forall>ctx. credentials B f uuid_hex r = Some ctx \<longrightarrow> \<not> permitted c ctx"
    and "serve B f c r s = (y, s')"
  shows "hs_app s' = hs_app s"
    and "y = Inr p \<Longrightarrow> wp_status p = (if credentials B f uuid_hex r = None then 401 else 403)
      \<and> (\<exists>code message. wp_body p = Detail code message)"
proof -
  obtain cr rc where rq: "require_workspace_context (bk_tokens B) (bk_settings B) (fv_now f) r (initial_context uuid_hex) = (cr, rc)"
    by fastforce
  have both: "hs_app s' = hs_app s \<and> (\<forall>p. y = Inr p \<longrightarrow> wp_status p = (if credentials B f uuid_hex r = None then 401 else 403)
      \<and> (\<exists>code message. wp_body p = Detail code message))"
  proof (cases cr)
    case (Inl e)
    with assms rq require_context_Inl(2) [OF rq [unfolded Inl]] show ?thesis
      by (auto simp: serve_def credentials_def exception_response_Inr)
  next
    case (Inr ctx)
    with assms(3) rq have "access_of c = Admin_Role" "wc_role ctx \<noteq> ADMIN_ROLE"
      by (simp_all add: credentials_def permitted_def)
    with assms rq Inr show ?thesis
      by (auto simp: serve_def credentials_def require_admin_workspace_context_def)
  qed
  then show "hs_app s' = hs_app s" by blast
  from both show "y = Inr p \<Longrightarrow> wp_status p = (if credentials B f uuid_hex r = None then 401 else 403)
      \<and> (\<exists>code message. wp_body p = Detail code message)" by blast
qed

lemma serve_permitted:
  assumes "access_of c \<noteq> Public" "hs_context s = Some (initial_context uuid_hex)"
    and "credentials B f uuid_hex r = Some ctx" "permitted c ctx"
    and "serve B f c r s = (y, s')"
  obtains rc outcome where "workspace_endpoint B f ctx c (s\<lparr> hs_context := Some rc \<rparr>) = (outcome, s')"
    and "y = endpoint_response (success_status c) outcome"
proof -
  obtain cr rc where rq: "require_workspace_context (bk_tokens B) (bk_settings B) (fv_now f) r (initial_context uuid_hex) = (cr, rc)"
    by fastforce
  with assms(3) have cr: "cr = Inr ctx" by (auto simp: credentials_def split: sum.splits)
  have "(if access_of c = Admin_Role then require_admin_workspace_context ctx else Inr ctx) = Inr ctx"
    using assms(4) by (auto simp: permitted_def require_admin_workspace_context_def)
  with assms(1,2,5) rq cr that show ?thesis by (auto simp: serve_def split: prod.splits)
qed

text \<open>
  C12: the endpoints are guarded. A request to an endpoint other than the health checks, the signup and
  the login that carries no valid credentials, or none of an administrator where one is required,
  leaves the stored documents, jobs, users and audit events as they are. It is answered with status
  401 or 403, unless the limiter answers in their place, and the answer is an error detail.
\<close>

theorem endpoints_guarded:
  assumes "backend_app B check clock m uuid_hex f c r s = (x, s')" "access_of c \<noteq> Public"
    and "\<forall>ctx. credentials B f uuid_hex r = Some ctx \<longrightarrow> \<not> permitted c ctx"
  shows "hs_app s' = hs_app s \<and> (case x of Inl _ \<Rightarrow> True | Inr p \<Rightarrow>
    wp_status p \<in> {429, 503, if credentials B f uuid_hex r = None then 401 else 403}
      \<and> (\<exists>code message. wp_body p = Detail code message))"
  using assms(1)
proof (cases rule: app_outcome)
  case refused
  then show ?thesis by (cases x) auto
next
  case (served s0 y)
  note out = serve_refused [OF assms(2) served(2) assms(3) served(3)]
  from served out show ?thesis by (cases x) fastforce+
qed

section \<open>A sample application\<close>

definition sample_settings :: settings where
  "sample_settings = default_settings\<lparr> cfg_api_keys := py ''k|w|W'', cfg_embedding_backend := py ''bge'',
     cfg_embedding_vector_size := 1 \<rparr>"

text \<open>An embedding server that has one vector for the one text it is asked about.\<close>

definition sample_embedding :: "http_request \<Rightarrow> http_result" where
  "sample_embedding request = HttpResponse \<lparr> rs_status_code = 200,
     rs_json = Some (JObj [(py ''data'', JList [JObj [(py ''index'', JInt 0), (py ''embedding'', JList [JInt 1])]])]),
     rs_text = [] \<rparr>"

text \<open>A model server that answers every request with a cited sentence.\<close>

definition sample_llm :: "nat \<Rightarrow> http_request \<Rightarrow> http_result" where
  "sample_llm n request = HttpResponse \<lparr> rs_status_code = 200,
     rs_json = Some (JObj [(py ''choices'', JList [JObj [(py ''message'',
       JObj [(py ''content'', JStr (py ''Paris [1]''))])]])]), rs_text = [] \<rparr>"

definition no_probe :: probe where
  "no_probe s t = Inl (ExternalError (py ''refused''))"

definition sample_backend :: "(pystr \<rightharpoonup> bytes, point list, pystr list) backend" where
  "sample_backend = \<lparr> bk_settings = sample_settings, bk_minio = map_minio, bk_redis = list_redis,
     bk_qdrant = list_qdrant, bk_ucd = ascii_ucd, bk_guess_type = (\<lambda>_. None),
     bk_parsers = default_registry ascii_ucd (\<lambda>_. None) (\<lambda>_. DocxUnreadable), bk_uuid5 = (\<lambda>t. t),
     bk_sha256 = (\<lambda>b. b), bk_embed_post = sample_embedding, bk_rerank_post = (\<lambda>_. HttpError []),
     bk_llm_post = sample_llm, bk_py_str = (\<lambda>_. []),
     bk_tokens = \<lparr> tc_hmac = (\<lambda>k m. []), tc_repr = (\<lambda>_. []), tc_wide = (\<lambda>_. Inl (ValueError [])), tc_ucd = ascii_ucd \<rparr>,
     bk_kdf = (\<lambda>p s. []),
     bk_users = mem_user_store, bk_health = \<lparr> hc_postgres_probe = no_probe, hc_qdrant_probe = no_probe, hc_minio_probe = no_probe,
       hc_vllm_probe = no_probe, hc_redis_probe = no_probe, hc_embedding_probe = no_probe, hc_reranker_probe = no_probe \<rparr> \<rparr>"

definition sample_fresh :: "string \<Rightarrow> fresh_values" where
  "sample_fresh i = \<lparr> fv_ids = \<lparr> up_document_id = py i, up_job_id = py ''j'' @ py i \<rparr>, fv_now = 0, fv_salt = py ''0a'',
     fv_stamp = (py ''e'', 0) \<rparr>"

definition sample_call :: "api_call \<Rightarrow> request" where
  "sample_call c = \<lparr> wr_method = fst (route c), wr_path = snd (route c),
     wr_headers = [(py ''x-api-key'', py ''k'')], wr_client = None \<rparr>"

definition sample_file :: api_call where
  "sample_file = Post_Document (Some (py ''a.txt'')) None (py ''ab cd ef'') (py ''internal'')"

definition open_check :: "unit limiter_check" where
  "open_check now member key s = (Inr \<lparr> rd_allowed = True, rd_limit = 1, rd_remaining = 0,
     rd_retry_after_seconds = 0, rd_reset_after_seconds = 0 \<rparr>, s)"

definition sample_server :: "(unit, pystr \<rightharpoonup> bytes, point list, pystr list) server_state" where
  "sample_server = \<lparr> hs_context = None, hs_limiter = (), hs_events = new_event_store 200,
     hs_app = \<lparr> bs_world = sample_empty_world, bs_users = [], bs_audit = [] \<rparr> \<rparr>"

text \<open>Without a key a deletion is refused.\<close>

definition anonymous_request :: request where
  "anonymous_request = \<lparr> wr_method = py ''DELETE'', wr_path = py ''/v1/documents/d'', wr_headers = [], wr_client = None \<rparr>"

definition sample_refusal where
  "sample_refusal = backend_app sample_backend open_check 0 [] (py ''2'') (sample_fresh ''e'') (Delete_Document (py ''d''))
     anonymous_request sample_server"

theorem endpoints_guarded_witness:
  "\<exists>p. fst sample_refusal = Inr p \<and> wp_status p \<in> {429, 503, 401} \<and> hs_app (snd sample_refusal) = hs_app sample_server"
proof -
  have none: "credentials sample_backend (sample_fresh ''e'') (py ''2'') anonymous_request = None" by code_simp
  have "map_sum (\<lambda>_. ()) wp_status (fst sample_refusal) = Inr 401" by code_simp
  from map_sum_InrD [OF this] obtain p where p: "fst sample_refusal = Inr p" by blast
  then have "backend_app sample_backend open_check 0 [] (py ''2'') (sample_fresh ''e'') (Delete_Document (py ''d''))
     anonymous_request sample_server = (Inr p, snd sample_refusal)" unfolding sample_refusal_def by (simp add: prod_eq_iff)
  from endpoints_guarded [OF this] none p show ?thesis by simp
qed

end
