(* ===== verification/Histories.thy ===== *)
theory Histories
  imports Backend_Guarantees
begin

text \<open>
  Histories of the application: sequences of HTTP requests and rounds of the worker process, and how
  an invariant of the world is proved for them. The locale \<open>endpoint_invariant\<close> asks that each operation
  on the world keeps it and concludes that every request does; it is interpreted for \<open>behind\<close>, the
  worlds the step relation of \<open>System.thy\<close> reaches. An invariant whose steps rely on that is a
  \<open>history_invariant\<close>.
\<close>

section \<open>Histories\<close>

text \<open>The deployment the dependencies of the endpoints build, or the error they fail with.\<close>

definition backend_deployment :: "('m, 'q, 'r) backend \<Rightarrow> ('m, 'q, 'r) deployment res" where
  "backend_deployment B =
     (case get_chunker (bk_settings B) of
        Inl e \<Rightarrow> Inl e
      | Inr c \<Rightarrow>
     (case get_embedder (bk_settings B) (bk_sha256 B) (bk_embed_post B) of
        Inl e \<Rightarrow> Inl e
      | Inr embed_texts \<Rightarrow> Inr (deployment_of B c embed_texts (app_collection (bk_settings B)))))"

text \<open>A state of the system between requests: no upload is under way.\<close>

definition idle_system ::
  "('m, 'q, document_record list, 'r, mem_events) world \<Rightarrow> pystr set \<Rightarrow> ('m, 'q, 'r) system" where
  "idle_system w used = \<lparr> sy_world = w, sy_uploads = [], sy_used = used \<rparr>"

text \<open>
  A request that FastAPI lets through to an endpoint, and what it is relied on for: its texts and the
  caller's identity are of Unicode scalar values, and \<open>uuid4\<close> gave a document identifier that no earlier request got.
\<close>

definition optional_text_ok :: "pystr option \<Rightarrow> bool" where
  "optional_text_ok x = (case x of None \<Rightarrow> True | Some t \<Rightarrow> text_ok t)"

fun call_texts_ok :: "api_call \<Rightarrow> bool" where
  "call_texts_ok (Post_Document filename content_type _ _) \<longleftrightarrow> optional_text_ok filename \<and> optional_text_ok content_type"
| "call_texts_ok _ \<longleftrightarrow> True"

definition request_ok ::
  "('m, 'q, 'r) backend \<Rightarrow> fresh_values \<Rightarrow> pystr \<Rightarrow> api_call \<Rightarrow> request \<Rightarrow> pystr set \<Rightarrow> bool" where
  "request_ok B f uuid_hex c r used \<longleftrightarrow> route c = (wr_method r, wr_path r) \<and> valid_call c \<and>
     (case credentials B f uuid_hex r of None \<Rightarrow> True | Some ctx \<Rightarrow> context_ok ctx) \<and> call_texts_ok c
     \<and> ids_ok (fv_ids f) \<and> up_document_id (fv_ids f) \<notin> used"

text \<open>Histories of the application: requests, in any order, and rounds of the worker process.\<close>

inductive backend_run ::
  "('m, 'q, 'r) backend \<Rightarrow> ('m, 'q, 'r) deployment \<Rightarrow> 'l limiter_check \<Rightarrow> ('l, 'm, 'q, 'r) server_state
     \<Rightarrow> pystr set \<Rightarrow> bool"
  for B :: "('m, 'q, 'r) backend" and D :: "('m, 'q, 'r) deployment" and check :: "'l limiter_check" where
  Empty: "empty_system D (idle_system (bs_world (hs_app s)) {}) \<Longrightarrow> backend_run B D check s {}"
| Request:
    "backend_run B D check s used \<Longrightarrow> request_ok B f uuid_hex c r used \<Longrightarrow>
     backend_app B check clock member uuid_hex f c r s = (x, s') \<Longrightarrow>
     backend_run B D check s' (insert (up_document_id (fv_ids f)) used)"
| Worker_Round:
    "backend_run B D check s used \<Longrightarrow> cfg_indexing_queue_backend (bk_settings B) = py ''redis'' \<Longrightarrow>
     worker_round D own_events t (bs_world (hs_app s)) = (result, w') \<Longrightarrow>
     backend_run B D check (s\<lparr> hs_app := (hs_app s)\<lparr> bs_world := w' \<rparr> \<rparr>) used"

lemma upload_dispatch_Inl: "upload_dispatch U g sv ids ctx fn ct data level w = (Inl e, w') \<Longrightarrow> w' = w"
  by (simp add: upload_dispatch_def Let_def split: sum.splits prod.splits)

text \<open>What a request for an upload does: nothing, or a dispatch and then the record.\<close>

lemma upload_handlerE:
  assumes "upload_handler U g sv ids now ctx filename content_type data l w = (result, w')"
    and "optional_text_ok filename" "optional_text_ok content_type"
  obtains (nothing) "w' = w"
  | (dispatched) fn ct level response w1 where "text_ok fn" "text_ok ct"
      "validate_document_security_level l = Inr level"
      "ensure_document_security_level_allowed (wc_role ctx) level = Inr ()"
      "upload_dispatch U g sv ids ctx fn ct data level w = (Inr response, w1)" "w' = upload_record sv now response w1"
proof (cases "w' = w")
  case False
  let ?fn = "if truthy filename then the filename else py ''document''"
  let ?ct = "if truthy content_type then the content_type else py ''application/octet-stream''"
  have "text_ok (py ''document'')" "text_ok (py ''application/octet-stream'')" by code_simp+
  then have texts: "text_ok ?fn" "text_ok ?ct"
    using assms(2,3) by (auto simp: optional_text_ok_def split: option.splits)
  from assms(1) False obtain level where level: "validate_document_security_level l = Inr level"
    by (cases "validate_document_security_level l") (simp_all add: upload_handler_def)
  with assms(1) False have allowed: "ensure_document_security_level_allowed (wc_role ctx) level = Inr ()"
    by (cases "ensure_document_security_level_allowed (wc_role ctx) level") (simp_all add: upload_handler_def)
  obtain x w1 where dispatch: "upload_dispatch U g sv ids ctx ?fn ?ct data level w = (x, w1)" by fastforce
  with assms(1) level allowed have outcome: "w' = (case x of Inl e \<Rightarrow> w1 | Inr response \<Rightarrow> upload_record sv now response w1)"
    by (cases x) (auto simp: upload_handler_def upload_document_def)
  with False dispatch upload_dispatch_Inl obtain response where x: "x = Inr response" by (cases x) fastforce+
  from outcome x have "w' = upload_record sv now response w1" by simp
  with dispatched [OF texts level allowed] dispatch x show ?thesis by blast
qed (rule nothing)

section \<open>The parts of the application\<close>

abbreviation world_of :: "('l, 'm, 'q, 'r) server_state \<Rightarrow> ('m, 'q, document_record list, 'r, mem_events) world" where
  "world_of s \<equiv> bs_world (hs_app s)"

lemma world_of_puts [simp]:
  "world_of (put_world w s) = w" "world_of (put_users us s) = world_of s" "world_of (put_audit al s) = world_of s"
  by (simp_all add: put_world_def put_users_def put_audit_def)

lemma backend_deployment_fields:
  assumes "backend_deployment B = Inr D"
  shows "dp_settings D = bk_settings B" "dp_ucd D = bk_ucd B" "dp_guess_type D = bk_guess_type B"
    "dp_qdrant D = bk_qdrant B" "dp_collection D = app_collection (bk_settings B)" "dp_redis D = bk_redis B"
    "dp_minio D = bk_minio B" "dp_uuid5 D = bk_uuid5 B"
    "get_embedder (bk_settings B) (bk_sha256 B) (bk_embed_post B) = Inr (dp_embed D)"
  using assms by (auto simp: backend_deployment_def deployment_of_def split: sum.splits)

lemma open_retrieval_Inr:
  assumes "backend_deployment B = Inr D"
  obtains s1 where "open_retrieval B s = (Inr (dp_embed D, dp_collection D), s1)"
    "hs_context s1 = hs_context s" "hs_app s1 = (hs_app s)\<lparr> bs_world := server_world s1 \<rparr>"
    "server_world s1 = (server_world s)\<lparr> w_vectors := ensure_collection (dp_qdrant D) (dp_collection D) (w_vectors (server_world s)) \<rparr>"
  using that by (simp add: open_retrieval_def get_qdrant_store_def Let_def backend_deployment_fields [OF assms])
    (simp add: put_world_def server_world_def)

lemma open_documents_Inr:
  assumes "backend_deployment B = Inr D"
  shows "open_documents B s = (Inr D, snd (open_retrieval B s))"
  using assms by (auto simp: open_documents_def open_retrieval_def get_qdrant_store_def backend_deployment_def Let_def
      split: sum.splits)

lemma public_endpoint_world:
  "world_of (snd (public_endpoint B f c s)) = world_of s"
  by (cases c) (auto split: option.split prod.split)

section \<open>Invariants of the endpoints\<close>

text \<open>
  A property of the world and the identifiers handed out that every operation behind the endpoints
  and every round of the worker process keeps.
\<close>

locale endpoint_invariant =
  fixes D :: "('m, 'q, 'r) deployment"
    and J :: "('m, 'q, document_record list, 'r, mem_events) world \<Rightarrow> pystr set \<Rightarrow> bool"
  assumes start: "empty_system D (idle_system w {}) \<Longrightarrow> J w {}"
    and mono: "J w used \<Longrightarrow> used \<subseteq> used' \<Longrightarrow> J w used'"
    and events: "J w used \<Longrightarrow> J (w\<lparr> w_events := e \<rparr>) used"
    and collection: "J w used \<Longrightarrow>
      J (w\<lparr> w_vectors := ensure_collection (dp_qdrant D) (dp_collection D) (w_vectors w) \<rparr>) used"
    and work: "J w used \<Longrightarrow> cfg_indexing_queue_backend (dp_settings D) = py ''redis'' \<Longrightarrow>
      worker_round D own_events t w = (result, w') \<Longrightarrow> J w' used"
    and delete: "J w used \<Longrightarrow> delete_handler (service_of D) ctx i w = (deleted, w') \<Longrightarrow> J w' used"
    and reindex: "J w used \<Longrightarrow> context_ok ctx \<Longrightarrow> text_ok jid \<Longrightarrow>
      reindex_handler (dp_guess_type D) (service_of D) jid ctx i w = (reindexed, w') \<Longrightarrow> J w' used"
    and upload: "J w used \<Longrightarrow> context_ok ctx \<Longrightarrow> ids_ok ids \<Longrightarrow> up_document_id ids \<notin> used \<Longrightarrow>
      optional_text_ok filename \<Longrightarrow> optional_text_ok content_type \<Longrightarrow>
      upload_handler (dp_ucd D) (dp_guess_type D) (service_of D) ids now ctx filename content_type data l w
        = (uploaded, w') \<Longrightarrow> J w' (insert (up_document_id ids) used)"
begin

lemma server: "J (world_of s) used \<Longrightarrow> J (server_world s) used"
  by (simp add: server_world_def events)

lemma open_retrieval:
  assumes "backend_deployment B = Inr D" "J (world_of s) used" "open_retrieval B s = (x, s')"
  shows "J (world_of s') used"
proof -
  obtain s1 where "open_retrieval B s = (Inr (dp_embed D, dp_collection D), s1)"
    "hs_app s1 = (hs_app s)\<lparr> bs_world := server_world s1 \<rparr>"
    "server_world s1 = (server_world s)\<lparr> w_vectors := ensure_collection (dp_qdrant D) (dp_collection D) (w_vectors (server_world s)) \<rparr>"
    using assms(1) by (rule open_retrieval_Inr)
  with assms(3) collection [OF server [OF assms(2)]] show ?thesis by simp
qed

lemma document_endpoint:
  assumes "backend_deployment B = Inr D" "J (world_of s) used"
    and "\<And>w. J w used \<Longrightarrow> J (snd (h D w)) used'"
  shows "J (world_of (snd (document_endpoint B h s))) used'"
proof -
  obtain x s1 where s1: "open_retrieval B s = (x, s1)" by fastforce
  from server [OF open_retrieval [OF assms(1,2) s1]] assms(3)
  have "J (snd (h D (server_world s1))) used'" by simp
  with s1 show ?thesis
    by (simp add: document_endpoint_def open_documents_Inr [OF assms(1)] case_prod_unfold Let_def)
qed

lemma search_endpoint:
  assumes "backend_deployment B = Inr D" "J (world_of s) used"
  shows "J (world_of (snd (search_endpoint B ctx r s))) used"
proof -
  obtain x s1 where s1: "open_retrieval B s = (x, s1)" by fastforce
  with open_retrieval [OF assms s1] show ?thesis by (simp add: search_endpoint_def split: sum.split prod.split)
qed

lemma chat_endpoint:
  assumes "backend_deployment B = Inr D" "J (world_of s) used"
  shows "J (world_of (snd (chat_endpoint B stamp ctx r s))) used"
proof -
  obtain x s1 where s1: "open_retrieval B s = (x, s1)" by fastforce
  with open_retrieval [OF assms s1] show ?thesis
    by (simp add: chat_endpoint_def Let_def split: sum.split prod.split)
qed

lemma workspace_endpoint:
  assumes B: "backend_deployment B = Inr D" and s: "J (world_of s) used"
    and "context_ok ctx" "call_texts_ok c" "ids_ok (fv_ids f)" "up_document_id (fv_ids f) \<notin> used"
  shows "J (world_of (snd (workspace_endpoint B f ctx c s))) (insert (up_document_id (fv_ids f)) used)"
proof -
  note keep = mono [OF _ subset_insertI]
  note fields = backend_deployment_fields [OF B]
  show ?thesis
  proof (cases c)
    case (Post_Document filename content_type data l)
    have "J (snd (upload_handler (bk_ucd B) (bk_guess_type B) (service_of D) (fv_ids f) (fv_now f) ctx
        filename content_type data l w)) (insert (up_document_id (fv_ids f)) used)" if "J w used" for w
      using upload [OF that assms(3,5,6) _ _ surjective_pairing] assms(4) Post_Document by (simp add: fields)
    then show ?thesis unfolding Post_Document workspace_endpoint.simps
      by (intro document_endpoint [OF B s]) auto
  next
    case (Delete_Document i)
    show ?thesis unfolding Delete_Document workspace_endpoint.simps
      by (intro keep document_endpoint [OF B s]) (auto intro: delete [OF _ surjective_pairing])
  next
    case (Post_Reindex i)
    have "J (snd (reindex_handler (bk_guess_type B) (service_of D) (up_job_id (fv_ids f)) ctx i w)) used"
      if "J w used" for w
      using reindex [OF that assms(3) _ surjective_pairing] assms(5) by (auto simp: fields ids_ok_def)
    then show ?thesis unfolding Post_Reindex workspace_endpoint.simps
      by (intro keep document_endpoint [OF B s]) auto
  next
    case (Post_Search r)
    with search_endpoint [OF B s] show ?thesis by (auto intro: keep)
  next
    case (Post_Chat r)
    with chat_endpoint [OF B s, of "fv_stamp f"] show ?thesis by (auto intro: keep)
  next
    case Get_Operations
    with events [OF server [OF s]] show ?thesis
      by (auto simp: get_operations_status_def Let_def intro: keep)
  qed (use s in \<open>auto intro: keep split: prod.split\<close>)
qed


lemma app:
  assumes B: "backend_deployment B = Inr D" and s: "J (world_of s) used"
    and ok: "request_ok B f uuid_hex c r used"
    and run: "backend_app B check clock member uuid_hex f c r s = (x, s')"
  shows "J (world_of s') (insert (up_document_id (fv_ids f)) used)"
proof -
  note keep = mono [OF s subset_insertI]
  from run show ?thesis
  proof (cases rule: app_outcome)
    case refused
    with keep show ?thesis by simp
  next
    case (served s0 y)
    show ?thesis
    proof (cases "access_of c = Public")
      case True
      with served(3) public_endpoint_world [of B f c s0] have "world_of s' = world_of s0"
        by (auto simp: serve_def split: prod.splits)
      with served(1) keep show ?thesis by simp
    next
      case guarded: False
      show ?thesis
      proof (cases "\<exists>ctx. credentials B f uuid_hex r = Some ctx \<and> permitted c ctx")
        case False
        with serve_refused(1) [OF guarded served(2) _ served(3)] served(1) keep show ?thesis by auto
      next
        case True
        then obtain ctx where ctx: "credentials B f uuid_hex r = Some ctx" "permitted c ctx" by blast
        obtain rc outcome where run: "workspace_endpoint B f ctx c (s0\<lparr> hs_context := Some rc \<rparr>) = (outcome, s')"
          by (rule serve_permitted [OF guarded served(2) ctx served(3)])
        have "J (world_of (s0\<lparr> hs_context := Some rc \<rparr>)) used" using s served(1) by simp
        from workspace_endpoint [OF B this, of ctx c f] ok ctx(1) run show ?thesis
          by (simp add: request_ok_def)
      qed
    qed
  qed
qed

lemma run:
  assumes "backend_deployment B = Inr D" "backend_run B D check s used"
  shows "J (world_of s) used"
  using assms(2)
proof induction
  case (Empty s)
  then show ?case by (rule start)
next
  case (Request s used f uuid_hex c r clock member x s')
  with assms(1) app show ?case by blast
next
  case (Worker_Round s used own_events t result w')
  with work [of _ used own_events t result w'] backend_deployment_fields(1) [OF assms(1)] show ?case by simp
qed

end

text \<open>The state behind the endpoints is one the system reaches.\<close>

definition behind :: "('m, 'q, 'r) deployment \<Rightarrow> ('m, 'q, document_record list, 'r, mem_events) world \<Rightarrow> pystr set \<Rightarrow> bool" where
  "behind D w used \<longleftrightarrow> (\<exists>u \<subseteq> used. reachable D (idle_system w u))"

lemma behind_start: "empty_system D (idle_system w {}) \<Longrightarrow> behind D w {}"
  by (auto simp: behind_def intro: reachable.Start)

lemma behind_mono: "behind D w used \<Longrightarrow> used \<subseteq> used' \<Longrightarrow> behind D w used'"
  unfolding behind_def by blast

lemma behind_step:
  assumes "behind D w used" "\<And>u. system_step D (idle_system w u) (idle_system w' u)"
  shows "behind D w' used"
  using assms reachable.Step unfolding behind_def by blast

lemma behind_events: "behind D w used \<Longrightarrow> behind D (w\<lparr> w_events := e \<rparr>) used"
  using system_step.Record_Events [of D "idle_system w _" e] by (auto intro: behind_step simp: idle_system_def)

lemma behind_open:
  "behind D w used \<Longrightarrow> behind D (w\<lparr> w_vectors := ensure_collection (dp_qdrant D) (dp_collection D) (w_vectors w) \<rparr>) used"
  using system_step.Open_Store [of D "idle_system w _"] by (auto intro: behind_step simp: idle_system_def)

lemma behind_work:
  "behind D w used \<Longrightarrow> cfg_indexing_queue_backend (dp_settings D) = py ''redis'' \<Longrightarrow>
     worker_round D own_events t w = (result, w') \<Longrightarrow> behind D w' used"
  using system_step.Work [of D own_events t "idle_system w _" result w'] by (auto intro: behind_step simp: idle_system_def)

lemma behind_delete:
  "behind D w used \<Longrightarrow> delete_handler (service_of D) ctx i w = (result, w') \<Longrightarrow> behind D w' used"
  using system_step.Delete [of D ctx i "idle_system w _" result w'] by (auto intro: behind_step simp: idle_system_def)

lemma behind_reindex:
  "behind D w used \<Longrightarrow> context_ok ctx \<Longrightarrow> text_ok jid \<Longrightarrow>
     reindex_handler (dp_guess_type D) (service_of D) jid ctx i w = (result, w') \<Longrightarrow> behind D w' used"
  using system_step.Reindex [of ctx jid D i "idle_system w _" result w'] by (auto intro: behind_step simp: idle_system_def)

text \<open>An upload takes two steps, or none.\<close>

lemma behind_upload:
  assumes "behind D w used" "context_ok ctx" "ids_ok ids" "up_document_id ids \<notin> used"
    and "optional_text_ok filename" "optional_text_ok content_type"
    and "upload_handler (dp_ucd D) (dp_guess_type D) (service_of D) ids now ctx filename content_type data l w = (result, w')"
  shows "behind D w' (insert (up_document_id ids) used)"
  using assms(7,5,6)
proof (cases rule: upload_handlerE)
  case nothing
  with assms(1) show ?thesis by (auto intro: behind_mono)
next
  case (dispatched fn ct level response w1)
  from assms(1) obtain u where u: "u \<subseteq> used" "reachable D (idle_system w u)" by (auto simp: behind_def)
  let ?y = "\<lparr> sy_world = w1, sy_uploads = [response], sy_used = insert (up_document_id ids) u \<rparr>"
  have "system_step D (idle_system w u) ?y"
    using system_step.Upload_Dispatch [OF assms(2,3) _ dispatched(1-4), of "idle_system w u" D data response w1] dispatched(5) u(1) assms(4)
    by (auto simp: idle_system_def)
  moreover have "system_step D ?y (idle_system w' (insert (up_document_id ids) u))"
    using system_step.Upload_Record [of response ?y D now] by (simp add: idle_system_def dispatched(6))
  ultimately have "reachable D (idle_system w' (insert (up_document_id ids) u))"
    using u(2) by (blast intro: reachable.Step)
  with u(1) show ?thesis unfolding behind_def by blast
qed

interpretation behind: endpoint_invariant D "behind D" for D :: "('m, 'q, 'r) deployment"
  by unfold_locales (blast intro: behind_start behind_mono behind_events behind_open behind_work
      behind_delete behind_reindex behind_upload)+

text \<open>
  An invariant of the worlds behind the endpoints. The steps may use that the system reaches the
  world; \<open>ok\<close> is what is relied on.
\<close>

locale history_invariant =
  fixes D :: "('m, 'q, 'r) deployment" and ok :: bool
    and I :: "('m, 'q, document_record list, 'r, mem_events) world \<Rightarrow> bool"
  assumes start: "ok \<Longrightarrow> empty_system D (idle_system w {}) \<Longrightarrow> I w"
    and events: "ok \<Longrightarrow> I w \<Longrightarrow> I (w\<lparr> w_events := e \<rparr>)"
    and collection: "ok \<Longrightarrow> I w \<Longrightarrow>
      I (w\<lparr> w_vectors := ensure_collection (dp_qdrant D) (dp_collection D) (w_vectors w) \<rparr>)"
    and work: "ok \<Longrightarrow> behind D w used \<Longrightarrow> I w \<Longrightarrow> cfg_indexing_queue_backend (dp_settings D) = py ''redis'' \<Longrightarrow>
      worker_round D own_events t w = (result, w') \<Longrightarrow> I w'"
    and delete: "ok \<Longrightarrow> behind D w used \<Longrightarrow> I w \<Longrightarrow> delete_handler (service_of D) ctx i w = (deleted, w') \<Longrightarrow> I w'"
    and reindex: "ok \<Longrightarrow> behind D w used \<Longrightarrow> I w \<Longrightarrow> context_ok ctx \<Longrightarrow> text_ok jid \<Longrightarrow>
      reindex_handler (dp_guess_type D) (service_of D) jid ctx i w = (reindexed, w') \<Longrightarrow> I w'"
    and upload: "ok \<Longrightarrow> behind D w used \<Longrightarrow> I w \<Longrightarrow> context_ok ctx \<Longrightarrow> ids_ok ids \<Longrightarrow>
      up_document_id ids \<notin> used \<Longrightarrow> text_ok fn \<Longrightarrow> text_ok ct \<Longrightarrow>
      validate_document_security_level l = Inr level \<Longrightarrow>
      upload_dispatch (dp_ucd D) (dp_guess_type D) (service_of D) ids ctx fn ct data level w = (Inr response, w1) \<Longrightarrow>
      I (upload_record (service_of D) now response w1)"

sublocale history_invariant \<subseteq> both: endpoint_invariant D "\<lambda>w used. behind D w used \<and> (ok \<longrightarrow> I w)"
proof (unfold_locales, goal_cases)
  case (1 w)
  then show ?case using behind.start start by blast
next
  case (2 w used used')
  then show ?case using behind_mono by blast
next
  case (3 w used e)
  then show ?case using behind_events events by blast
next
  case (4 w used)
  then show ?case using behind_open collection by blast
next
  case (5 w used own_events t result w')
  then show ?case using behind_work work by blast
next
  case (6 w used ctx i deleted w')
  then show ?case using behind_delete delete by blast
next
  case (7 w used ctx jid i reindexed w')
  then show ?case using behind_reindex reindex by blast
next
  case (8 w used ctx ids filename content_type now data l uploaded w')
  then have "behind D w' (insert (up_document_id ids) used)" using behind_upload by blast
  moreover have "I w'" if ok
    using 8(7,5,6)
  proof (cases rule: upload_handlerE)
    case nothing
    with 8(1) that show ?thesis by simp
  next
    case (dispatched fn ct level response w1)
    with 8 that upload [of w used ctx ids fn ct l level data response w1 now] show ?thesis by simp
  qed
  ultimately show ?case by simp
qed

section \<open>Sample deployments\<close>

text \<open>The sample backend under any settings of its queue and its stores.\<close>

lemma sample_backend_parts:
  assumes "backend_deployment (sample_backend\<lparr> bk_settings := s \<rparr>) = Inr D"
    and "1 \<le> cfg_indexing_queue_max_attempts s" "cfg_indexing_queue_max_attempts s \<le> 10 ^ 100"
  shows "deployment_ok D" and "qdrant_reads_ok (dp_qdrant D)" and "redis_live (dp_redis D)"
    and "empty_system D (idle_system (world_of sample_server) {})"
proof -
  note fields = backend_deployment_fields [OF assms(1)]
  show "deployment_ok D" using assms(2,3)
    by (simp add: deployment_ok_def fields sample_backend_def map_minio_ok list_redis_ok list_qdrant_writes
        list_qdrant_create identity_ids_distinct ascii_content_types)
  show "qdrant_reads_ok (dp_qdrant D)" "redis_live (dp_redis D)"
    by (simp_all add: fields sample_backend_def list_qdrant_reads list_redis_live)
  show "empty_system D (idle_system (world_of sample_server) {})"
    by (simp add: empty_system_def idle_system_def sample_server_def sample_empty_world_def points_of_def jobs_of_def
        queued_def create_redis_job_queue_def fields) (simp add: sample_backend_def list_qdrant_def list_redis_def)
qed

end
