(* ===== verification/Backend_Refinement.thy ===== *)
theory Backend_Refinement
  imports Histories
begin

text \<open>
  Every history of requests and worker rounds is a run of \<open>System.thy\<close>, so the invariant of the system
  holds behind the HTTP interface, and what a search or a chat answer shows over HTTP is what the
  recorded metadata permits.
\<close>

section \<open>The application refines the system\<close>



lemma search_endpoint_Inr:
  assumes "backend_deployment B = Inr D" "search_endpoint B ctx r s = (Inr response, s')"
  shows "search_documents (build_retriever (dp_ucd D) (dp_settings D) (dp_embed D) (dp_qdrant D) (dp_collection D)
    (w_vectors (world_of s'))) ctx r = Inr response" and "w_documents (world_of s') = w_documents (world_of s)"
proof -
  obtain s1 where s1: "open_retrieval B s = (Inr (dp_embed D, dp_collection D), s1)"
    "hs_app s1 = (hs_app s)\<lparr> bs_world := server_world s1 \<rparr>"
    "server_world s1 = (server_world s)\<lparr> w_vectors := ensure_collection (dp_qdrant D) (dp_collection D) (w_vectors (server_world s)) \<rparr>"
    using assms(1) by (rule open_retrieval_Inr)
  have "world_of s1 = server_world s1" using s1(2) by (metis backend_state.select_convs(1) backend_state.surjective backend_state.update_convs(1))
  with s1 assms(2) show "search_documents (build_retriever (dp_ucd D) (dp_settings D) (dp_embed D) (dp_qdrant D) (dp_collection D)
    (w_vectors (world_of s'))) ctx r = Inr response" "w_documents (world_of s') = w_documents (world_of s)"
    by (simp_all add: search_endpoint_def backend_deployment_fields [OF assms(1)]) (simp add: server_world_def)
qed

definition shown_level :: "('m, 'q, 'r) backend \<Rightarrow> pystr \<Rightarrow> pystr \<Rightarrow> ('l, 'm, 'q, 'r) server_state \<Rightarrow> pystr option" where
  "shown_level B v i s = map_option dm_security_level
     (ds_get (create_document_metadata_store (bk_settings B)) v i (w_documents (world_of s)))"

lemma idle_recorded_level:
  assumes "dp_settings D = bk_settings B"
  shows "recorded_level D (idle_system (world_of s) u) v i = shown_level B v i s"
  by (auto simp: recorded_level_def idle_system_def shown_level_def assms split: option.split)

text \<open>A protected endpoint answers with content only for permitted credentials.\<close>

lemma app_content:
  assumes "backend_app B check clock member uuid_hex f c r s = (Inr p, s')" "wp_body p = Content result"
    and "access_of c \<noteq> Public"
  obtains ctx s0 where "credentials B f uuid_hex r = Some ctx" "permitted c ctx" "hs_app s0 = hs_app s"
    "workspace_endpoint B f ctx c s0 = (Inr result, s')"
  using assms(1)
proof (cases rule: app_outcome)
  case refused
  with assms(2) show ?thesis by auto
next
  case (served s0 y)
  from served(4) assms(2) obtain p0 where p0: "y = Inr p0" "wp_body p0 = Content result" by auto
  show ?thesis
  proof (cases "\<exists>ctx. credentials B f uuid_hex r = Some ctx \<and> permitted c ctx")
    case False
    with serve_refused(2) [OF assms(3) served(2) _ served(3) p0(1)] p0(2) show ?thesis by auto
  next
    case True
    then obtain ctx where ctx: "credentials B f uuid_hex r = Some ctx" "permitted c ctx" by blast
    obtain rc outcome where run: "workspace_endpoint B f ctx c (s0\<lparr> hs_context := Some rc \<rparr>) = (outcome, s')"
      and y: "y = endpoint_response (success_status c) outcome"
      by (rule serve_permitted [OF assms(3) served(2) ctx served(3)])
    from y p0 have "outcome = Inr result"
      by (auto simp: endpoint_response_def exception_response_Inr split: sum.splits dest!: sym [of "Inr p0"])
    with run served(1) that [OF ctx, of "s0\<lparr> hs_context := Some rc \<rparr>"] show ?thesis by simp
  qed
qed

lemma map_prod_sum_Inr: "map_prod (map_sum id F) id z = (Inr y, s) \<Longrightarrow> \<exists>x. z = (Inr x, s) \<and> y = F x"
  by (cases z; cases "fst z") auto

text \<open>
  C7: what a search over HTTP shows. After every history of the application, each result of a search
  shows a document whose metadata is recorded in the workspace of the caller's credentials, with the
  recorded level, and that level is one the role of the credentials may read.
\<close>

theorem search_over_http:
  assumes "deployment_ok D" "qdrant_reads_ok (dp_qdrant D)" "backend_deployment B = Inr D"
    and "backend_run B D check s used" "request_ok B f uuid_hex (Post_Search q) r used"
    and "backend_app B check clock member uuid_hex f (Post_Search q) r s = (Inr p, s')"
    and "wp_body p = Content (Search_Result response)" "x \<in> set (sp_results response)"
  shows "\<exists>ctx. credentials B f uuid_hex r = Some ctx
    \<and> shown_level B (wc_workspace_id ctx) (sc_document_id x) s = Some (sc_security_level x)
    \<and> (wc_role ctx = ADMIN_ROLE \<or> sc_security_level x \<in> {GENERAL_SECURITY_LEVEL, INTERNAL_SECURITY_LEVEL})"
proof -
  from assms(6,7) obtain ctx s0 where ctx: "credentials B f uuid_hex r = Some ctx" and s0: "hs_app s0 = hs_app s"
    and run: "workspace_endpoint B f ctx (Post_Search q) s0 = (Inr (Search_Result response), s')"
    by (rule app_content) simp_all
  from map_prod_sum_Inr [OF run [unfolded workspace_endpoint.simps]]
  have e: "search_endpoint B ctx q s0 = (Inr response, s')" by simp
  note found = search_endpoint_Inr [OF assms(3) e]
  from behind.app [OF assms(3) behind.run [OF assms(3,4)] assms(5,6)]
  obtain u where u: "reachable D (idle_system (world_of s') u)" by (auto simp: behind_def)
  have "shown_level B v i s' = shown_level B v i s" for v i using found(2) s0 by (simp add: shown_level_def)
  moreover have "valid_search_request q" using assms(5) by (simp add: request_ok_def)
  moreover have "search_documents (build_retriever (dp_ucd D) (dp_settings D) (dp_embed D) (dp_qdrant D) (dp_collection D)
    (w_vectors (sy_world (idle_system (world_of s') u)))) ctx q = Inr response" using found(1) by (simp add: idle_system_def)
  ultimately show ?thesis
    using search_level [OF assms(1,2) u, of q ctx response x] assms(8) ctx
    by (simp add: idle_recorded_level backend_deployment_fields [OF assms(3)])
qed

lemma chat_endpoint_Inr:
  assumes "backend_deployment B = Inr D" "chat_endpoint B stamp ctx r s = (Inr response, s')"
  obtains generate sv alog where
    "app_chat_service (dp_ucd D) (dp_settings D) (dp_embed D) (dp_qdrant D) (dp_collection D)
       (w_vectors (world_of s')) (bk_rerank_post B) generate = Inr sv"
    "answer_question (dp_ucd D) sv stamp ctx r (bs_audit (hs_app s)) = (Inr response, alog)"
    and "w_documents (world_of s') = w_documents (world_of s)"
proof -
  obtain s1 where s1: "open_retrieval B s = (Inr (dp_embed D, dp_collection D), s1)"
    "hs_app s1 = (hs_app s)\<lparr> bs_world := server_world s1 \<rparr>"
    "server_world s1 = (server_world s)\<lparr> w_vectors := ensure_collection (dp_qdrant D) (dp_collection D) (w_vectors (server_world s)) \<rparr>"
    using assms(1) by (rule open_retrieval_Inr)
  have world: "world_of s1 = server_world s1" and audit: "bs_audit (hs_app s1) = bs_audit (hs_app s)"
    by (subst s1(2), simp)+
  have doc: "w_documents (server_world s1) = w_documents (world_of s)"
    unfolding s1(3) by (simp add: server_world_def)
  from assms(2) obtain rerank generate where
    rerank: "get_reranker (bk_settings B) (bk_rerank_post B) = Inr rerank"
    and llm: "get_llm_client (bk_py_str B) (bk_settings B) (bk_llm_post B) = Inr generate"
    by (cases "get_reranker (bk_settings B) (bk_rerank_post B)";
        cases "get_llm_client (bk_py_str B) (bk_settings B) (bk_llm_post B)") (simp_all add: chat_endpoint_def s1(1))
  let ?sv = "make_chat_service (bk_settings B) (build_retriever (bk_ucd B) (bk_settings B) (dp_embed D) (bk_qdrant B)
    (dp_collection D) (w_vectors (server_world s1))) rerank generate (create_audit_log_store (bk_ucd B) (bk_settings B))"
  obtain outcome alog where answer: "answer_question (bk_ucd B) ?sv stamp ctx r (bs_audit (hs_app s)) = (outcome, alog)" by fastforce
  note fields = backend_deployment_fields [OF assms(1)]
  from assms(2) answer have out: "outcome = Inr response" "s' = put_audit alog s1"
    by (simp_all add: chat_endpoint_def s1(1) rerank llm Let_def fields audit)
  have "app_chat_service (dp_ucd D) (dp_settings D) (dp_embed D) (dp_qdrant D) (dp_collection D)
      (w_vectors (world_of s')) (bk_rerank_post B) generate = Inr ?sv"
    by (simp add: app_chat_service_def get_chat_service_def fields rerank out(2) world)
  then show ?thesis
    by (rule that) (use answer doc out world in \<open>simp_all add: fields\<close>)
qed

text \<open>
  C8: what a chat answer over HTTP cites. After every history of the application, and whatever the
  reranker and the language model answer, each citation names a document whose metadata is recorded
  in the workspace of the caller's credentials, with the recorded level, and that level is one the
  role of the credentials may read.
\<close>

theorem chat_over_http:
  assumes "deployment_ok D" "qdrant_reads_ok (dp_qdrant D)" "backend_deployment B = Inr D"
    and "backend_run B D check s used" "request_ok B f uuid_hex (Post_Chat q) r used"
    and "backend_app B check clock member uuid_hex f (Post_Chat q) r s = (Inr p, s')"
    and "wp_body p = Content (Chat_Result response)" "c \<in> set (cs_citations response)"
  shows "\<exists>ctx. credentials B f uuid_hex r = Some ctx
    \<and> shown_level B (wc_workspace_id ctx) (cc_document_id c) s = Some (cc_security_level c)
    \<and> (wc_role ctx = ADMIN_ROLE \<or> cc_security_level c \<in> {GENERAL_SECURITY_LEVEL, INTERNAL_SECURITY_LEVEL})"
proof -
  from assms(6,7) obtain ctx s0 where ctx: "credentials B f uuid_hex r = Some ctx" and s0: "hs_app s0 = hs_app s"
    and run: "workspace_endpoint B f ctx (Post_Chat q) s0 = (Inr (Chat_Result response), s')"
    by (rule app_content) simp_all
  from map_prod_sum_Inr [OF run [unfolded workspace_endpoint.simps]]
  have e: "chat_endpoint B (fv_stamp f) ctx q s0 = (Inr response, s')" by simp
  obtain generate sv alog where
    sv: "app_chat_service (dp_ucd D) (dp_settings D) (dp_embed D) (dp_qdrant D) (dp_collection D)
       (w_vectors (world_of s')) (bk_rerank_post B) generate = Inr sv"
    and answer: "answer_question (dp_ucd D) sv (fv_stamp f) ctx q (bs_audit (hs_app s0)) = (Inr response, alog)"
    and doc: "w_documents (world_of s') = w_documents (world_of s0)"
    by (rule chat_endpoint_Inr [OF assms(3) e])
  from behind.app [OF assms(3) behind.run [OF assms(3,4)] assms(5,6)]
  obtain u where u: "reachable D (idle_system (world_of s') u)" by (auto simp: behind_def)
  have same: "shown_level B v i s' = shown_level B v i s" for v i using doc s0 by (simp add: shown_level_def)
  from answer obtain levels where
    levels: "filter_document_security_levels_for_role (wc_role ctx) (cq_security_levels q) = Inr levels"
    and response: "answer_response (dp_ucd D) sv ctx (q\<lparr> cq_security_levels := levels \<rparr>) = Inr response"
    by (rule answer_question_Inr)
  from sv have retrieve: "sv_retrieve sv = build_retriever (dp_ucd D) (dp_settings D) (dp_embed D) (dp_qdrant D)
      (dp_collection D) (w_vectors (sy_world (idle_system (world_of s') u)))"
    by (auto simp: app_chat_service_def get_chat_service_def idle_system_def split: sum.splits)
  from chat_parts.citation_retrieved [OF app_chat_service_parts(1) [OF sv] response assms(8)]
  obtain x chunks k where c: "c = build_citation (cc_citation_id c) x" and k: "0 \<le> k" and x: "rk_chunk x \<in> set chunks"
    and chunks: "sv_retrieve sv (cq_question q) (request_filter ctx (q\<lparr> cq_security_levels := levels \<rparr>)) k = Inr chunks"
    by auto
  from c have fields: "cc_document_id c = ch_document_id (rk_chunk x)" "cc_security_level c = ch_security_level (rk_chunk x)"
    by (metis build_citation_def chat_citation.select_convs(2), metis build_citation_def chat_citation.select_convs(4))
  note level = retrieved_level [OF assms(1,2) u k chunks [unfolded retrieve] x]
  then have "wc_role ctx = ADMIN_ROLE \<or> cc_security_level c \<in> {GENERAL_SECURITY_LEVEL, INTERNAL_SECURITY_LEVEL}"
    using filter_levels_let_through [OF levels, of "cc_security_level c"]
    by (auto simp: chunk_within_def request_filter_def fields)
  with level(1) ctx same show ?thesis
    by (simp add: request_filter_def fields idle_recorded_level backend_deployment_fields [OF assms(3)])
qed

section \<open>A sample history\<close>

definition sample_post where
  "sample_post = backend_app sample_backend open_check 0 [] (py ''1'') (sample_fresh ''d'')
     sample_file (sample_call sample_file) sample_server"

definition sample_answer_to where
  "sample_answer_to c = backend_app sample_backend open_check 0 [] (py ''2'') (sample_fresh ''e'') c
     (sample_call c) (snd sample_post)"

lemma sample_post_result:
  "map_prod (map_sum (\<lambda>_. ()) wp_status) (\<lambda>s. (length (w_documents (world_of s)), length (w_vectors (world_of s)))) sample_post
     = (Inr 201, 1, 1)"
  by code_simp

definition sample_query :: search_request where
  "sample_query = \<lparr> sq_query = py ''capital?'', sq_document_ids = None, sq_security_levels = None, sq_limit = 5 \<rparr>"

fun found_documents :: "api_result body \<Rightarrow> (pystr \<times> pystr) list option" where
  "found_documents (Content (Search_Result r)) = Some (map (\<lambda>x. (sc_document_id x, sc_security_level x)) (sp_results r))"
| "found_documents _ = None"

fun cited_documents :: "api_result body \<Rightarrow> (pystr \<times> pystr) list option" where
  "cited_documents (Content (Chat_Result r)) = Some (map (\<lambda>x. (cc_document_id x, cc_security_level x)) (cs_citations r))"
| "cited_documents _ = None"

lemma found_documents_Some: "found_documents b = Some l \<Longrightarrow> \<exists>r. b = Content (Search_Result r)
    \<and> map (\<lambda>x. (sc_document_id x, sc_security_level x)) (sp_results r) = l"
  by (cases b rule: found_documents.cases) auto

lemma cited_documents_Some: "cited_documents b = Some l \<Longrightarrow> \<exists>r. b = Content (Chat_Result r)
    \<and> map (\<lambda>x. (cc_document_id x, cc_security_level x)) (cs_citations r) = l"
  by (cases b rule: cited_documents.cases) auto

lemma sample_search_result:
  "map_sum (\<lambda>_. ()) (\<lambda>p. (wp_status p, found_documents (wp_body p))) (fst (sample_answer_to (Post_Search sample_query)))
     = Inr (200, Some [(py ''d'', py ''internal'')])"
  by code_simp

definition sample_question :: chat_request where
  "sample_question = \<lparr> cq_question = py ''capital?'', cq_document_ids = None, cq_security_levels = None, cq_top_k = None \<rparr>"

lemma sample_chat_result:
  "map_sum (\<lambda>_. ()) (\<lambda>p. (wp_status p, cited_documents (wp_body p))) (fst (sample_answer_to (Post_Chat sample_question)))
     = Inr (200, Some [(py ''d'', py ''internal'')])"
  by code_simp


lemma sample_requests_ok:
  "request_ok sample_backend (sample_fresh ''d'') (py ''1'') sample_file (sample_call sample_file) {}"
  "request_ok sample_backend (sample_fresh ''e'') (py ''2'') (Post_Search sample_query) (sample_call (Post_Search sample_query)) {py ''d''}"
  "request_ok sample_backend (sample_fresh ''e'') (py ''2'') (Post_Chat sample_question) (sample_call (Post_Chat sample_question)) {py ''d''}"
  by code_simp+

lemma sample_backend_deployment:
  obtains D where "backend_deployment sample_backend = Inr D" "deployment_ok D" "qdrant_reads_ok (dp_qdrant D)"
    "backend_run sample_backend D open_check (snd sample_post) {py ''d''}"
proof -
  have "map_sum (\<lambda>_. ()) (\<lambda>_. ()) (backend_deployment sample_backend) = Inr ()" by code_simp
  then obtain D where D: "backend_deployment sample_backend = Inr D" by (cases "backend_deployment sample_backend") auto
  then have D': "backend_deployment (sample_backend\<lparr> bk_settings := sample_settings \<rparr>) = Inr D"
    by (simp add: sample_backend_def)
  have "1 \<le> cfg_indexing_queue_max_attempts sample_settings" "cfg_indexing_queue_max_attempts sample_settings \<le> 10 ^ 100"
    by (simp_all add: sample_settings_def default_settings_def)
  note parts = sample_backend_parts [OF D' this]
  from parts(4) have "backend_run sample_backend D open_check sample_server {}" by (rule backend_run.Empty)
  from backend_run.Request [OF this sample_requests_ok(1) surjective_pairing]
  have "backend_run sample_backend D open_check (snd sample_post) {py ''d''}"
    unfolding sample_post_def by (simp add: sample_fresh_def)
  from that [OF D parts(1,2) this] show ?thesis .
qed


theorem search_over_http_witness:
  "\<exists>p response x. fst (sample_answer_to (Post_Search sample_query)) = Inr p \<and> wp_body p = Content (Search_Result response)
     \<and> sp_results response = [x] \<and> sc_document_id x = py ''d''
     \<and> (\<exists>ctx. credentials sample_backend (sample_fresh ''e'') (py ''2'') (sample_call (Post_Search sample_query)) = Some ctx
          \<and> shown_level sample_backend (wc_workspace_id ctx) (py ''d'') (snd sample_post) = Some (py ''internal''))"
proof -
  obtain D where D: "backend_deployment sample_backend = Inr D" "deployment_ok D" "qdrant_reads_ok (dp_qdrant D)"
    "backend_run sample_backend D open_check (snd sample_post) {py ''d''}" by (rule sample_backend_deployment)
  from map_sum_InrD [OF sample_search_result] obtain p where p: "fst (sample_answer_to (Post_Search sample_query)) = Inr p"
    "found_documents (wp_body p) = Some [(py ''d'', py ''internal'')]" by auto
  from found_documents_Some [OF p(2)] obtain response x where body: "wp_body p = Content (Search_Result response)"
    and x: "sp_results response = [x]" "sc_document_id x = py ''d''" "sc_security_level x = py ''internal''" by auto
  have run: "backend_app sample_backend open_check 0 [] (py ''2'') (sample_fresh ''e'') (Post_Search sample_query) (sample_call (Post_Search sample_query))
    (snd sample_post) = (Inr p, snd (sample_answer_to (Post_Search sample_query)))"
    using p(1) unfolding sample_answer_to_def by (simp add: prod_eq_iff)
  from search_over_http [OF D(2,3,1,4) sample_requests_ok(2) run body, of x] p(1) body x show ?thesis by auto
qed

theorem chat_over_http_witness:
  "\<exists>p response c. fst (sample_answer_to (Post_Chat sample_question)) = Inr p \<and> wp_body p = Content (Chat_Result response)
     \<and> cs_citations response = [c] \<and> cc_document_id c = py ''d''
     \<and> (\<exists>ctx. credentials sample_backend (sample_fresh ''e'') (py ''2'') (sample_call (Post_Chat sample_question)) = Some ctx
          \<and> shown_level sample_backend (wc_workspace_id ctx) (py ''d'') (snd sample_post) = Some (py ''internal''))"
proof -
  obtain D where D: "backend_deployment sample_backend = Inr D" "deployment_ok D" "qdrant_reads_ok (dp_qdrant D)"
    "backend_run sample_backend D open_check (snd sample_post) {py ''d''}" by (rule sample_backend_deployment)
  from map_sum_InrD [OF sample_chat_result] obtain p where p: "fst (sample_answer_to (Post_Chat sample_question)) = Inr p"
    "cited_documents (wp_body p) = Some [(py ''d'', py ''internal'')]" by auto
  from cited_documents_Some [OF p(2)] obtain response c where body: "wp_body p = Content (Chat_Result response)"
    and c: "cs_citations response = [c]" "cc_document_id c = py ''d''" "cc_security_level c = py ''internal''" by auto
  have run: "backend_app sample_backend open_check 0 [] (py ''2'') (sample_fresh ''e'') (Post_Chat sample_question) (sample_call (Post_Chat sample_question))
    (snd sample_post) = (Inr p, snd (sample_answer_to (Post_Chat sample_question)))"
    using p(1) unfolding sample_answer_to_def by (simp add: prod_eq_iff)
  from chat_over_http [OF D(2,3,1,4) sample_requests_ok(3) run body, of c] p(1) body c show ?thesis by auto
qed

end
