(* ===== verification/Settling.thy ===== *)
theory Settling
  imports Histories
begin

text \<open>
  Every document is indexed or fails. A history of requests and worker rounds leaves no document
  behind: one that is queued or in work has a job in the queue, as long as the worker process sees the
  metadata. A worker that is left alone therefore brings every document to \<open>completed\<close> or \<open>failed\<close>.
\<close>

section \<open>What a job leaves behind\<close>

text \<open>The job went back to the queue for a further attempt.\<close>

definition requeued :: "('m, 'q, 'd, 'r, 'e) worker \<Rightarrow> index_job \<Rightarrow> ('m, 'q, 'd, 'r, 'e) world \<Rightarrow> bool" where
  "requeued wk job w \<longleftrightarrow> job_attempt job < job_max_attempts job \<and> serialize (job\<lparr> job_attempt := job_attempt job + 1,
     job_max_attempts := rq_max_attempts (wk_queue wk) \<rparr>) \<in> set (queued (wk_queue wk) w)"

context indexing_worker
begin

text \<open>A job ends with an update of its document: completed, failed, or queued with a new entry of the queue.\<close>

lemma handle_failure_ends:
  assumes "redis_ok (rq_client (wk_queue wk))"
  shows "\<exists>st err cnt w2. w_documents w2 = w_documents w
    \<and> w_documents (handle_failure wk job exc w) = w_documents (update_document_status wk job st err cnt w2)
    \<and> (st = Failed \<or> st = Queued \<and> requeued wk job (handle_failure wk job exc w))"
proof (cases "job_attempt job < job_max_attempts job")
  case True
  let ?rj = "job\<lparr> job_attempt := job_attempt job + 1 \<rparr>"
  obtain dispatch w1 where e: "redis_enqueue (wk_queue wk) (wk_events wk) ?rj w = (dispatch, w1)" by fastforce
  have docs: "w_documents w1 = w_documents w" using redisq.enqueue_documents [of "wk_queue wk" "wk_events wk" ?rj w] e by simp
  show ?thesis
  proof (cases "dr_status dispatch = Queued")
    case q: True
    with redis_enqueue_queued [OF assms, of "wk_events wk" ?rj w] e
    have "serialize (?rj\<lparr> job_max_attempts := rq_max_attempts (wk_queue wk) \<rparr>) \<in> set (queued (wk_queue wk) w1)" by simp
    with True q e docs show ?thesis
      by (intro exI [of _ Queued] exI [of _ "Some (str_exn exc)"] exI [of _ None] exI [of _ w1])
        (simp add: handle_failure_def requeued_def Let_def)
  next
    case False
    with True e docs show ?thesis
      by (intro exI [of _ Failed] exI [of _ "Some (if truthy (dr_failure_reason dispatch)
          then the (dr_failure_reason dispatch) else str_exn exc)"] exI [of _ "Some 0"] exI [of _ w1])
        (simp add: handle_failure_def Let_def)
  qed
next
  case False
  then show ?thesis
    by (intro exI [of _ Failed] exI [of _ "Some (str_exn exc)"] exI [of _ "Some 0"] exI [of _ w])
      (simp add: handle_failure_def Let_def)
qed

lemma process_job_ends:
  assumes "redis_ok (rq_client (wk_queue wk))"
  shows "\<exists>st err cnt w2. w_documents w2 = w_documents (update_document_status wk job Processing None None w)
    \<and> w_documents (process_job wk job w) = w_documents (update_document_status wk job st err cnt w2)
    \<and> (st \<in> {Completed, Failed} \<or> st = Queued \<and> requeued wk job (process_job wk job w))"
proof -
  let ?w1 = "update_document_status wk job Processing None None w"
  show ?thesis
  proof (cases "pipeline_run (wk_pipeline wk) job (w_storage ?w1) (w_vectors ?w1)")
    case (Inl exc)
    then have "process_job wk job w = handle_failure wk job exc ?w1" by (simp add: process_job_def)
    with handle_failure_ends [OF assms, of ?w1 job exc] show ?thesis by auto
  next
    case (Inr r)
    then show ?thesis
      by (intro exI [of _ Completed] exI [of _ None] exI [of _ "Some (ir_chunk_count (fst r))"]
          exI [of _ "?w1\<lparr> w_vectors := snd r \<rparr>"]) (simp add: process_job_def case_prod_unfold Let_def)
  qed
qed

lemma process_job_settles:
  assumes "invar (w_documents w)" "redis_ok (rq_client (wk_queue wk))"
    and "ds_get (wk_documents wk) v i (w_documents (process_job wk job w)) = Some d"
  shows "if (v, i) \<noteq> (job_workspace_id job, job_document_id job)
      then ds_get (wk_documents wk) v i (w_documents w) = Some d
    else dm_indexing_status d \<in> {status_str Completed, status_str Failed}
      \<or> dm_indexing_status d = status_str Queued \<and> requeued wk job (process_job wk job w)"
proof (cases "ds_get (wk_documents wk) (job_workspace_id job) (job_document_id job) (w_documents w)")
  case None
  from process_job_missing [OF None] assms(3) have get: "ds_get (wk_documents wk) v i (w_documents w) = Some d" by simp
  with None have "(v, i) \<noteq> (job_workspace_id job, job_document_id job)" by auto
  with get show ?thesis by simp
next
  case (Some d0)
  let ?w1 = "update_document_status wk job Processing None None w"
  note u1 = update_status_get [OF assms(1) Some, where st = Processing and err = None and cnt = None]
  obtain st err cnt w2 where w2: "w_documents w2 = w_documents ?w1"
    and w': "w_documents (process_job wk job w) = w_documents (update_document_status wk job st err cnt w2)"
    and st: "st \<in> {Completed, Failed} \<or> st = Queued \<and> requeued wk job (process_job wk job w)"
    using process_job_ends [OF assms(2), of job w] by blast
  from u1(1) [of "job_workspace_id job" "job_document_id job"] w2
  have "ds_get (wk_documents wk) (job_workspace_id job) (job_document_id job) (w_documents w2) =
      Some (d0\<lparr> dm_indexing_status := status_str Processing, dm_indexing_error := None \<rparr>)" by simp
  from update_status_get(1) [OF _ this, of v i st err cnt] u1 w2 assms(3) w' st show ?thesis
    by (auto split: if_splits)
qed

end

section \<open>Unsettled documents have jobs\<close>

text \<open>A document whose indexing has come to an end, and a job in the queue for a document.\<close>

definition settled :: "document_record \<Rightarrow> bool" where
  "settled d \<longleftrightarrow> dm_indexing_status d \<in> {status_str Completed, status_str Failed}"

definition job_for :: "pystr \<Rightarrow> pystr \<Rightarrow> index_job \<Rightarrow> bool" where
  "job_for v i j \<longleftrightarrow> job_workspace_id j = v \<and> job_document_id j = i"

definition has_job ::
  "('m, 'q, 'r) deployment \<Rightarrow> ('m, 'q, document_record list, 'r, mem_events) world \<Rightarrow> pystr \<Rightarrow> pystr \<Rightarrow> bool" where
  "has_job D w v i \<longleftrightarrow> (\<exists>x \<in> jobs_of D w. payload_for D (job_for v i) x)"

definition attended :: "('m, 'q, 'r) deployment \<Rightarrow> ('m, 'q, document_record list, 'r, mem_events) world \<Rightarrow> bool" where
  "attended D w \<longleftrightarrow> (\<forall>v i d. get_of D v i (w_documents w) = Some d \<longrightarrow> settled d \<or> has_job D w v i)"

definition readable :: "('m, 'q, 'r) deployment \<Rightarrow> ('m, 'q, document_record list, 'r, mem_events) world \<Rightarrow> bool" where
  "readable D w \<longleftrightarrow> docs_invar (dp_settings D) (w_documents w) \<and> (\<forall>x \<in> jobs_of D w. payload_for D (\<lambda>_. True) x)"

lemma has_job_mono: "has_job D w v i \<Longrightarrow> jobs_of D w \<subseteq> jobs_of D w' \<Longrightarrow> has_job D w' v i"
  unfolding has_job_def by blast

lemma attendedD: "attended D w \<Longrightarrow> get_of D v i (w_documents w) = Some d \<Longrightarrow> \<not> settled d \<Longrightarrow> has_job D w v i"
  unfolding attended_def by blast

lemma attended_frame:
  assumes "attended D w" "jobs_of D w \<subseteq> jobs_of D w'"
    and "\<And>v i d. get_of D v i (w_documents w') = Some d \<Longrightarrow> \<not> settled d \<Longrightarrow>
      get_of D v i (w_documents w) = Some d \<or> has_job D w' v i"
  shows "attended D w'"
  using assms has_job_mono unfolding attended_def by blast

lemma behind_system_inv: "behind D w used \<Longrightarrow> deployment_ok D \<Longrightarrow> \<exists>u \<subseteq> used. system_inv D (idle_system w u)"
  unfolding behind_def using reachable_inv by blast

lemma behind_readable:
  assumes "behind D w used" "deployment_ok D"
  shows "readable D w"
proof -
  from behind_system_inv [OF assms] obtain u where inv: "system_inv D (idle_system w u)" by blast
  note facts = system_invD [OF inv, unfolded idle_system_def, simplified]
  from facts(1) facts(5) show ?thesis by (auto simp: readable_def intro: payload_for_mono)
qed

section \<open>The worker\<close>

lemma worker_settles:
  assumes "docs_invar (dp_settings D) (w_documents w)" "redis_ok (rq_client (wk_queue (worker_of D)))"
    and "get_of D v i (w_documents (process_job (worker_of D) job w)) = Some d"
  shows "if (v, i) \<noteq> (job_workspace_id job, job_document_id job) then get_of D v i (w_documents w) = Some d
    else settled d \<or> requeued (worker_of D) job (process_job (worker_of D) job w)"
proof -
  have "ds_get (wk_documents (worker_of D)) v i (w_documents (process_job (worker_of D) job w)) = Some d"
    using assms(3) by simp
  from app_worker.process_job_settles [OF assms(1), of "dp_redis D" "pipeline_of D", folded worker_of_def, OF assms(2) this]
  show ?thesis by (auto simp: settled_def split: if_splits)
qed

text \<open>The work on a job that was taken from the queue, and a call of \<open>process_next\<close>.\<close>

lemma process_job_attended:
  assumes ok: "deployment_ok D" and r: "readable D w" and a: "attended D w"
    and jobs: "jobs_of D w = insert payload (jobs_of D w1)" and d: "deserialize payload = Inr job"
    and docs: "w_documents w1 = w_documents w"
  defines "w' \<equiv> process_job (worker_of D) job w1"
  shows "attended D w' \<and> readable D w'"
proof -
  let ?wk = "worker_of D"
  have R: "redis_ok (rq_client (wk_queue ?wk))" using ok by (simp add: deployment_ok_def)
  have inv: "docs_invar (dp_settings D) (w_documents w1)" and payloads: "\<And>x. x \<in> jobs_of D w \<Longrightarrow> payload_for D (\<lambda>_. True) x"
    using r docs by (auto simp: readable_def)
  from payloads [of payload] jobs d have jok: "job_ok (limit_of D) job" by (auto simp: payload_for_def)
  have sub: "jobs_of D w1 \<subseteq> jobs_of D w'"
    using process_job_queued [OF R, of job w1] by (auto simp: w'_def jobs_of_def)
  from process_job_acts [OF ok inv jok] have acts: "acts_for D job w1 w'" by (simp add: w'_def)
  then have readable: "readable D w'"
    using payloads jobs by (auto simp: readable_def acts_for_def intro: payload_for_mono)
  have "has_job D w' v i" if g: "get_of D v i (w_documents w') = Some e" and open_job: "\<not> settled e" for v i e
  proof (cases "(v, i) = (job_workspace_id job, job_document_id job)")
    case True
    let ?j = "job\<lparr> job_attempt := job_attempt job + 1, job_max_attempts := limit_of D \<rparr>"
    from worker_settles [OF inv R, of v i job e] g open_job True have x: "requeued ?wk job w'" by (simp add: w'_def)
    have N: "limit_of D \<le> 10 ^ 100" using ok by (simp add: deployment_ok_def)
    from x jok have "job_attempt job < limit_of D" by (simp add: requeued_def job_ok_def)
    with retry_job_read [OF jok N] have "payload_for D (job_for v i) (serialize ?j)"
      using True by (simp add: payload_for_def job_for_def)
    with x show ?thesis by (auto simp: has_job_def requeued_def jobs_of_def)
  next
    case False
    from worker_settles [OF inv R, of v i job e] g False docs
    have "get_of D v i (w_documents w) = Some e" by (simp add: w'_def)
    from attendedD [OF a this open_job] obtain x where x: "x \<in> jobs_of D w" "payload_for D (job_for v i) x"
      by (auto simp: has_job_def)
    with d False have "x \<noteq> payload" by (auto simp: payload_for_def job_for_def)
    with x jobs sub show ?thesis by (auto simp: has_job_def)
  qed
  with readable show ?thesis unfolding attended_def by blast
qed

lemma next_attended:
  assumes ok: "deployment_ok D" and r: "readable D w" and a: "attended D w"
    and n: "process_next (worker_of D) t w = (result, w')"
  shows "attended D w' \<and> readable D w'"
proof -
  let ?q = "wk_queue (worker_of D)"
  have R: "redis_ok (rq_client ?q)" using ok by (simp add: deployment_ok_def)
  obtain res w1 where pop: "redis_pop ?q t w = (res, w1)" by fastforce
  have docs: "w_documents w1 = w_documents w"
    using pop by (auto simp: redis_pop_def split: sum.splits option.splits exn.splits prod.splits)
  note law = redis_pop_queued [OF R pop]
  show ?thesis
  proof (cases "\<exists>job. res = Inr (Some job)")
    case True
    then obtain job where job: "res = Inr (Some job)" by blast
    with law obtain payload where q: "queued ?q w = queued ?q w1 @ [payload]" and d: "deserialize payload = Inr job" by auto
    from q have jobs: "jobs_of D w = insert payload (jobs_of D w1)" by (simp add: jobs_of_def)
    have "w' = process_job (worker_of D) job w1" using n pop job by (simp add: process_next_def)
    with process_job_attended [OF ok r a jobs d docs] show ?thesis by simp
  next
    case False
    with n pop have w': "w' = w1" by (auto simp: process_next_def split: sum.splits option.splits)
    have "jobs_of D w1 = jobs_of D w"
    proof (cases res)
      case (Inl e)
      have "\<not> (\<exists>payload. queued ?q w = queued ?q w1 @ [payload] \<and> deserialize payload = Inl e)"
        using r by (fastforce simp: readable_def jobs_of_def payload_for_def)
      with law Inl show ?thesis by (auto simp: jobs_of_def)
    next
      case (Inr o')
      with False law show ?thesis by (cases o') (auto simp: jobs_of_def)
    qed
    with w' docs r a show ?thesis by (auto simp: readable_def attended_def has_job_def)
  qed
qed

text \<open>The worker loop, until the queue is empty: every document is settled then.\<close>

lemma worker_loop_attended:
  assumes "deployment_ok D"
  shows "readable D w \<Longrightarrow> attended D w \<Longrightarrow> attended D (snd (worker_loop n (worker_of D) w))"
proof (induction n arbitrary: w)
  case (Suc n)
  obtain result w' where p: "process_next (worker_of D) 5 w = (result, w')" by fastforce
  with next_attended [OF assms Suc.prems] Suc.IH [of w'] show ?case by (simp split: sum.split)
qed simp

lemma readable_queue_ok:
  assumes "readable D w"
  shows "queue_ok (wk_queue (worker_of D)) w"
proof -
  have "payload_ok (limit_of D) x" if "x \<in> jobs_of D w" for x
    using assms that by (auto simp: readable_def payload_for_def payload_ok_def)
  then show ?thesis by (simp add: queue_ok_def list_all_iff jobs_of_def)
qed

lemma worker_loop_settles:
  assumes "deployment_ok D" "redis_live (dp_redis D)" "readable D w" "attended D w"
    and "length (queued (wk_queue (worker_of D)) w) * nat (limit_of D) \<le> n"
    and "worker_loop n (worker_of D) w = (stopped, w')"
  shows "stopped = None" and "jobs_of D w' = {}"
    and "get_of D v i (w_documents w') = Some d \<Longrightarrow> settled d"
proof -
  from worker_drains_queue [OF _ _ _ readable_queue_ok [OF assms(3)], of n] assms(1,2,5,6)
  have "stopped = None \<and> queued (wk_queue (worker_of D)) w' = []" by (simp add: deployment_ok_def)
  then show "stopped = None" and none: "jobs_of D w' = {}" by (simp_all add: jobs_of_def)
  from worker_loop_attended [OF assms(1,3,4), of n] assms(6) none
  show "get_of D v i (w_documents w') = Some d \<Longrightarrow> settled d" by (auto simp: attended_def has_job_def)
qed

section \<open>The operations behind the endpoints\<close>

text \<open>The worker process sees the metadata: with the Redis queue it is in PostgreSQL.\<close>

definition shared_metadata :: "('m, 'q, 'r) deployment \<Rightarrow> bool" where
  "shared_metadata D \<longleftrightarrow> (cfg_indexing_queue_backend (dp_settings D) = py ''redis'' \<longrightarrow>
     cfg_document_metadata_backend (dp_settings D) = py ''postgres'')"

lemma get_of_Nil: "get_of D v i [] = None"
  by (simp add: create_document_metadata_store_def mem_doc_store_def pg_doc_store_def mem_get_document_def pg_get_document_def)

lemma attended_frames [simp]:
  "attended D (w\<lparr> w_events := e \<rparr>) = attended D w" "attended D (w\<lparr> w_vectors := q \<rparr>) = attended D w"
  by (simp_all add: attended_def has_job_def)

lemma readable_frames [simp]: "readable D (w\<lparr> w_events := e \<rparr>) = readable D w"
  by (simp add: readable_def)

lemma worker_view_shared:
  "cfg_document_metadata_backend (dp_settings D) = py ''postgres'' \<Longrightarrow> worker_view D e w = w\<lparr> w_events := e \<rparr>"
  by (simp add: worker_view_def)

lemma round_attended:
  assumes "deployment_ok D" "cfg_document_metadata_backend (dp_settings D) = py ''postgres''" "readable D w" "attended D w"
    and "worker_round D own_events t w = (result, w')"
  shows "attended D w'"
proof -
  let ?v = "worker_view D own_events w"
  obtain v where v: "process_next (worker_of D) t ?v = (result, v)" "w' = v\<lparr> w_events := w_events w \<rparr>"
    using assms(2,5) by (auto simp: worker_round_def split: prod.splits)
  have "readable D ?v" "attended D ?v" using assms(3,4) by (simp_all add: worker_view_shared [OF assms(2)])
  from next_attended [OF assms(1) this v(1)] v(2) show ?thesis by simp
qed

text \<open>A job that is handed to the queue is done, failed, or in the queue.\<close>

lemma enqueue_attends:
  assumes "deployment_ok D" "serializable (j\<lparr> job_max_attempts := 3 \<rparr>)" "job_attempt j = 1"
    and "sv_enqueue (service_of D) j w = (dispatch, w')"
  shows "w_documents w' = w_documents w" and "jobs_of D w \<subseteq> jobs_of D w'"
    and "dr_status dispatch \<in> {Completed, Failed} \<or> has_job D w' (job_workspace_id j) (job_document_id j)"
proof -
  let ?q = "create_redis_job_queue (dp_redis D) (dp_settings D)" and ?j = "j\<lparr> job_max_attempts := limit_of D \<rparr>"
  have e: "sv_enqueue (service_of D) = get_job_queue (dp_settings D) (dp_redis D) (pipeline_of D) (Some mem_event_store)"
    by (simp add: service_of_def get_document_service_def)
  show "w_documents w' = w_documents w"
    using app_queue.enqueue_documents [of "dp_settings D" "dp_redis D" "pipeline_of D" "Some mem_event_store" j w] assms(4)
    by (simp add: e)
  show "jobs_of D w \<subseteq> jobs_of D w'"
    "dr_status dispatch \<in> {Completed, Failed} \<or> has_job D w' (job_workspace_id j) (job_document_id j)"
  proof (atomize (full), cases "cfg_indexing_queue_backend (dp_settings D) = py ''redis''")
    case True
    with e assms(4) have r: "redis_enqueue ?q (Some mem_event_store) j w = (dispatch, w')" by (simp add: get_job_queue_def)
    have R: "redis_ok (rq_client ?q)" and N: "1 \<le> limit_of D" "limit_of D \<le> 10 ^ 100"
      using assms(1) by (simp_all add: deployment_ok_def)
    have "serializable ?j"
      using assms(2) N length_str_int [of "limit_of D"] by (simp add: serializable_def job_fields_def)
    then have "payload_for D (job_for (job_workspace_id j) (job_document_id j)) (serialize ?j)"
      using N assms(3) by (simp add: payload_for_def deserialize_serialize job_ok_def job_for_def)
    with redis_enqueue_queued [OF R, of "Some mem_event_store" j w] redis_enqueue_status [of ?q "Some mem_event_store" j w] r
    show "jobs_of D w \<subseteq> jobs_of D w' \<and> (dr_status dispatch \<in> {Completed, Failed}
        \<or> has_job D w' (job_workspace_id j) (job_document_id j))"
      by (auto simp: jobs_of_def has_job_def split: if_splits)
  next
    case False
    with e assms(4) have r: "inprocess_enqueue (pipeline_of D) (Some mem_event_store) j w = (dispatch, w')"
      by (simp add: get_job_queue_def)
    then show "jobs_of D w \<subseteq> jobs_of D w' \<and> (dr_status dispatch \<in> {Completed, Failed}
        \<or> has_job D w' (job_workspace_id j) (job_document_id j))"
      by (auto simp: inprocess_enqueue_def split: sum.splits prod.splits)
  qed
qed

lemma delete_attended:
  assumes "readable D w" "attended D w" "delete_handler (service_of D) ctx i w = (result, w')"
  shows "attended D w'"
  using assms(3)
proof (cases rule: delete_handlerE)
  case (deleted rec q m)
  let ?v = "wc_workspace_id ctx"
  have inv: "docs_invar (dp_settings D) (w_documents w)" using assms(1) by (simp add: readable_def)
  have "get_of D u j (w_documents w') = (if (u, j) = (?v, i) then None else get_of D u j (w_documents w))" for u j
    using app_docs.get_delete [OF inv] by (simp add: deleted(4))
  with assms(2) deleted(4) show ?thesis by (intro attended_frame [OF assms(2)]) (auto split: if_splits)
qed (use assms(2) in simp_all)

lemma reindex_attended:
  assumes "deployment_ok D" "behind D w used" "attended D w" "context_ok ctx" "text_ok jid"
    and "reindex_handler (dp_guess_type D) (service_of D) jid ctx i w = (result, w')"
  shows "attended D w'"
  using assms(6)
proof (cases rule: reindex_handlerE)
  case unchanged
  with assms(3) show ?thesis by simp
next
  case (dispatched rec parsed q dispatch w1)
  let ?v = "wc_workspace_id ctx" and ?rec = "reindexed_record ctx parsed dispatch rec"
  from behind_system_inv [OF assms(2,1)] obtain u where inv: "system_inv D (idle_system w u)" by blast
  have "known D (idle_system w u) ?v i (facts_of rec)" using dispatched(1) by (simp add: known_def idle_system_def)
  with system_invD(4) [OF inv] have "entry_ok ?v i (facts_of rec)" by blast
  from enqueue_attends [OF assms(1) reindex_job_serializable [OF assms(1,4,5) this] _ dispatched(3)]
  have docs: "w_documents w1 = w_documents w" and jobs: "jobs_of D w \<subseteq> jobs_of D w'"
    and new: "settled ?rec \<or> has_job D w' ?v i"
    by (auto simp: reindex_job_def reindexed_record_def settled_def has_job_def dispatched(4))
  have "docs_invar (dp_settings D) (w_documents w)" using system_invD(1) [OF inv] by (simp add: idle_system_def)
  moreover have "doc_key ?rec = doc_key rec" by (simp add: reindexed_record_def doc_key_def)
  ultimately have "get_of D u j (w_documents w') = (if (u, j) = (?v, i) then Some ?rec else get_of D u j (w_documents w))" for u j
    using app_docs.update_get dispatched(1) by (simp add: dispatched(4) docs)
  with new show ?thesis by (intro attended_frame [OF assms(3) jobs]) (auto split: if_splits)
qed

text \<open>The document of an upload is new, and the record of its metadata adds it.\<close>

lemma fresh_document:
  assumes "behind D w used" "deployment_ok D" "i \<notin> used"
  shows "get_of D x i (w_documents w) = None"
proof (rule ccontr)
  from behind_system_inv [OF assms(1,2)] obtain u where u: "u \<subseteq> used" "system_inv D (idle_system w u)" by blast
  assume "get_of D x i (w_documents w) \<noteq> None"
  then obtain d where "get_of D x i (w_documents w) = Some d" by blast
  then have "known D (idle_system w u) x i (facts_of d)" by (simp add: known_def idle_system_def)
  with system_invD(4) [OF u(2)] have "i \<in> u" by (auto simp: idle_system_def)
  with u(1) assms(3) show False by blast
qed

lemma uploaded_get:
  assumes "readable D w" "w_documents w1 = w_documents w" "\<And>x. get_of D x (dm_document_id response) (w_documents w) = None"
  shows "get_of D x j (w_documents (upload_record (service_of D) now response w1)) =
    (if (dm_workspace_id response, dm_document_id response) = (x, j) then Some (to_document_record now response)
     else get_of D x j (w_documents w))"
proof -
  have inv: "docs_invar (dp_settings D) (w_documents w)" using assms(1) by (simp add: readable_def)
  with app_docs.can_create [OF inv, of "to_document_record now response"] assms(3)
  have "docs_can_record (dp_settings D) (to_document_record now response) (w_documents w)" by (simp add: record_facts)
  from app_docs.get_record [OF inv this] show ?thesis
    by (simp add: upload_record_def service_of_simps assms(2) record_facts)
qed

lemma upload_attended:
  assumes "deployment_ok D" "behind D w used" "attended D w" "context_ok ctx" "ids_ok ids" "up_document_id ids \<notin> used"
    and "text_ok fn" "text_ok ct" "validate_document_security_level l = Inr level"
    and "upload_dispatch (dp_ucd D) (dp_guess_type D) (service_of D) ids ctx fn ct data level w = (Inr response, w1)"
  shows "attended D (upload_record (service_of D) now response w1)"
proof -
  let ?fn = "normalize_filename fn" and ?v = "wc_workspace_id ctx" and ?i = "up_document_id ids"
  let ?d = "to_document_record now response" and ?w' = "upload_record (service_of D) now response w1"
  from assms(10) obtain parsed key m dispatch where
    up: "ss_upload (minio_storage (dp_minio D) (bucket_of D)) ?v ?i ?fn
      (normalize_content_type (dp_ucd D) (dp_guess_type D) ct ?fn) data (w_storage w) = Inr (key, m)"
    and e: "sv_enqueue (service_of D) (upload_job ids ctx ?fn (normalize_content_type (dp_ucd D) (dp_guess_type D) ct ?fn)
      key level) (w\<lparr> w_storage := m \<rparr>) = (dispatch, w1)"
    and r: "response = upload_response ids ctx ?fn key level parsed dispatch"
    by (rule upload_dispatchE)
  from enqueue_attends [OF assms(1) upload_job_ok(2) [OF assms(1,4,5,7-9) up] _ e]
  have docs: "w_documents w1 = w_documents w" and jobs: "jobs_of D w \<subseteq> jobs_of D ?w'"
    and new: "settled ?d \<or> has_job D ?w' ?v ?i"
    by (auto simp: upload_job_def r upload_response_def settled_def has_job_def upload_record_def to_document_record_def
        document_metadata.defs document_record.defs)
  have key: "dm_workspace_id response = ?v" "dm_document_id response = ?i" by (simp_all add: r upload_response_def)
  from uploaded_get [OF behind_readable [OF assms(2,1)] docs, where response = response and now = now] fresh_document [OF assms(2,1,6)]
  have "get_of D x j (w_documents ?w') = (if (?v, ?i) = (x, j) then Some ?d else get_of D x j (w_documents w))" for x j
    by (simp add: key)
  with new show ?thesis by (intro attended_frame [OF assms(3) jobs]) (auto split: if_splits)
qed

interpretation settling: history_invariant D "deployment_ok D \<and> shared_metadata D" "attended D"
  for D :: "('m, 'q, 'r) deployment"
proof (unfold_locales, goal_cases)
  case (1 w)
  then show ?case by (simp add: empty_system_def idle_system_def attended_def get_of_Nil)
next
  case (4 w used own_events t result w')
  with behind_readable [of D w used] show ?case by (auto simp: shared_metadata_def intro: round_attended)
next
  case (5 w used ctx i deleted w')
  with behind_readable [of D w used] show ?case by (auto intro: delete_attended)
next
  case (6 w used ctx jid i reindexed w')
  then show ?case by (blast intro: reindex_attended)
next
  case (7 w used ctx ids fn ct data level response w1 now)
  then show ?case by (blast intro: upload_attended)
qed simp_all

section \<open>Properties\<close>



section \<open>A sample history\<close>

definition queue_settings :: settings where
  "queue_settings = sample_settings\<lparr> cfg_indexing_queue_backend := py ''redis'',
     cfg_document_metadata_backend := py ''postgres'' \<rparr>"

definition queue_backend :: "(pystr \<rightharpoonup> bytes, point list, pystr list) backend" where
  "queue_backend = sample_backend\<lparr> bk_settings := queue_settings \<rparr>"

definition queue_post where
  "queue_post = backend_app queue_backend open_check 0 [] (py ''1'') (sample_fresh ''d'')
     sample_file (sample_call sample_file) sample_server"

lemma queue_post_result:
  "map_prod (map_sum (\<lambda>_. ()) wp_status) (\<lambda>s. (map dm_indexing_status (w_documents (world_of s)), length (w_redis (world_of s)))) queue_post
     = (Inr 201, [py ''queued''], 1)"
  by code_simp

lemma queue_post_get:
  "map_option dm_indexing_status (ds_get (create_document_metadata_store queue_settings) (py ''w'') (py ''d'')
     (w_documents (world_of (snd queue_post)))) = Some (py ''queued'')"
  by code_simp

lemma queue_request_ok: "request_ok queue_backend (sample_fresh ''d'') (py ''1'') sample_file (sample_call sample_file) {}"
  by code_simp

lemma queue_deployment:
  obtains D where "backend_deployment queue_backend = Inr D" "deployment_ok D" "shared_metadata D" "redis_live (dp_redis D)"
    "dp_settings D = queue_settings" "backend_run queue_backend D open_check (snd queue_post) {py ''d''}"
proof -
  have "map_sum (\<lambda>_. ()) (\<lambda>_. ()) (backend_deployment queue_backend) = Inr ()" by code_simp
  then obtain D where D: "backend_deployment queue_backend = Inr D" by (cases "backend_deployment queue_backend") auto
  have limits: "1 \<le> cfg_indexing_queue_max_attempts queue_settings" "cfg_indexing_queue_max_attempts queue_settings \<le> 10 ^ 100"
    by (simp_all add: queue_settings_def sample_settings_def default_settings_def)
  note parts = sample_backend_parts [OF D [unfolded queue_backend_def] limits]
  have s: "dp_settings D = queue_settings" using backend_deployment_fields(1) [OF D] by (simp add: queue_backend_def)
  from parts(4) have "backend_run queue_backend D open_check sample_server {}" by (rule backend_run.Empty)
  from backend_run.Request [OF this queue_request_ok surjective_pairing]
  have run: "backend_run queue_backend D open_check (snd queue_post) {py ''d''}"
    unfolding queue_post_def by (simp add: sample_fresh_def)
  have "shared_metadata D" by (simp add: shared_metadata_def s queue_settings_def)
  from that [OF D parts(1) this parts(3) s run] show ?thesis .
qed



end
