(* ===== verification/Indexed.thy ===== *)
theory Indexed
  imports Settling Backend_Refinement
begin

text \<open>
  Completed documents are searchable: after every history of requests and worker rounds, a document
  whose status is \<open>completed\<close> has its chunks in the vector database, as many as its metadata says.
\<close>

section \<open>The chunks of a document\<close>

definition point_id_of :: "('m, 'q, 'r) deployment \<Rightarrow> pystr \<Rightarrow> nat \<Rightarrow> pystr" where
  "point_id_of D i k = dp_uuid5 D (i @ py '':'' @ str_int (int k))"

definition indexed_chunk ::
  "('m, 'q, 'r) deployment \<Rightarrow> ('m, 'q, document_record list, 'r, mem_events) world \<Rightarrow> pystr \<Rightarrow> pystr \<Rightarrow> nat \<Rightarrow> bool" where
  "indexed_chunk D w v i k \<longleftrightarrow> (\<exists>p \<in> points_of D w. pt_id p = point_id_of D i k \<and> pl_workspace_id (pt_payload p) = v
     \<and> pl_document_id (pt_payload p) = i \<and> pl_chunk_index (pt_payload p) = int k)"

definition fully_indexed ::
  "('m, 'q, 'r) deployment \<Rightarrow> ('m, 'q, document_record list, 'r, mem_events) world \<Rightarrow> pystr \<Rightarrow> pystr \<Rightarrow> int \<Rightarrow> bool" where
  "fully_indexed D w v i n \<longleftrightarrow> 1 \<le> n \<and> (\<forall>k < nat n. indexed_chunk D w v i k)"

text \<open>A document belongs to one workspace, and a completed one has its chunks.\<close>

definition searchable :: "('m, 'q, 'r) deployment \<Rightarrow> ('m, 'q, document_record list, 'r, mem_events) world \<Rightarrow> bool" where
  "searchable D w \<longleftrightarrow> (\<forall>v i d. get_of D v i (w_documents w) = Some d \<longrightarrow>
     (\<forall>u. get_of D u i (w_documents w) \<noteq> None \<longrightarrow> u = v) \<and>
     (dm_indexing_status d = status_str Completed \<longrightarrow> fully_indexed D w v i (dm_chunk_count d)))"

text \<open>What is relied on besides \<open>deployment_ok\<close>: identifiers do not collide, a collection that does not
  exist is empty, the object store deletes what it is asked to.\<close>

definition point_ids_unique :: "(pystr \<Rightarrow> pystr) \<Rightarrow> bool" where
  "point_ids_unique uuid5 \<longleftrightarrow> (\<forall>i j k l. uuid5 (i @ py '':'' @ str_int (int k)) = uuid5 (j @ py '':'' @ str_int (int l)) \<longrightarrow>
     i = j \<and> k = l)"

definition qdrant_exists_ok :: "'q qdrant \<Rightarrow> bool" where
  "qdrant_exists_ok Q \<longleftrightarrow> (\<forall>coll q. \<not> qd_exists Q coll q \<longrightarrow> qd_points Q coll q = [])"

definition minio_deletes :: "'m minio \<Rightarrow> bool" where
  "minio_deletes M \<longleftrightarrow> (\<forall>b k m. \<exists>m'. mi_remove_object M b k m = Inr m')"

definition indexing_ok :: "('m, 'q, 'r) deployment \<Rightarrow> bool" where
  "indexing_ok D \<longleftrightarrow> deployment_ok D \<and> valid_chunker (dp_chunker D) \<and> registry_ok (dp_parsers D)
     \<and> point_ids_unique (dp_uuid5 D) \<and> qdrant_exists_ok (dp_qdrant D) \<and> minio_deletes (dp_minio D)"

lemma indexing_okD: "indexing_ok D \<Longrightarrow> deployment_ok D"
  by (simp add: indexing_ok_def)

lemma point_id_of_inj: "indexing_ok D \<Longrightarrow> point_id_of D i k = point_id_of D j l \<longleftrightarrow> i = j \<and> k = l"
  unfolding indexing_ok_def point_ids_unique_def point_id_of_def by blast

lemma indexed_chunk_mono: "indexed_chunk D w v i k \<Longrightarrow> points_of D w \<subseteq> points_of D w' \<Longrightarrow> indexed_chunk D w' v i k"
  unfolding indexed_chunk_def by blast

lemma fully_indexed_mono:
  "fully_indexed D w v i n \<Longrightarrow> (\<And>k. indexed_chunk D w v i k \<Longrightarrow> indexed_chunk D w' v i k) \<Longrightarrow> fully_indexed D w' v i n"
  by (simp add: fully_indexed_def)

lemma searchableD:
  assumes "searchable D w" "get_of D v i (w_documents w) = Some d"
  shows "get_of D u i (w_documents w) \<noteq> None \<Longrightarrow> u = v"
    and "dm_indexing_status d = status_str Completed \<Longrightarrow> fully_indexed D w v i (dm_chunk_count d)"
  using assms unfolding searchable_def by blast+

lemma searchable_frame:
  assumes "searchable D w" "w_documents w' = w_documents w" "points_of D w \<subseteq> points_of D w'"
  shows "searchable D w'"
  using assms(1) fully_indexed_mono [OF _ indexed_chunk_mono [OF _ assms(3)]]
  unfolding searchable_def assms(2) by blast

text \<open>A step that is about one document.\<close>

lemma searchable_step:
  assumes s: "searchable D w"
    and others: "\<And>u j e. get_of D u j (w_documents w') = Some e \<Longrightarrow> (u, j) \<noteq> (v, i) \<Longrightarrow> get_of D u j (w_documents w) = Some e"
    and alone: "\<And>u. get_of D u i (w_documents w) \<noteq> None \<Longrightarrow> u = v"
    and keep: "\<And>u j k. j \<noteq> i \<Longrightarrow> indexed_chunk D w u j k \<Longrightarrow> indexed_chunk D w' u j k"
    and own: "\<And>e. get_of D v i (w_documents w') = Some e \<Longrightarrow> dm_indexing_status e = status_str Completed \<Longrightarrow>
      fully_indexed D w' v i (dm_chunk_count e)"
  shows "searchable D w'"
  unfolding searchable_def
proof (intro allI impI conjI)
  fix u j e u'
  assume e: "get_of D u j (w_documents w') = Some e"
  have only: "x = v" if "get_of D x i (w_documents w') \<noteq> None" for x
    using that others [of x i] alone [of x] by auto
  show "u' = u" if "get_of D u' j (w_documents w') \<noteq> None"
  proof (cases "j = i")
    case True
    with only [of u] only [of u'] e that show ?thesis by simp
  next
    case False
    with others [of u j] others [of u' j] e that have "get_of D u j (w_documents w) = Some e" "get_of D u' j (w_documents w) \<noteq> None"
      by auto
    then show ?thesis by (rule searchableD(1) [OF s])
  qed
  show "fully_indexed D w' u j (dm_chunk_count e)" if done_status: "dm_indexing_status e = status_str Completed"
  proof (cases "j = i")
    case True
    with only [of u] e own [of e] done_status show ?thesis by simp
  next
    case False
    with others [OF e] have "get_of D u j (w_documents w) = Some e" by simp
    from searchableD(2) [OF s this done_status] keep [OF False] show ?thesis by (rule fully_indexed_mono)
  qed
qed

section \<open>A run of the pipeline\<close>

lemma run_indexes:
  assumes ok: "indexing_ok D" and run: "pipeline_run (pipeline_of D) j m (w_vectors w) = Inr (res, q)" and q: "w_vectors w' = q"
  shows "fully_indexed D w' (job_workspace_id j) (job_document_id j) (ir_chunk_count res)"
    and "u = job_workspace_id j \<or> i \<noteq> job_document_id j \<Longrightarrow> indexed_chunk D w u i k \<Longrightarrow> indexed_chunk D w' u i k"
proof -
  let ?n = "length (ir_chunks res)" and ?i = "job_document_id j"
  let ?p = "\<lambda>k. chunk_point (dp_uuid5 D) j (ir_parser res) k (ir_chunks res ! k) (ir_embeddings res ! k)"
  have Q: "qdrant_writes_ok (dp_qdrant D)" "valid_chunker (dp_chunker D)" "registry_ok (dp_parsers D)"
    and ids: "distinct (document_point_ids (dp_uuid5 D) ?i ?n)"
    using ok by (simp_all add: indexing_ok_def deployment_ok_def point_ids_distinct_def)
  note stored = pipeline_indexes [OF Q run [unfolded pipeline_of_def] ids]
  have pts: "points_of D w' = {p \<in> points_of D w. pt_id p \<notin> set (document_point_ids (dp_uuid5 D) ?i ?n)} \<union> ?p ` {..<?n}"
    using stored(3) by (simp add: points_of_def q)
  have new: "indexed_chunk D w' (job_workspace_id j) ?i k" if "k < ?n" for k
    unfolding indexed_chunk_def using that
    by (intro bexI [of _ "?p k"]) (auto simp: pts chunk_point_def point_id_of_def)
  from stored(1) have "?n \<noteq> 0" by simp
  with new stored(2) show "fully_indexed D w' (job_workspace_id j) ?i (ir_chunk_count res)"
    by (simp add: fully_indexed_def Suc_le_eq)
  show "indexed_chunk D w' u i k" if who: "u = job_workspace_id j \<or> i \<noteq> ?i" and c: "indexed_chunk D w u i k"
  proof (cases "i = ?i \<and> k < ?n")
    case True
    with who new show ?thesis by auto
  next
    case False
    then have "point_id_of D i k \<notin> set (document_point_ids (dp_uuid5 D) ?i ?n)"
      by (auto simp: document_point_ids_def point_id_of_def [symmetric] point_id_of_inj [OF ok])
    with c show ?thesis by (auto simp: indexed_chunk_def pts)
  qed
qed

lemma run_needs_object:
  assumes "deployment_ok D" "objects_of D w (job_storage_key j) = None"
  shows "\<exists>e. pipeline_run (pipeline_of D) j (w_storage w) q = Inl e"
proof (cases "pipeline_run (pipeline_of D) j (w_storage w) q")
  case (Inr r)
  obtain res q' where "r = (res, q')" by fastforce
  with Inr obtain data where "ss_download (minio_storage (dp_minio D) (bucket_of D)) (job_storage_key j) (w_storage w) = Inr data"
    by (auto simp: pipeline_of_def make_pipeline_def elim!: pipeline_run_Inr)
  with minio.download_objects assms show ?thesis by (fastforce simp: deployment_ok_def objects_of_def)
qed blast

lemma indexed_chunk_vectors: "w_vectors w' = w_vectors w \<Longrightarrow> indexed_chunk D w' = indexed_chunk D w"
  by (simp add: fun_eq_iff indexed_chunk_def points_of_def)

section \<open>The worker\<close>

lemma process_job_vectors:
  "w_vectors (process_job (worker_of D) j w) = (case pipeline_run (pipeline_of D) j (w_storage w) (w_vectors w) of
     Inl e \<Rightarrow> w_vectors w | Inr (res, q) \<Rightarrow> q)"
  by (simp add: process_job_def Let_def split: sum.split prod.split)

lemma process_job_keeps:
  assumes "indexing_ok D" "u = job_workspace_id j \<or> i \<noteq> job_document_id j" "indexed_chunk D w u i k"
  shows "indexed_chunk D (process_job (worker_of D) j w) u i k"
proof (cases "pipeline_run (pipeline_of D) j (w_storage w) (w_vectors w)")
  case (Inl e)
  then have "w_vectors (process_job (worker_of D) j w) = w_vectors w" by (simp add: process_job_vectors)
  from indexed_chunk_vectors [OF this] assms(3) show ?thesis by simp
next
  case (Inr r)
  obtain res q where r: "r = (res, q)" by fastforce
  from Inr r have "w_vectors (process_job (worker_of D) j w) = q" by (simp add: process_job_vectors)
  from run_indexes(2) [OF assms(1) Inr [unfolded r] this assms(2,3)] show ?thesis .
qed

lemma process_job_own:
  fixes D :: "('m, 'q, 'r) deployment"
  assumes ok: "indexing_ok D" and inv: "docs_invar (dp_settings D) (w_documents w)"
    and e: "get_of D (job_workspace_id j) (job_document_id j) (w_documents (process_job (worker_of D) j w)) = Some e"
    and c: "dm_indexing_status e = status_str Completed"
  shows "fully_indexed D (process_job (worker_of D) j w) (job_workspace_id j) (job_document_id j) (dm_chunk_count e)"
proof -
  let ?wk = "worker_of D" and ?v = "job_workspace_id j" and ?i = "job_document_id j"
  have wk: "create_indexing_worker (dp_settings D) (dp_redis D) (pipeline_of D) = ?wk" by (simp add: worker_of_def)
  have "get_of D ?v ?i (w_documents w) \<noteq> None"
  proof
    assume none: "get_of D ?v ?i (w_documents w) = None"
    with app_worker.process_job_missing [where s = "dp_settings D" and R = "dp_redis D" and p = "pipeline_of D", unfolded wk, of j w]
    have "w_documents (process_job ?wk j w) = w_documents w" by simp
    with e none show False by simp
  qed
  then obtain d where "get_of D ?v ?i (w_documents w) = Some d" by blast
  then have d: "ds_get (wk_documents ?wk) ?v ?i (w_documents w) = Some d" by simp
  show ?thesis
  proof (cases "pipeline_run (pipeline_of D) j (w_storage w) (w_vectors w)")
    case (Inl exc)
    then have "pipeline_run (wk_pipeline ?wk) j (w_storage w) (w_vectors w) = Inl exc" by simp
    from app_worker.process_job_failure [OF inv, of "dp_redis D" "pipeline_of D", unfolded wk, OF d this] e c
    show ?thesis by (auto simp: app_worker.failed_status_def split: if_splits)
  next
    case (Inr r)
    obtain res q where r: "r = (res, q)" by fastforce
    with Inr have run: "pipeline_run (wk_pipeline ?wk) j (w_storage w) (w_vectors w) = Inr (res, q)" by simp
    from app_worker.process_job_success(1) [OF inv, of "dp_redis D" "pipeline_of D", unfolded wk, OF d run, of ?v ?i] e
    have "dm_chunk_count e = ir_chunk_count res" by auto
    moreover have "w_vectors (process_job ?wk j w) = q" using Inr r by (simp add: process_job_vectors)
    ultimately show ?thesis using run_indexes(1) [OF ok Inr [unfolded r]] by simp
  qed
qed

text \<open>The work on a job whose document is recorded, or whose object is gone so that the run fails.\<close>

lemma worked_searchable:
  fixes D :: "('m, 'q, 'r) deployment"
  assumes ok: "indexing_ok D" and s: "searchable D w" and inv: "docs_invar (dp_settings D) (w_documents v)"
    and v: "w_storage v = w_storage w" "w_vectors v = w_vectors w"
    and w': "w_vectors w' = w_vectors (process_job (worker_of D) j v)"
    and docs: "w_documents v = w_documents w \<and> w_documents w' = w_documents (process_job (worker_of D) j v)
      \<or> w_documents w' = w_documents w"
    and known: "get_of D (job_workspace_id j) (job_document_id j) (w_documents w) \<noteq> None \<or> objects_of D w (job_storage_key j) = None"
  shows "searchable D w'"
proof (cases "get_of D (job_workspace_id j) (job_document_id j) (w_documents w)")
  case None
  let ?wk = "worker_of D"
  have wk: "create_indexing_worker (dp_settings D) (dp_redis D) (pipeline_of D) = ?wk" by (simp add: worker_of_def)
  from None known run_needs_object [OF indexing_okD [OF ok], of w j "w_vectors w"]
  obtain e where "pipeline_run (pipeline_of D) j (w_storage w) (w_vectors w) = Inl e" by blast
  then have "w_vectors w' = w_vectors w" by (simp add: w' process_job_vectors v)
  moreover have "w_documents w' = w_documents w"
    using docs app_worker.process_job_missing [where s = "dp_settings D" and R = "dp_redis D" and p = "pipeline_of D", unfolded wk, of j v]
      None by auto
  ultimately show ?thesis by (intro searchable_frame [OF s]) (auto simp: points_of_def)
next
  case (Some d0)
  let ?wk = "worker_of D" and ?v = "job_workspace_id j" and ?i = "job_document_id j"
  have R: "redis_ok (rq_client (wk_queue ?wk))" using ok by (simp add: indexing_ok_def deployment_ok_def)
  note same = indexed_chunk_vectors [OF w'] indexed_chunk_vectors [OF v(2)]
  have keep: "indexed_chunk D w' u i k" if "u = ?v \<or> i \<noteq> ?i" "indexed_chunk D w u i k" for u i k
    using process_job_keeps [OF ok that(1), of v k] that(2) by (simp add: same)
  show ?thesis
  proof (rule searchable_step [OF s, of w' ?v ?i])
    show "get_of D u i (w_documents w) = Some e" if "get_of D u i (w_documents w') = Some e" "(u, i) \<noteq> (?v, ?i)" for u i e
      using docs worker_settles [OF inv R, of u i j e] that by auto
    show "u = ?v" if "get_of D u ?i (w_documents w) \<noteq> None" for u using searchableD(1) [OF s Some that] .
    show "indexed_chunk D w' u i k" if "i \<noteq> ?i" "indexed_chunk D w u i k" for u i k using keep that by blast
    show "fully_indexed D w' ?v ?i (dm_chunk_count e)"
      if e: "get_of D ?v ?i (w_documents w') = Some e" and c: "dm_indexing_status e = status_str Completed" for e
    proof (cases "w_documents w' = w_documents w")
      case True
      with e have "get_of D ?v ?i (w_documents w) = Some e" by simp
      from searchableD(2) [OF s this c] keep show ?thesis by (auto intro: fully_indexed_mono)
    next
      case False
      with docs e have "get_of D ?v ?i (w_documents (process_job ?wk j v)) = Some e" by simp
      from process_job_own [OF ok inv this c] show ?thesis by (simp add: fully_indexed_def same)
    qed
  qed
qed

text \<open>A round.\<close>

lemma round_searchable:
  assumes ok: "indexing_ok D" and b: "behind D w used" and s: "searchable D w"
    and r: "worker_round D own_events t w = (result, w')"
  shows "searchable D w'"
proof -
  let ?wk = "worker_of D" and ?q = "wk_queue (worker_of D)" and ?v = "worker_view D own_events w"
  let ?shared = "cfg_document_metadata_backend (dp_settings D) = py ''postgres''"
  have dok: "deployment_ok D" and R: "redis_ok (rq_client ?q)"
    using ok by (simp_all add: indexing_ok_def deployment_ok_def)
  obtain v where n: "process_next ?wk t ?v = (result, v)"
    and w': "w_vectors w' = w_vectors v" "w_documents w' = (if ?shared then w_documents v else w_documents w)"
    using r by (auto simp: worker_round_def split: prod.splits)
  obtain res v1 where pop: "redis_pop ?q t ?v = (res, v1)" by fastforce
  have frame: "w_documents v1 = w_documents ?v" "w_storage v1 = w_storage w" "w_vectors v1 = w_vectors w"
    using pop by (auto simp: redis_pop_def split: sum.splits option.splits exn.splits prod.splits)
  note law = redis_pop_queued [OF R pop]
  show ?thesis
  proof (cases "\<exists>job. res = Inr (Some job)")
    case False
    with n pop have "v = v1" by (auto simp: process_next_def split: sum.splits option.splits)
    then show ?thesis using frame w' by (intro searchable_frame [OF s]) (auto simp: points_of_def worker_view_def)
  next
    case True
    then obtain job where job: "res = Inr (Some job)" by blast
    with law obtain payload where "queued ?q ?v = queued ?q v1 @ [payload]" and d: "deserialize payload = Inr job" by auto
    then have "payload \<in> jobs_of D ?v" by (simp add: jobs_of_def)
    then have x: "payload \<in> jobs_of D w" by simp
    from behind_system_inv [OF b dok] obtain u where inv: "system_inv D (idle_system w u)" by blast
    have docs: "docs_invar (dp_settings D) (w_documents v1)"
      using system_invD(1) [OF inv] docs_invar_Nil by (simp add: frame worker_view_def idle_system_def)
    from system_invD(5) [OF inv, of payload] x d have "job_inv D (idle_system w u) job" by (simp add: idle_system_def payload_for_def)
    then have known: "get_of D (job_workspace_id job) (job_document_id job) (w_documents w) \<noteq> None
        \<or> objects_of D w (job_storage_key job) = None"
      by (auto simp: job_inv_def known_def idle_system_def)
    have v: "v = process_job ?wk job v1" using n pop job by (simp add: process_next_def)
    have "w_documents v1 = w_documents w \<and> w_documents w' = w_documents v \<or> w_documents w' = w_documents w"
      by (simp add: w' frame worker_view_def)
    from worked_searchable [OF ok s docs frame(2,3) w'(1) [unfolded v] this [unfolded v] known] show ?thesis .
  qed
qed

section \<open>The operations behind the endpoints\<close>

lemma enqueue_indexes:
  assumes ok: "indexing_ok D" and e: "sv_enqueue (service_of D) j w = (dispatch, w')"
  shows "u = job_workspace_id j \<or> i \<noteq> job_document_id j \<Longrightarrow> indexed_chunk D w u i k \<Longrightarrow> indexed_chunk D w' u i k"
    and "dr_status dispatch = Completed \<Longrightarrow>
      fully_indexed D w' (job_workspace_id j) (job_document_id j) (dr_chunk_count dispatch)"
proof -
  let ?q = "create_redis_job_queue (dp_redis D) (dp_settings D)" and ?est = "Some mem_event_store"
  have sv: "sv_enqueue (service_of D) = get_job_queue (dp_settings D) (dp_redis D) (pipeline_of D) ?est"
    by (simp add: service_of_def get_document_service_def)
  consider (same) "w_vectors w' = w_vectors w" "dr_status dispatch \<noteq> Completed"
    | (run) res q where "pipeline_run (pipeline_of D) j (w_storage w) (w_vectors w) = Inr (res, q)" "w_vectors w' = q"
        "dr_chunk_count dispatch = ir_chunk_count res"
  proof (cases "cfg_indexing_queue_backend (dp_settings D) = py ''redis''")
    case True
    with e sv have r: "redis_enqueue ?q ?est j w = (dispatch, w')" by (simp add: get_job_queue_def)
    with redis_enqueue_vectors [of ?q ?est j w] redis_enqueue_status [of ?q ?est j w] same show ?thesis by auto
  next
    case False
    with e sv have "inprocess_enqueue (pipeline_of D) ?est j w = (dispatch, w')" by (simp add: get_job_queue_def)
    with same run show ?thesis by (auto simp: inprocess_enqueue_def split: sum.splits prod.splits)
  qed
  note outcome = this
  show "indexed_chunk D w' u i k" if "u = job_workspace_id j \<or> i \<noteq> job_document_id j" "indexed_chunk D w u i k"
    using outcome
  proof cases
    case same
    with that(2) show ?thesis by (simp add: indexed_chunk_vectors [OF same(1)])
  next
    case run
    from run_indexes(2) [OF ok run(1,2) that] show ?thesis .
  qed
  show "fully_indexed D w' (job_workspace_id j) (job_document_id j) (dr_chunk_count dispatch)" if "dr_status dispatch = Completed"
    using outcome
  proof cases
    case same
    with that show ?thesis by simp
  next
    case run
    from run_indexes(1) [OF ok run(1,2)] show ?thesis by (simp add: run(3))
  qed
qed

lemma deletion_keeps:
  assumes "indexing_ok D" "vs_delete_document (dp_qdrant D) (dp_collection D) v i (w_vectors w) = Inr q"
    and "w_vectors w' = q" "j \<noteq> i" "indexed_chunk D w u j k"
  shows "indexed_chunk D w' u j k"
proof -
  have "qdrant_writes_ok (dp_qdrant D)" using assms(1) by (simp add: indexing_ok_def deployment_ok_def)
  from vs_delete_document_points [OF this assms(2)] assms(3-5) show ?thesis
    by (auto simp: indexed_chunk_def points_of_def)
qed

lemma delete_searchable:
  assumes ok: "indexing_ok D" and b: "behind D w used" and s: "searchable D w"
    and d: "delete_handler (service_of D) ctx i w = (result, w')"
  shows "searchable D w'"
  using d
proof (cases rule: delete_handlerE)
  case unchanged
  with s show ?thesis by simp
next
  case (points_only rec q e)
  with ok show ?thesis by (simp add: indexing_ok_def minio_deletes_def minio_storage_def minio_delete_def) (metis sum.distinct(1))
next
  case (deleted rec q m)
  let ?v = "wc_workspace_id ctx"
  have inv: "docs_invar (dp_settings D) (w_documents w)"
    using behind_readable [OF b indexing_okD [OF ok]] by (simp add: readable_def)
  have get: "get_of D u j (w_documents w') = (if (u, j) = (?v, i) then None else get_of D u j (w_documents w))" for u j
    using app_docs.get_delete [OF inv] by (simp add: deleted(4))
  have vectors: "w_vectors w' = q" by (simp add: deleted(4))
  show ?thesis
    by (rule searchable_step [OF s, of w' ?v i])
      (use get searchableD(1) [OF s deleted(1)] deletion_keeps [OF ok deleted(2) vectors] in \<open>auto split: if_splits\<close>)
qed

lemma reindex_searchable:
  assumes ok: "indexing_ok D" and b: "behind D w used" and s: "searchable D w"
    and r: "reindex_handler (dp_guess_type D) (service_of D) jid ctx i w = (result, w')"
  shows "searchable D w'"
  using r
proof (cases rule: reindex_handlerE)
  case unchanged
  with s show ?thesis by simp
next
  case (dispatched rec parsed q dispatch w1)
  let ?v = "wc_workspace_id ctx" and ?rec = "reindexed_record ctx parsed dispatch rec"
  let ?j = "reindex_job (dp_guess_type D) jid ctx i rec"
  have inv: "docs_invar (dp_settings D) (w_documents w)"
    using behind_readable [OF b indexing_okD [OF ok]] by (simp add: readable_def)
  have docs: "w_documents w1 = w_documents w"
    using app_queue.enqueue_documents [of "dp_settings D" "dp_redis D" "pipeline_of D" "Some mem_event_store" ?j "w\<lparr> w_vectors := q \<rparr>"]
      dispatched(3) by (simp add: service_of_def get_document_service_def)
  have "doc_key ?rec = doc_key rec" by (simp add: reindexed_record_def doc_key_def)
  from app_docs.update_get [OF inv dispatched(1) this]
  have get: "get_of D u j (w_documents w') = (if (u, j) = (?v, i) then Some ?rec else get_of D u j (w_documents w))" for u j
    by (simp add: dispatched(4) docs)
  have vectors: "w_vectors w' = w_vectors w1" by (simp add: dispatched(4))
  note w1 = indexed_chunk_vectors [OF vectors]
  have job: "job_workspace_id ?j = ?v" "job_document_id ?j = i" by (simp_all add: reindex_job_def)
  note enqueue = enqueue_indexes [OF ok dispatched(3), unfolded job]
  show ?thesis
  proof (rule searchable_step [OF s, of w' ?v i])
    show "indexed_chunk D w' u j k" if "j \<noteq> i" "indexed_chunk D w u j k" for u j k
    proof -
      have "indexed_chunk D (w\<lparr> w_vectors := q \<rparr>) u j k" by (rule deletion_keeps [OF ok dispatched(2) _ that]) simp
      with enqueue(1) that(1) show ?thesis by (simp add: w1)
    qed
    show "fully_indexed D w' ?v i (dm_chunk_count e)"
      if "get_of D ?v i (w_documents w') = Some e" "dm_indexing_status e = status_str Completed" for e
    proof -
      from that(1) have e: "e = ?rec" by (simp add: get)
      with that(2) have "status_str (dr_status dispatch) = status_str Completed"
        by (simp add: reindexed_record_def del: status_str.simps status_str_inj)
      then have "dr_status dispatch = Completed" by (simp only: status_str_inj)
      from enqueue(2) [OF this] show ?thesis by (simp add: e fully_indexed_def w1 reindexed_record_def)
    qed
  qed (use get searchableD(1) [OF s dispatched(1)] in \<open>auto split: if_splits\<close>)
qed

lemma upload_searchable:
  assumes ok: "indexing_ok D" and b: "behind D w used" and s: "searchable D w" and new: "up_document_id ids \<notin> used"
    and up: "upload_dispatch (dp_ucd D) (dp_guess_type D) (service_of D) ids ctx fn ct data level w = (Inr response, w1)"
  shows "searchable D (upload_record (service_of D) now response w1)"
proof -
  let ?v = "wc_workspace_id ctx" and ?i = "up_document_id ids"
  let ?d = "to_document_record now response" and ?w' = "upload_record (service_of D) now response w1"
  from up obtain parsed key m dispatch where
    e: "sv_enqueue (service_of D) (upload_job ids ctx (normalize_filename fn) (normalize_content_type (dp_ucd D) (dp_guess_type D) ct
      (normalize_filename fn)) key level) (w\<lparr> w_storage := m \<rparr>) = (dispatch, w1)"
    and r: "response = upload_response ids ctx (normalize_filename fn) key level parsed dispatch"
    by (rule upload_dispatchE)
  let ?j = "upload_job ids ctx (normalize_filename fn) (normalize_content_type (dp_ucd D) (dp_guess_type D) ct
      (normalize_filename fn)) key level"
  have job: "job_workspace_id ?j = ?v" "job_document_id ?j = ?i" by (simp_all add: upload_job_def)
  note enqueue = enqueue_indexes [OF ok e, unfolded job]
  have docs: "w_documents w1 = w_documents w"
    using app_queue.enqueue_documents [of "dp_settings D" "dp_redis D" "pipeline_of D" "Some mem_event_store" ?j "w\<lparr> w_storage := m \<rparr>"] e
    by (simp add: service_of_def get_document_service_def)
  note none = fresh_document [OF b indexing_okD [OF ok] new]
  note get = uploaded_get [OF behind_readable [OF b indexing_okD [OF ok]] docs, where response = response and now = now]
  have key: "dm_workspace_id response = ?v" "dm_document_id response = ?i" by (simp_all add: r upload_response_def)
  have status: "dm_indexing_status ?d = status_str (dr_status dispatch)" "dm_chunk_count ?d = dr_chunk_count dispatch"
    by (simp_all add: r upload_response_def to_document_record_def document_metadata.defs document_record.defs)
  have vectors: "w_vectors ?w' = w_vectors w1" by (simp add: upload_record_def)
  note w1 = indexed_chunk_vectors [OF vectors]
  have w0: "indexed_chunk D (w\<lparr> w_storage := m \<rparr>) = indexed_chunk D w" by (rule indexed_chunk_vectors) simp
  show ?thesis
  proof (rule searchable_step [OF s, of ?w' ?v ?i])
    show "indexed_chunk D ?w' u j k" if "j \<noteq> ?i" "indexed_chunk D w u j k" for u j k
      using enqueue(1) that by (simp add: w1 w0)
    show "fully_indexed D ?w' ?v ?i (dm_chunk_count x)"
      if "get_of D ?v ?i (w_documents ?w') = Some x" "dm_indexing_status x = status_str Completed" for x
    proof -
      from that(1) get none have x: "x = ?d" by (simp add: key)
      with that(2) status have "status_str (dr_status dispatch) = status_str Completed" by (simp only:)
      then have "dr_status dispatch = Completed" by (simp only: status_str_inj)
      from enqueue(2) [OF this] show ?thesis by (simp add: x fully_indexed_def w1 status(2))
    qed
  qed (use get none in \<open>auto simp: key split: if_splits\<close>)
qed

lemma collection_searchable:
  assumes "indexing_ok D" "searchable D w"
  shows "searchable D (w\<lparr> w_vectors := ensure_collection (dp_qdrant D) (dp_collection D) (w_vectors w) \<rparr>)"
proof (rule searchable_frame [OF assms(2)])
  have "qdrant_exists_ok (dp_qdrant D)" using assms(1) by (simp add: indexing_ok_def)
  then show "points_of D w \<subseteq> points_of D (w\<lparr> w_vectors := ensure_collection (dp_qdrant D) (dp_collection D) (w_vectors w) \<rparr>)"
    by (auto simp: points_of_def ensure_collection_def qdrant_exists_ok_def)
qed simp

interpretation indexing: history_invariant D "indexing_ok D" "searchable D"
  for D :: "('m, 'q, 'r) deployment"
proof (unfold_locales, goal_cases)
  case (1 w)
  then show ?case by (simp add: empty_system_def idle_system_def searchable_def get_of_Nil)
next
  case (2 w e)
  then show ?case by (auto intro: searchable_frame)
next
  case (3 w)
  then show ?case by (rule collection_searchable)
next
  case (4 w used own_events t result w')
  then show ?case by (blast intro: round_searchable)
next
  case (5 w used ctx i deleted w')
  then show ?case by (blast intro: delete_searchable)
next
  case (6 w used ctx jid i reindexed w')
  then show ?case by (blast intro: reindex_searchable)
next
  case (7 w used ctx ids fn ct l level data response w1 now)
  then show ?case by (blast intro: upload_searchable)
qed

section \<open>Properties\<close>


section \<open>A sample history\<close>

lemma identity_ids_unique: "point_ids_unique (\<lambda>t. t)"
proof -
  have "i = j \<and> k = l" if "i @ py '':'' @ str_int (int k) = j @ py '':'' @ str_int (int l)" for i j k l
  proof -
    have "58 \<notin> set (str_int (int n))" for n using nat_digits_facts [of n] by (auto simp: str_int_def list_all_iff is_ascii_digit_def)
    moreover have "i @ 58 # str_int (int k) = j @ 58 # str_int (int l)" using that by (simp add: py_def)
    ultimately have "i = j \<and> str_int (int k) = str_int (int l)" by (intro append_sep_eq)
    then have "i = j" "nat_digits k = nat_digits l" by (simp_all add: str_int_def del: nat_digits.simps)
    with nat_digits_inj show ?thesis by blast
  qed
  then show ?thesis unfolding point_ids_unique_def by blast
qed

lemma sample_post_completed:
  "map_option (\<lambda>d. (dm_indexing_status d, dm_chunk_count d)) (ds_get (create_document_metadata_store sample_settings) (py ''w'') (py ''d'')
     (w_documents (world_of (snd sample_post)))) = Some (py ''completed'', 1)"
  by code_simp


end
